(* ===== verification/Prelude.thy ===== *)
theory Prelude
  imports Main "HOL-Library.Word" "HOL-Library.Monad_Syntax"
begin

section \<open>Shared types, C arithmetic and C strings\<close>

text \<open>
  The types and helpers every component of the model uses: the machine integers of the C
  code as words, a double as its 64 bits (the modelled code moves doubles and never
  computes with them, where it does the operation is a parameter), the convention that
  \<open>None\<close> is undefined behaviour or an abort (a null or out of range access, a failed
  \<open>assert\<close>), checked array access, and the decimal printing of \<open>snprintf\<close> that
  builds the lookup keys of the variable indexes.
\<close>

named_theorems model_defs \<open>definitions that component proofs unfold\<close>

type_synonym u8 = "8 word"
type_synonym u16 = "16 word"
type_synonym u32 = "32 word"
type_synonym u64 = "64 word"
type_synonym f64 = "64 word"
type_synonym bytes = "u8 list"

subsection \<open>Checked access: \<open>None\<close> is undefined behaviour\<close>

definition nth_opt :: "'a list \<Rightarrow> nat \<Rightarrow> 'a option" where
  "nth_opt xs i = (if i < length xs then Some (xs ! i) else None)"

definition upd_opt :: "'a list \<Rightarrow> nat \<Rightarrow> 'a \<Rightarrow> 'a list option" where
  "upd_opt xs i x = (if i < length xs then Some (xs[i := x]) else None)"

lemma nth_opt_Some [simp]: "nth_opt xs i = Some x \<longleftrightarrow> i < length xs \<and> xs ! i = x"
  by (auto simp: nth_opt_def)

lemma nth_opt_in [simp]: "i < length xs \<Longrightarrow> nth_opt xs i = Some (xs ! i)"
  by (simp add: nth_opt_def)

lemma nth_opt_None [simp]: "nth_opt xs i = None \<longleftrightarrow> length xs \<le> i"
  by (auto simp: nth_opt_def)

lemma upd_opt_Some [simp]: "upd_opt xs i x = Some ys \<longleftrightarrow> i < length xs \<and> ys = xs[i := x]"
  by (auto simp: upd_opt_def)

lemma upd_opt_in [simp]: "i < length xs \<Longrightarrow> upd_opt xs i x = Some (xs[i := x])"
  by (simp add: upd_opt_def)

lemma upd_opt_None [simp]: "upd_opt xs i x = None \<longleftrightarrow> length xs \<le> i"
  by (auto simp: upd_opt_def)

lemma nth_update_if: "xs[i := y] ! j = (if i = j \<and> i < length xs then y else xs ! j)"
  by (cases "i < length xs") (simp_all add: nth_list_update list_update_beyond)

lemma bind_SomeD: "x \<bind> f = Some y \<Longrightarrow> \<exists>a. x = Some a \<and> f a = Some y"
  by (cases x) auto

text \<open>A counting loop of the C code whose body may fault: a fold in the option monad.\<close>

fun foldM :: "('s \<Rightarrow> 'a \<Rightarrow> 's option) \<Rightarrow> 's \<Rightarrow> 'a list \<Rightarrow> 's option" where
  "foldM f s [] = Some s"
| "foldM f s (x # xs) = do { t \<leftarrow> f s x; foldM f t xs }"

lemma foldM_append: "foldM f s (xs @ ys) = do { t \<leftarrow> foldM f s xs; foldM f t ys }"
  by (induction xs arbitrary: s) simp_all

lemma foldM_inv:
  "foldM f s xs = Some t \<Longrightarrow> P s \<Longrightarrow> (\<And>u x v. P u \<Longrightarrow> x \<in> set xs \<Longrightarrow> f u x = Some v \<Longrightarrow> P v) \<Longrightarrow> P t"
proof (induction xs arbitrary: s)
  case (Cons x xs)
  from Cons.prems(1) obtain v where v: "f s x = Some v" "foldM f v xs = Some t"
    by (auto simp: bind_eq_Some_conv)
  have "P v" by (rule Cons.prems(3) [OF Cons.prems(2) _ v(1)]) simp
  show ?case by (rule Cons.IH [OF v(2) \<open>P v\<close>]) (rule Cons.prems(3), auto)
qed simp

lemma foldM_total:
  "P s \<Longrightarrow> (\<And>u x. P u \<Longrightarrow> x \<in> set xs \<Longrightarrow> \<exists>v. f u x = Some v \<and> P v) \<Longrightarrow> \<exists>t. foldM f s xs = Some t \<and> P t"
proof (induction xs arbitrary: s)
  case (Cons x xs)
  from Cons.prems obtain v where "f s x = Some v" "P v" by fastforce
  with Cons.IH [of v] Cons.prems(2) show ?case by simp
qed simp

lemma foldM_pure: "(\<And>u x. x \<in> set xs \<Longrightarrow> f u x = Some (g u x)) \<Longrightarrow> foldM f s xs = Some (foldl g s xs)"
  by (induction xs arbitrary: s) auto

subsection \<open>Decimal printing: \<open>%u\<close>, \<open>%i\<close> and the truncation of \<open>snprintf\<close>\<close>

definition digit_char :: "nat \<Rightarrow> char" where
  "digit_char d = char_of (48 + d)"

fun show_nat :: "nat \<Rightarrow> string" where
  "show_nat n = (if n < 10 then [digit_char n] else show_nat (n div 10) @ [digit_char (n mod 10)])"

declare show_nat.simps [simp del]

definition show_int :: "int \<Rightarrow> string" where
  "show_int i = (if i < 0 then CHR ''-'' # show_nat (nat (- i)) else show_nat (nat i))"

text \<open>\<open>snprintf(buf, sz, ...)\<close> keeps at most \<open>sz - 1\<close> characters.\<close>

definition snprintf :: "nat \<Rightarrow> string \<Rightarrow> string" where
  "snprintf sz s = take (sz - 1) s"

text \<open>\<open>"%i"\<close> with an unsigned 32 bit argument reads it as a signed int.\<close>

definition fmt_i :: "u32 \<Rightarrow> string" where
  "fmt_i w = show_int (sint w)"

definition fmt_u :: "u32 \<Rightarrow> string" where
  "fmt_u w = show_nat (unat w)"

lemma digit_char_inj: "d < 10 \<Longrightarrow> e < 10 \<Longrightarrow> digit_char d = digit_char e \<longleftrightarrow> d = e"
  by (auto simp: digit_char_def dest: arg_cong [where f = "of_char :: char \<Rightarrow> nat"])

lemma show_nat_nonempty [simp]: "show_nat n \<noteq> []"
  by (subst show_nat.simps) simp

lemma show_nat_nonempty' [simp]: "[] \<noteq> show_nat n"
  by (metis show_nat_nonempty)

lemma show_nat_digits: "set (show_nat n) \<subseteq> digit_char ` {..<10}"
proof (induction n rule: show_nat.induct)
  case (1 n)
  then show ?case by (subst show_nat.simps) (auto simp: image_iff)
qed

lemma minus_not_digit: "CHR ''-'' \<notin> set (show_nat n)"
proof
  assume "CHR ''-'' \<in> set (show_nat n)"
  then obtain d where "d < 10" "CHR ''-'' = digit_char d"
    using show_nat_digits by fastforce
  then have "of_char (CHR ''-'') = 48 + d"
    by (simp add: digit_char_def)
  then show False by simp
qed

lemma show_nat_inj: "show_nat m = show_nat n \<longleftrightarrow> m = n"
proof (induction m arbitrary: n rule: show_nat.induct)
  case (1 m)
  show ?case
  proof (cases "m < 10")
    case True
    show ?thesis
    proof (cases "n < 10")
      case True
      with \<open>m < 10\<close> show ?thesis
        by (simp add: show_nat.simps [of m] show_nat.simps [of n] digit_char_inj)
    next
      case False
      with \<open>m < 10\<close> show ?thesis
        by (auto simp: show_nat.simps [of m] show_nat.simps [of n])
    qed
  next
    case False
    show ?thesis
    proof (cases "n < 10")
      case True
      with \<open>\<not> m < 10\<close> show ?thesis
        by (auto simp: show_nat.simps [of m] show_nat.simps [of n])
    next
      case n: False
      have "show_nat m = show_nat n \<longleftrightarrow> m div 10 = n div 10 \<and> m mod 10 = n mod 10"
        using False n 1 [OF False, of "n div 10"]
        by (simp add: show_nat.simps [of m] show_nat.simps [of n] digit_char_inj)
      also have "\<dots> \<longleftrightarrow> m = n" by (metis div_mult_mod_eq)
      finally show ?thesis .
    qed
  qed
qed

lemma length_show_nat: "n < 10 ^ Suc k \<Longrightarrow> length (show_nat n) \<le> Suc k"
proof (induction k arbitrary: n)
  case 0
  then show ?case by (subst show_nat.simps) simp
next
  case (Suc k)
  then have "n div 10 < 10 ^ Suc k" by (simp add: less_mult_imp_div_less)
  with Suc.IH have "length (show_nat (n div 10)) \<le> Suc k" by blast
  then show ?case by (subst show_nat.simps) simp
qed

subsection \<open>Comparing doubles\<close>

text \<open>The order of IEEE 754 on the bit patterns.\<close>

definition f64_nan :: "f64 \<Rightarrow> bool" where
  "f64_nan x \<longleftrightarrow> 0x7FF0000000000000 < unat (take_bit 63 x)"

definition f64_ord :: "f64 \<Rightarrow> int" where
  "f64_ord x = (if bit x 63 then - int (unat (take_bit 63 x)) else int (unat (take_bit 63 x)))"

definition f64_le :: "f64 \<Rightarrow> f64 \<Rightarrow> bool" where
  "f64_le x y \<longleftrightarrow> \<not> f64_nan x \<and> \<not> f64_nan y \<and> f64_ord x \<le> f64_ord y"

lemma f64_le_trans: "f64_le x y \<Longrightarrow> f64_le y z \<Longrightarrow> f64_le x z"
  by (auto simp: f64_le_def)

end
