(* ===== verification/CLib.thy ===== *)
theory CLib
  imports Prelude "HOL-Library.AList"
begin

section \<open>Pointers, binary buffers and the external C library\<close>

text \<open>
  The values the C code stores behind \<open>void*\<close> in its hash maps, the triple (buffer,
  length, buffer size) that a binary signal is made of, and the interface of the external
  library \<open>dse.clib\<close>: its code is not part of this repository, so its operations are the
  fields of a record \<open>clib\<close> that every definition using them takes as an argument, and
  what the code relies on are the named hypotheses \<open>hashmap_ok\<close>, \<open>buffer_ok\<close> and
  \<open>ascii85_ok\<close>. The library's sequences (\<open>HashList\<close>, \<open>Vector\<close>, null terminated lists)
  are read as HOL lists in append order.
\<close>

subsection \<open>Pointers\<close>

text \<open>
  A \<open>double*\<close> either points into the scalar array of a signal vector (vector, element) or
  to a double the hash map allocated itself (\<open>hashmap_set_double\<close>).
\<close>

datatype dloc = DScalar nat nat | DHeap nat

text \<open>\<open>FmuSignalVectorIndex\<close> (fmu.h): a signal vector and an element of it.\<close>

record svi =
  svi_sv :: nat
  svi_vi :: u32

datatype vptr =
    PDouble dloc
  | PIndex svi
  | PEncode
  | PDecode
  | PString bytes
  | PLong int

subsection \<open>Binary buffers\<close>

record bin =
  b_buf :: "bytes option"
  b_len :: u32
  b_cap :: u32

definition bin_wf :: "bin \<Rightarrow> bool" where
  "bin_wf b \<longleftrightarrow> (case b_buf b of None \<Rightarrow> b_len b = 0 \<and> b_cap b = 0
                | Some xs \<Rightarrow> length xs = unat (b_cap b) \<and> b_len b \<le> b_cap b)"

definition bin_content :: "bin \<Rightarrow> bytes" where
  "bin_content b = (case b_buf b of None \<Rightarrow> [] | Some xs \<Rightarrow> take (unat (b_len b)) xs)"

definition bin_reset :: "bin \<Rightarrow> bin" where
  "bin_reset b = b\<lparr>b_len := 0\<rparr>"

lemma bin_wf_reset [simp]: "bin_wf b \<Longrightarrow> bin_wf (bin_reset b)"
  by (auto simp: bin_wf_def bin_reset_def split: option.splits)

lemma bin_content_reset [simp]: "bin_content (bin_reset b) = []"
  by (auto simp: bin_content_def bin_reset_def split: option.splits)

lemma bin_content_length: "bin_wf b \<Longrightarrow> length (bin_content b) = unat (b_len b)"
  by (auto simp: bin_wf_def bin_content_def word_le_nat_alt split: option.splits)

subsection \<open>The library's operations\<close>

record 'm clib =
  hm_init :: 'm
  hm_get :: "'m \<Rightarrow> string \<Rightarrow> vptr option"
  hm_set :: "'m \<Rightarrow> string \<Rightarrow> vptr \<Rightarrow> 'm"
  hm_number_keys :: "'m \<Rightarrow> nat"
  buffer_append :: "bin \<Rightarrow> bytes \<Rightarrow> bin"
  ascii85_encode :: "bytes \<Rightarrow> bytes"
  ascii85_decode :: "bytes \<Rightarrow> bytes"
  hashlist_key_len :: nat

text \<open>A hash map is a finite map from strings: lookup after \<open>init\<close> and after \<open>set\<close>.\<close>

definition hashmap_ok :: "'m clib \<Rightarrow> bool" where
  "hashmap_ok L \<longleftrightarrow> (\<forall>k. hm_get L (hm_init L) k = None) \<and>
     (\<forall>m k v k'. hm_get L (hm_set L m k v) k' = (if k' = k then Some v else hm_get L m k'))"

text \<open>\<open>dse_buffer_append\<close> grows the buffer as needed and appends, as long as the length fits.\<close>

definition buffer_ok :: "'m clib \<Rightarrow> bool" where
  "buffer_ok L \<longleftrightarrow> (\<forall>b xs. bin_wf b \<longrightarrow> unat (b_len b) + length xs < 2 ^ 32 \<longrightarrow>
     bin_wf (buffer_append L b xs) \<and> bin_content (buffer_append L b xs) = bin_content b @ xs)"

text \<open>Decoding an encoded byte string gives it back, and an encoded string holds no NUL.\<close>

definition ascii85_ok :: "'m clib \<Rightarrow> bool" where
  "ascii85_ok L \<longleftrightarrow> (\<forall>xs. ascii85_decode L (ascii85_encode L xs) = xs \<and> 0 \<notin> set (ascii85_encode L xs))"

lemma hashmap_okD:
  assumes "hashmap_ok L"
  shows "hm_get L (hm_init L) k = None"
    and "hm_get L (hm_set L m k v) k' = (if k' = k then Some v else hm_get L m k')"
  using assms by (simp_all add: hashmap_ok_def)

lemma buffer_okD:
  assumes "buffer_ok L" "bin_wf b" "unat (b_len b) + length xs < 2 ^ 32"
  shows "bin_wf (buffer_append L b xs)"
    and "bin_content (buffer_append L b xs) = bin_content b @ xs"
  using assms by (simp_all add: buffer_ok_def)

lemma buffer_append_len:
  assumes "buffer_ok L" "bin_wf b" "unat (b_len b) + length xs < 2 ^ 32"
  shows "unat (b_len (buffer_append L b xs)) = unat (b_len b) + length xs"
  using buffer_okD [OF assms] assms(2) by (metis bin_content_length length_append)

lemma ascii85_okD:
  assumes "ascii85_ok L"
  shows "ascii85_decode L (ascii85_encode L xs) = xs" and "0 \<notin> set (ascii85_encode L xs)"
  using assms by (simp_all add: ascii85_ok_def)

subsection \<open>A reference instance\<close>

text \<open>
  Concrete operations that satisfy the hypotheses, on which the witnesses evaluate: maps
  as association lists, exact reallocation on append, and a hexadecimal text encoding in
  place of ascii85.
\<close>

definition ref_append :: "bin \<Rightarrow> bytes \<Rightarrow> bin" where
  "ref_append b xs = (if xs = [] then b else
     let ys = bin_content b @ xs
     in \<lparr>b_buf = Some ys, b_len = word_of_nat (length ys), b_cap = word_of_nat (length ys)\<rparr>)"

definition ref_encode :: "bytes \<Rightarrow> bytes" where
  "ref_encode xs = concat (map (\<lambda>x. [1 + (x div 16), 1 + (x mod 16)]) xs)"

fun ref_decode :: "bytes \<Rightarrow> bytes" where
  "ref_decode (a # b # xs) = ((a - 1) * 16 + (b - 1)) # ref_decode xs"
| "ref_decode _ = []"

definition ref_clib :: "((string \<times> vptr) list) clib" where
  "ref_clib = \<lparr>hm_init = [], hm_get = map_of, hm_set = (\<lambda>m k v. AList.update k v m),
     hm_number_keys = length, buffer_append = ref_append, ascii85_encode = ref_encode,
     ascii85_decode = ref_decode, hashlist_key_len = 64\<rparr>"

lemma ref_hashmap_ok: "hashmap_ok ref_clib"
  by (simp add: hashmap_ok_def ref_clib_def update_conv)

lemma ref_buffer_ok: "buffer_ok ref_clib"
  unfolding buffer_ok_def
proof (intro allI impI)
  fix b :: bin and xs :: bytes
  assume wf: "bin_wf b" and len: "unat (b_len b) + length xs < 2 ^ 32"
  let ?n = "length (bin_content b @ xs)"
  have n: "?n = unat (b_len b) + length xs"
    by (simp add: bin_content_length [OF wf])
  have "unat (word_of_nat ?n :: u32) = ?n"
    using len n by (subst unat_of_nat) (simp add: take_bit_nat_eq_self)
  then show "bin_wf (buffer_append ref_clib b xs) \<and>
      bin_content (buffer_append ref_clib b xs) = bin_content b @ xs"
    using wf by (auto simp: ref_clib_def ref_append_def bin_wf_def bin_content_def Let_def)
qed

lemma ref_nibbles: "((x::u8) div 16) * 16 + (x mod 16) = x"
  by (simp add: div_mult_mod_eq)

lemma ref_nibble_nonzero: "1 + (x::u8) div 16 \<noteq> 0" "1 + (x::u8) mod 16 \<noteq> 0"
proof -
  have d: "unat (x div 16) < 16"
    using unsigned_less [where ?'a = nat, of x] by (simp add: unat_div less_mult_imp_div_less)
  have m: "unat (x mod 16) < 16" by (simp add: unat_mod)
  have "unat (1 + x div 16) = 1 + unat (x div 16)"
    using d by (simp add: unat_word_ariths)
  then show "1 + x div 16 \<noteq> 0" by auto
  have "unat (1 + x mod 16) = 1 + unat (x mod 16)"
    using m by (simp add: unat_word_ariths)
  then show "1 + x mod 16 \<noteq> 0" by auto
qed

lemma ref_ascii85_ok: "ascii85_ok ref_clib"
proof -
  have "ref_decode (ref_encode xs) = xs" for xs
    by (induction xs) (simp_all add: ref_encode_def ref_nibbles)
  moreover have "0 \<notin> set (ref_encode xs)" for xs
    by (induction xs) (use ref_nibble_nonzero in \<open>auto simp: ref_encode_def\<close>)
  ultimately show ?thesis by (simp add: ascii85_ok_def ref_clib_def)
qed

lemmas ref_clib_ok = ref_hashmap_ok ref_buffer_ok ref_ascii85_ok

end
