(* ===== verification/FmuState.thy ===== *)
theory FmuState
  imports CLib
begin

section \<open>The FMU instance: signal vectors, codecs and \<open>FmuInstanceData\<close> (dse/fmu/fmu.h)\<close>

text \<open>
  The state every FMI call works on. A signal vector holds its parallel arrays as the C
  struct does, \<open>None\<close> for a null array. \<open>mem_sv\<close> is the store of signal vectors the index
  maps point into, \<open>mem_dbl\<close> the doubles a hash map allocated, \<open>nc_heap\<close> the codec objects,
  and \<open>log_out\<close> the calls of the logger callback in order. The invariant \<open>fmu_wf\<close> says that
  every pointer held by an index map is valid.
\<close>

datatype fmi_status = FmiOK | FmiWarning | FmiDiscard | FmiError | FmiFatal | FmiPending

record signal_vector =
  sv_count :: u32
  sv_signal :: "string option list"
  sv_scalar :: "f64 list option"
  sv_binary :: "bytes option list option"
  sv_length :: "u32 list"
  sv_buffer_size :: "u32 list"
  sv_mime_type :: "string option list"
  sv_ncodec :: "nat option list"

text \<open>\<open>__BinarySignalStream\<close> and \<open>NCodecTraceData\<close> (ncodec.c), hung off a codec object.\<close>

record bstream =
  bs_sv :: nat
  bs_idx :: u32
  bs_pos :: u32

record 'm nctrace =
  td_model_inst_name :: string
  td_identifier :: string
  td_wildcard :: bool
  td_filter :: 'm

datatype trace_kind = TraceCan | TracePdu

record 'm ncodec =
  nc_mime :: string
  nc_stream :: "bstream option"
  nc_private :: "'m nctrace option"
  nc_trace :: "trace_kind option"

text \<open>
  \<open>FmuVarTableMarshalItem\<close>: the variable is a byte offset into the variable table (the C
  code adds the table's base address to it), the signal a \<open>double*\<close>.
\<close>

record marshal_item =
  mi_variable :: u64
  mi_signal :: dloc

datatype logger = UserLogger | DefaultLogger

record log_entry =
  le_status :: int
  le_category :: "string option"
  le_message :: string

record ('m, 'd) fmu =
  inst_name :: string
  inst_type :: nat
  inst_version :: nat
  inst_resource_location :: string
  inst_guid :: string
  inst_log_enabled :: bool
  inst_logger :: logger
  inst_save_resource_location :: string
  inst_log_categories :: u16
  scalar_input :: 'm
  scalar_output :: 'm
  string_input :: 'm
  string_output :: 'm
  binary_rx :: 'm
  binary_tx :: 'm
  encode_func :: 'm
  decode_func :: 'm
  free_list :: "bytes list"
  signals_reset :: bool
  fmu_data :: 'd
  vt_table :: "(u64 \<Rightarrow> f64) option"
  vt_var_list :: "marshal_item list"
  vt_marshal_list :: "marshal_item list"
  di_map :: "bytes option"
  di_size :: u32
  mem_sv :: "signal_vector list"
  mem_dbl :: "f64 list"
  nc_heap :: "'m ncodec list"
  log_out :: "log_entry list"

text \<open>A zeroed instance (\<open>calloc\<close>) whose hash maps are \<open>m\<close> and whose \<open>data\<close> is \<open>d\<close>.\<close>

definition zero_fmu :: "'m \<Rightarrow> 'd \<Rightarrow> ('m, 'd) fmu" where
  "zero_fmu m d = \<lparr>inst_name = [], inst_type = 0, inst_version = 0, inst_resource_location = [], inst_guid = [],
     inst_log_enabled = False, inst_logger = DefaultLogger, inst_save_resource_location = [], inst_log_categories = 0,
     scalar_input = m, scalar_output = m, string_input = m, string_output = m, binary_rx = m, binary_tx = m,
     encode_func = m, decode_func = m, free_list = [], signals_reset = False, fmu_data = d,
     vt_table = None, vt_var_list = [], vt_marshal_list = [], di_map = None, di_size = 0,
     mem_sv = [], mem_dbl = [], nc_heap = [], log_out = []\<rparr>"

subsection \<open>Loads and stores through the pointers\<close>

fun load_d :: "signal_vector list \<Rightarrow> f64 list \<Rightarrow> dloc \<Rightarrow> f64 option" where
  "load_d ms md (DScalar r i) =
     do { sv \<leftarrow> nth_opt ms r; xs \<leftarrow> sv_scalar sv; nth_opt xs i }"
| "load_d ms md (DHeap n) = nth_opt md n"

definition store_sv :: "signal_vector list \<Rightarrow> nat \<Rightarrow> nat \<Rightarrow> f64 \<Rightarrow> signal_vector list option" where
  "store_sv ms r i v =
     do { sv \<leftarrow> nth_opt ms r; xs \<leftarrow> sv_scalar sv; ys \<leftarrow> upd_opt xs i v;
          Some (ms[r := sv\<lparr>sv_scalar := Some ys\<rparr>]) }"

fun load :: "('m, 'd) fmu \<Rightarrow> dloc \<Rightarrow> f64 option" where
  "load f p = load_d (mem_sv f) (mem_dbl f) p"

fun store :: "('m, 'd) fmu \<Rightarrow> dloc \<Rightarrow> f64 \<Rightarrow> ('m, 'd) fmu option" where
  "store f (DScalar r i) v =
     do { ms \<leftarrow> store_sv (mem_sv f) r i v; Some (f\<lparr>mem_sv := ms\<rparr>) }"
| "store f (DHeap n) v = do { md \<leftarrow> upd_opt (mem_dbl f) n v; Some (f\<lparr>mem_dbl := md\<rparr>) }"

declare load.simps [simp del]

definition get_bin :: "signal_vector list \<Rightarrow> nat \<Rightarrow> nat \<Rightarrow> bin option" where
  "get_bin ms r i =
     do { sv \<leftarrow> nth_opt ms r; bs \<leftarrow> sv_binary sv; b \<leftarrow> nth_opt bs i;
          l \<leftarrow> nth_opt (sv_length sv) i; c \<leftarrow> nth_opt (sv_buffer_size sv) i;
          Some \<lparr>b_buf = b, b_len = l, b_cap = c\<rparr> }"

definition set_bin :: "signal_vector \<Rightarrow> nat \<Rightarrow> bin \<Rightarrow> signal_vector" where
  "set_bin sv i b = sv\<lparr>sv_binary := map_option (\<lambda>bs. bs[i := b_buf b]) (sv_binary sv),
     sv_length := (sv_length sv)[i := b_len b],
     sv_buffer_size := (sv_buffer_size sv)[i := b_cap b]\<rparr>"

definition put_bin :: "signal_vector list \<Rightarrow> nat \<Rightarrow> nat \<Rightarrow> bin \<Rightarrow> signal_vector list option" where
  "put_bin ms r i b = do { _ \<leftarrow> get_bin ms r i; Some (ms[r := set_bin (ms ! r) i b]) }"

subsection \<open>Well-formed vectors and pointers\<close>

text \<open>A vector is scalar or binary, and every array it has is \<open>count\<close> long.\<close>

definition sv_wf :: "signal_vector \<Rightarrow> bool" where
  "sv_wf sv \<longleftrightarrow> length (sv_signal sv) = unat (sv_count sv) \<and> (case sv_binary sv of
      None \<Rightarrow> (case sv_scalar sv of None \<Rightarrow> False | Some xs \<Rightarrow> length xs = unat (sv_count sv) \<and> sv_ncodec sv = [])
    | Some bs \<Rightarrow> sv_scalar sv = None \<and> length bs = unat (sv_count sv)
        \<and> length (sv_length sv) = unat (sv_count sv) \<and> length (sv_buffer_size sv) = unat (sv_count sv)
        \<and> length (sv_ncodec sv) = unat (sv_count sv) \<and> length (sv_mime_type sv) = unat (sv_count sv)
        \<and> (\<forall>i < unat (sv_count sv). bin_wf \<lparr>b_buf = bs ! i, b_len = sv_length sv ! i,
                                            b_cap = sv_buffer_size sv ! i\<rparr>))"

definition mem_wf :: "signal_vector list \<Rightarrow> bool" where
  "mem_wf ms \<longleftrightarrow> (\<forall>sv \<in> set ms. sv_wf sv)"

definition dloc_ok :: "signal_vector list \<Rightarrow> f64 list \<Rightarrow> dloc \<Rightarrow> bool" where
  "dloc_ok ms md p \<longleftrightarrow> load_d ms md p \<noteq> None"

definition svi_ok :: "signal_vector list \<Rightarrow> svi \<Rightarrow> bool" where
  "svi_ok ms x \<longleftrightarrow> get_bin ms (svi_sv x) (unat (svi_vi x)) \<noteq> None \<and>
     (\<exists>n. nth_opt (sv_signal (ms ! svi_sv x)) (unat (svi_vi x)) = Some (Some n))"

definition scalar_map_ok :: "'m clib \<Rightarrow> signal_vector list \<Rightarrow> f64 list \<Rightarrow> 'm \<Rightarrow> bool" where
  "scalar_map_ok L ms md m \<longleftrightarrow>
     (\<forall>k v. hm_get L m k = Some v \<longrightarrow> (\<exists>p. v = PDouble p \<and> dloc_ok ms md p))"

definition binary_map_ok :: "'m clib \<Rightarrow> signal_vector list \<Rightarrow> 'm \<Rightarrow> bool" where
  "binary_map_ok L ms m \<longleftrightarrow>
     (\<forall>k v. hm_get L m k = Some v \<longrightarrow> (\<exists>x. v = PIndex x \<and> svi_ok ms x))"

definition func_map_ok :: "'m clib \<Rightarrow> vptr \<Rightarrow> 'm \<Rightarrow> bool" where
  "func_map_ok L w m \<longleftrightarrow> (\<forall>k v. hm_get L m k = Some v \<longrightarrow> v = w)"

definition fmu_wf :: "'m clib \<Rightarrow> ('m, 'd) fmu \<Rightarrow> bool" where
  "fmu_wf L f \<longleftrightarrow> mem_wf (mem_sv f)
     \<and> scalar_map_ok L (mem_sv f) (mem_dbl f) (scalar_input f)
     \<and> scalar_map_ok L (mem_sv f) (mem_dbl f) (scalar_output f)
     \<and> binary_map_ok L (mem_sv f) (binary_rx f) \<and> binary_map_ok L (mem_sv f) (binary_tx f)
     \<and> func_map_ok L PEncode (encode_func f) \<and> func_map_ok L PDecode (decode_func f)
     \<and> (\<forall>m \<in> set (vt_marshal_list f). dloc_ok (mem_sv f) (mem_dbl f) (mi_signal m))
     \<and> (vt_marshal_list f \<noteq> [] \<longrightarrow> vt_table f \<noteq> None)"

subsection \<open>Shapes: what no load, store or append changes\<close>

text \<open>
  Validity of a pointer depends only on the shape of the store (which arrays exist and how
  long they are), and every operation after the set-up keeps the shape.
\<close>

definition sv_shape :: "signal_vector \<Rightarrow> u32 \<times> string option list \<times> nat option \<times> nat option \<times> nat \<times> nat \<times> nat option list" where
  "sv_shape sv = (sv_count sv, sv_signal sv, map_option length (sv_scalar sv), map_option length (sv_binary sv),
     length (sv_length sv), length (sv_buffer_size sv), sv_ncodec sv)"

definition mem_shape :: "signal_vector list \<Rightarrow> (u32 \<times> string option list \<times> nat option \<times> nat option \<times> nat \<times> nat \<times> nat option list) list" where
  "mem_shape ms = map sv_shape ms"

lemma mem_shape_length: "mem_shape ms' = mem_shape ms \<Longrightarrow> length ms' = length ms"
  unfolding mem_shape_def by (metis length_map)

lemma mem_shape_nth:
  assumes "mem_shape ms' = mem_shape ms" "r < length ms"
  shows "sv_shape (ms' ! r) = sv_shape (ms ! r)"
  using assms mem_shape_length [OF assms(1)] unfolding mem_shape_def by (metis nth_map)

lemma dloc_ok_simps:
  "dloc_ok ms md (DScalar r i) \<longleftrightarrow> r < length ms \<and>
     (\<exists>xs. sv_scalar (ms ! r) = Some xs \<and> i < length xs)"
  "dloc_ok ms md (DHeap n) \<longleftrightarrow> n < length md"
  by (auto simp: dloc_ok_def bind_eq_Some_conv)

lemma svi_ok_iff:
  "svi_ok ms x \<longleftrightarrow> svi_sv x < length ms \<and>
     (\<exists>bs. sv_binary (ms ! svi_sv x) = Some bs \<and> unat (svi_vi x) < length bs) \<and>
     unat (svi_vi x) < length (sv_length (ms ! svi_sv x)) \<and>
     unat (svi_vi x) < length (sv_buffer_size (ms ! svi_sv x)) \<and>
     (\<exists>n. unat (svi_vi x) < length (sv_signal (ms ! svi_sv x)) \<and> sv_signal (ms ! svi_sv x) ! unat (svi_vi x) = Some n)"
  by (auto simp: svi_ok_def get_bin_def bind_eq_Some_conv)

lemma dloc_ok_shape:
  assumes "mem_shape ms' = mem_shape ms" "length md' = length md"
  shows "dloc_ok ms' md' p = dloc_ok ms md p"
proof (cases p)
  case (DScalar r i)
  show ?thesis
  proof (cases "r < length ms")
    case True
    from mem_shape_nth [OF assms(1) True]
    have "map_option length (sv_scalar (ms' ! r)) = map_option length (sv_scalar (ms ! r))"
      by (simp add: sv_shape_def)
    with True mem_shape_length [OF assms(1)] show ?thesis
      by (cases "sv_scalar (ms ! r)"; cases "sv_scalar (ms' ! r)") (auto simp: DScalar dloc_ok_simps)
  qed (use mem_shape_length [OF assms(1)] in \<open>auto simp: DScalar dloc_ok_simps\<close>)
qed (use assms(2) in \<open>simp add: dloc_ok_simps\<close>)

lemma svi_ok_shape:
  assumes "mem_shape ms' = mem_shape ms"
  shows "svi_ok ms' x = svi_ok ms x"
proof (cases "svi_sv x < length ms")
  case True
  from mem_shape_nth [OF assms True] mem_shape_length [OF assms] True show ?thesis
    by (cases "sv_binary (ms ! svi_sv x)"; cases "sv_binary (ms' ! svi_sv x)")
      (auto simp: svi_ok_iff sv_shape_def)
qed (use mem_shape_length [OF assms] in \<open>auto simp: svi_ok_iff\<close>)

lemma scalar_map_ok_shape:
  assumes "mem_shape ms' = mem_shape ms" "length md' = length md"
  shows "scalar_map_ok L ms' md' m = scalar_map_ok L ms md m"
  unfolding scalar_map_ok_def dloc_ok_shape [OF assms] by (rule refl)

lemma binary_map_ok_shape:
  assumes "mem_shape ms' = mem_shape ms"
  shows "binary_map_ok L ms' m = binary_map_ok L ms m"
  unfolding binary_map_ok_def svi_ok_shape [OF assms] by (rule refl)

lemma zero_fmu_wf: "hashmap_ok L \<Longrightarrow> fmu_wf L (zero_fmu (hm_init L) d)"
  by (simp add: fmu_wf_def zero_fmu_def mem_wf_def scalar_map_ok_def binary_map_ok_def func_map_ok_def hashmap_okD)

lemma fmu_wf_update:
  assumes "fmu_wf L f" "mem_shape (mem_sv g) = mem_shape (mem_sv f)" "mem_wf (mem_sv g)"
    "length (mem_dbl g) = length (mem_dbl f)"
    "scalar_input g = scalar_input f" "scalar_output g = scalar_output f"
    "binary_rx g = binary_rx f" "binary_tx g = binary_tx f"
    "encode_func g = encode_func f" "decode_func g = decode_func f"
    "vt_marshal_list g = vt_marshal_list f" "vt_table g = None \<longleftrightarrow> vt_table f = None"
  shows "fmu_wf L g"
  using assms(1,3,5-)
  unfolding fmu_wf_def scalar_map_ok_shape [OF assms(2,4)] binary_map_ok_shape [OF assms(2)]
    dloc_ok_shape [OF assms(2,4)]
  by simp

subsection \<open>The store laws\<close>

lemma store_sv_Some:
  "store_sv ms r i v = Some ms' \<longleftrightarrow> (\<exists>xs. r < length ms \<and> sv_scalar (ms ! r) = Some xs \<and> i < length xs \<and>
     ms' = ms[r := (ms ! r)\<lparr>sv_scalar := Some (xs[i := v])\<rparr>])"
  by (auto simp: store_sv_def bind_eq_Some_conv)

lemma list_update_self_map: "r < length xs \<Longrightarrow> g y = g (xs ! r) \<Longrightarrow> map g (xs[r := y]) = map g xs"
  by (simp add: map_update list_update_same_conv)

lemma store_sv_shape: "store_sv ms r i v = Some ms' \<Longrightarrow> mem_shape ms' = mem_shape ms"
  by (auto simp: store_sv_Some mem_shape_def sv_shape_def intro!: list_update_self_map)

lemma sv_wf_scalar_update:
  "sv_wf sv \<Longrightarrow> sv_scalar sv = Some xs \<Longrightarrow> length ys = length xs \<Longrightarrow> sv_wf (sv\<lparr>sv_scalar := Some ys\<rparr>)"
  by (auto simp: sv_wf_def split: option.splits)

lemma store_sv_wf: "store_sv ms r i v = Some ms' \<Longrightarrow> mem_wf ms \<Longrightarrow> mem_wf ms'"
  by (auto simp: store_sv_Some mem_wf_def dest!: set_update_subset_insert [THEN subsetD]
      intro: sv_wf_scalar_update)

lemma store_ok: "store f p v \<noteq> None \<longleftrightarrow> dloc_ok (mem_sv f) (mem_dbl f) p"
  by (cases p) (auto simp: dloc_ok_simps store_sv_Some bind_eq_None_conv bind_eq_Some_conv
      store_sv_def)

lemma load_ok: "load f p \<noteq> None \<longleftrightarrow> dloc_ok (mem_sv f) (mem_dbl f) p"
  by (simp add: dloc_ok_def load.simps)

lemma load_store:
  "store f p v = Some g \<Longrightarrow> load g q = (if q = p then Some v else load f q)"
  by (cases p; cases q)
    (auto simp: load.simps bind_eq_Some_conv store_sv_Some nth_list_update nth_opt_def)

lemma store_frame:
  assumes "store f p v = Some g"
  shows "g = f\<lparr>mem_sv := mem_sv g, mem_dbl := mem_dbl g\<rparr>"
    and "mem_shape (mem_sv g) = mem_shape (mem_sv f)"
    and "length (mem_dbl g) = length (mem_dbl f)"
    and "mem_wf (mem_sv f) \<Longrightarrow> mem_wf (mem_sv g)"
  using assms by (cases p; auto simp: bind_eq_Some_conv dest: store_sv_shape store_sv_wf)+

lemma store_wf:
  assumes "store f p v = Some g" "fmu_wf L f"
  shows "fmu_wf L g"
proof -
  note fr = store_frame [OF assms(1)]
  have wf: "mem_wf (mem_sv g)" using assms(2) fr(4) by (simp add: fmu_wf_def)
  obtain ms md where "g = f\<lparr>mem_sv := ms, mem_dbl := md\<rparr>" using fr(1) by blast
  then show ?thesis by (intro fmu_wf_update [OF assms(2) fr(2) wf fr(3)]) simp_all
qed

lemma get_bin_Some:
  "get_bin ms r i = Some b \<longleftrightarrow> (\<exists>bs. r < length ms \<and> sv_binary (ms ! r) = Some bs \<and> i < length bs \<and>
     i < length (sv_length (ms ! r)) \<and> i < length (sv_buffer_size (ms ! r)) \<and>
     b = \<lparr>b_buf = bs ! i, b_len = sv_length (ms ! r) ! i, b_cap = sv_buffer_size (ms ! r) ! i\<rparr>)"
  by (auto simp: get_bin_def bind_eq_Some_conv)

lemma put_bin_Some:
  "put_bin ms r i b = Some ms' \<longleftrightarrow> get_bin ms r i \<noteq> None \<and> ms' = ms[r := set_bin (ms ! r) i b]"
  by (auto simp: put_bin_def bind_eq_Some_conv)

lemma put_bin_ok: "put_bin ms r i b \<noteq> None \<longleftrightarrow> get_bin ms r i \<noteq> None"
  by (auto simp: put_bin_def bind_eq_None_conv)

lemma set_bin_shape: "sv_shape (set_bin sv i b) = sv_shape sv"
  by (simp add: sv_shape_def set_bin_def option.map_comp comp_def)

lemma put_bin_shape: "put_bin ms r i b = Some ms' \<Longrightarrow> mem_shape ms' = mem_shape ms"
  by (auto simp: put_bin_Some mem_shape_def get_bin_Some set_bin_shape intro!: list_update_self_map)

lemma get_bin_at:
  assumes "r < length ms" "sv_binary (ms ! r) = Some bs"
  shows "get_bin ms r i = (if i < length bs \<and> i < length (sv_length (ms ! r)) \<and> i < length (sv_buffer_size (ms ! r))
     then Some \<lparr>b_buf = bs ! i, b_len = sv_length (ms ! r) ! i, b_cap = sv_buffer_size (ms ! r) ! i\<rparr> else None)"
  using assms by (simp add: get_bin_def nth_opt_def)

lemma get_bin_cong: "length ms' = length ms \<Longrightarrow> (r < length ms \<Longrightarrow> ms' ! r = ms ! r) \<Longrightarrow> get_bin ms' r i = get_bin ms r i"
  by (cases "r < length ms") (simp_all add: get_bin_def nth_opt_def)

lemma get_put_bin:
  assumes "put_bin ms r i b = Some ms'"
  shows "get_bin ms' r' i' = (if r' = r \<and> i' = i then Some b else get_bin ms r' i')"
proof -
  from assms obtain c where "get_bin ms r i = Some c" and ms': "ms' = ms[r := set_bin (ms ! r) i b]"
    by (auto simp: put_bin_Some)
  then obtain bs where r: "r < length ms" "sv_binary (ms ! r) = Some bs" "i < length bs"
    "i < length (sv_length (ms ! r))" "i < length (sv_buffer_size (ms ! r))"
    by (auto simp: get_bin_Some)
  show ?thesis
  proof (cases "r' = r")
    case True
    have m: "ms' ! r = set_bin (ms ! r) i b" "r < length ms'" using r(1) ms' by simp_all
    then have b: "sv_binary (ms' ! r) = Some (bs[i := b_buf b])" using r(2) by (simp add: set_bin_def)
    show ?thesis
      unfolding True get_bin_at [OF m(2) b] get_bin_at [OF r(1,2)] m(1)
      using r(3-) by (cases b) (auto simp: set_bin_def nth_list_update)
  next
    case False
    then have "get_bin ms' r' i' = get_bin ms r' i'" by (intro get_bin_cong) (simp_all add: ms')
    with False show ?thesis by simp
  qed
qed

lemma set_bin_wf:
  assumes "sv_wf sv" "bin_wf b" "i < unat (sv_count sv)"
  shows "sv_wf (set_bin sv i b)"
proof (cases "sv_binary sv")
  case (Some bs)
  with assms show ?thesis by (cases b) (auto simp: sv_wf_def set_bin_def nth_list_update)
qed (use assms in \<open>auto simp: sv_wf_def set_bin_def split: option.splits\<close>)

lemma get_bin_wf: "get_bin ms r i = Some b \<Longrightarrow> mem_wf ms \<Longrightarrow> bin_wf b"
  by (force simp: get_bin_Some mem_wf_def sv_wf_def dest: nth_mem split: option.splits)

lemma put_bin_wf:
  assumes "put_bin ms r i b = Some ms'" "mem_wf ms" "bin_wf b"
  shows "mem_wf ms'"
proof -
  from assms(1) obtain c where c: "get_bin ms r i = Some c" and ms': "ms' = ms[r := set_bin (ms ! r) i b]"
    by (auto simp: put_bin_Some)
  from c obtain bs where r: "r < length ms" "sv_binary (ms ! r) = Some bs" "i < length bs"
    by (auto simp: get_bin_Some)
  with assms(2) have "sv_wf (ms ! r)" by (simp add: mem_wf_def)
  with r assms(3) have "sv_wf (set_bin (ms ! r) i b)"
    by (intro set_bin_wf) (auto simp: sv_wf_def)
  with assms(2) ms' show ?thesis
    by (auto simp: mem_wf_def dest!: set_update_subset_insert [THEN subsetD])
qed

lemma svi_ok_get: "svi_ok ms x \<Longrightarrow> \<exists>b. get_bin ms (svi_sv x) (unat (svi_vi x)) = Some b"
  by (auto simp: svi_ok_def)

end
