(* ===== verification/FmuStream.thy ===== *)
theory FmuStream
  imports FmuState
begin

section \<open>The stream of a binary signal (dse/fmu/ncodec.c)\<close>

text \<open>
  The \<open>NCodecStreamVTable\<close> that \<open>ncodec.c\<close> implements over one binary signal: read, write,
  seek, tell, eof and close. Each operation is the C function with its guards; the codec
  argument is \<open>None\<close> for a null pointer. The locale \<open>byte_stream\<close> is the contract a codec
  relies on (a byte file with a position, where a write truncates at the position), and its
  interpretation discharges it for these functions.
\<close>

datatype pos_op = PosNC | PosUpdate
datatype seek_op = SeekSet | SeekCur | SeekEnd | SeekReset | SeekOther

definition ENOSTR :: u64 where "ENOSTR = 60"
definition EINVAL :: u64 where "EINVAL = 22"

text \<open>What \<open>stream_read\<close> returns: its value and what it stored through \<open>data\<close> and \<open>len\<close>.\<close>

record read_result =
  rr_ret :: u64
  rr_data :: "bytes option"
  rr_len :: u64

definition nc_stream_of :: "'m ncodec option \<Rightarrow> bstream option" where
  "nc_stream_of nc = (case nc of None \<Rightarrow> None | Some n \<Rightarrow> nc_stream n)"

definition set_pos :: "'m ncodec option \<Rightarrow> u32 \<Rightarrow> 'm ncodec option" where
  "set_pos nc p = map_option (\<lambda>n. n\<lparr>nc_stream := map_option (\<lambda>s. s\<lparr>bs_pos := p\<rparr>) (nc_stream n)\<rparr>) nc"

definition stream_bin :: "signal_vector list \<Rightarrow> bstream \<Rightarrow> bin option" where
  "stream_bin ms s = get_bin ms (bs_sv s) (unat (bs_idx s))"

definition stream_read ::
  "signal_vector list \<Rightarrow> 'm ncodec option \<Rightarrow> bool \<Rightarrow> pos_op \<Rightarrow> (read_result \<times> 'm ncodec option) option" where
  "stream_read ms nc outs op = (case nc_stream_of nc of
      None \<Rightarrow> Some (\<lparr>rr_ret = - ENOSTR, rr_data = None, rr_len = 0\<rparr>, nc)
    | Some s \<Rightarrow>
        if \<not> outs then Some (\<lparr>rr_ret = - EINVAL, rr_data = None, rr_len = 0\<rparr>, nc)
        else do {
          b \<leftarrow> stream_bin ms s;
          case b_buf b of
            None \<Rightarrow> Some (\<lparr>rr_ret = 0, rr_data = None, rr_len = 0\<rparr>, nc)
          | Some buf \<Rightarrow>
              if b_len b \<le> bs_pos s then Some (\<lparr>rr_ret = 0, rr_data = None, rr_len = 0\<rparr>, nc)
              else let n = b_len b - bs_pos s in
                Some (\<lparr>rr_ret = ucast n, rr_data = Some (take (unat n) (drop (unat (bs_pos s)) buf)),
                       rr_len = ucast n\<rparr>,
                      if op = PosUpdate then set_pos nc (b_len b) else nc) })"

definition stream_write ::
  "'m clib \<Rightarrow> signal_vector list \<Rightarrow> 'm ncodec option \<Rightarrow> bytes \<Rightarrow> (u64 \<times> signal_vector list \<times> 'm ncodec option) option" where
  "stream_write L ms nc data = (case nc_stream_of nc of
      None \<Rightarrow> Some (- ENOSTR, ms, nc)
    | Some s \<Rightarrow> do {
        b \<leftarrow> stream_bin ms s;
        let p = (if b_len b < bs_pos s then b_len b else bs_pos s);
        let b' = buffer_append L (b\<lparr>b_len := p\<rparr>) data;
        ms' \<leftarrow> put_bin ms (bs_sv s) (unat (bs_idx s)) b';
        Some (word_of_nat (length data), ms', set_pos nc (p + word_of_nat (length data))) })"

definition stream_seek ::
  "signal_vector list \<Rightarrow> 'm ncodec option \<Rightarrow> u64 \<Rightarrow> seek_op \<Rightarrow> (u64 \<times> signal_vector list \<times> 'm ncodec option) option" where
  "stream_seek ms nc pos op = (case nc_stream_of nc of
      None \<Rightarrow> Some (- ENOSTR, ms, nc)
    | Some s \<Rightarrow> do {
        b \<leftarrow> stream_bin ms s;
        let s_len = (ucast (b_len b) :: u64);
        case op of
          SeekSet \<Rightarrow>
            let p = (if s_len < pos then b_len b else ucast pos) in Some (ucast p, ms, set_pos nc p)
        | SeekCur \<Rightarrow>
            let pos' = ucast (bs_pos s) + pos; p = (if s_len < pos' then b_len b else ucast pos')
            in Some (ucast p, ms, set_pos nc p)
        | SeekEnd \<Rightarrow> Some (s_len, ms, set_pos nc (b_len b))
        | SeekReset \<Rightarrow> do {
            ms' \<leftarrow> put_bin ms (bs_sv s) (unat (bs_idx s)) (bin_reset b);
            Some (0, ms', set_pos nc 0) }
        | SeekOther \<Rightarrow> Some (- EINVAL, ms, nc) })"

definition stream_tell :: "'m ncodec option \<Rightarrow> u64" where
  "stream_tell nc = (case nc_stream_of nc of None \<Rightarrow> - ENOSTR | Some s \<Rightarrow> ucast (bs_pos s))"

definition stream_eof :: "signal_vector list \<Rightarrow> 'm ncodec option \<Rightarrow> bool option" where
  "stream_eof ms nc = (case nc_stream_of nc of None \<Rightarrow> Some True
     | Some s \<Rightarrow> do { b \<leftarrow> stream_bin ms s; Some (\<not> bs_pos s < b_len b) })"

definition stream_close :: "'m ncodec option \<Rightarrow> 'm ncodec option" where
  "stream_close nc = map_option (\<lambda>n. n\<lparr>nc_stream := None\<rparr>) nc"

definition fmu_sv_stream_create :: "nat \<Rightarrow> u32 \<Rightarrow> bstream" where
  "fmu_sv_stream_create sv idx = \<lparr>bs_sv = sv, bs_idx = idx, bs_pos = 0\<rparr>"

subsection \<open>The contract of a byte stream\<close>

locale byte_stream =
  fixes inv :: "'s \<Rightarrow> bool"
    and content :: "'s \<Rightarrow> bytes"
    and pos :: "'s \<Rightarrow> nat"
    and rd :: "'s \<Rightarrow> pos_op \<Rightarrow> bytes \<times> 's"
    and wr :: "'s \<Rightarrow> bytes \<Rightarrow> 's"
    and sk :: "'s \<Rightarrow> u64 \<Rightarrow> seek_op \<Rightarrow> 's"
  assumes pos_le: "inv s \<Longrightarrow> pos s \<le> length (content s)"
    and rd_data: "inv s \<Longrightarrow> fst (rd s op) = drop (pos s) (content s)"
    and rd_state: "inv s \<Longrightarrow> inv (snd (rd s op)) \<and> content (snd (rd s op)) = content s \<and>
          pos (snd (rd s op)) = (if op = PosUpdate then length (content s) else pos s)"
    and wr_state: "inv s \<Longrightarrow> pos s + length xs < 2 ^ 32 \<Longrightarrow>
          inv (wr s xs) \<and> content (wr s xs) = take (pos s) (content s) @ xs \<and>
          pos (wr s xs) = pos s + length xs"
    and sk_set: "inv s \<Longrightarrow> inv (sk s n SeekSet) \<and> content (sk s n SeekSet) = content s \<and>
          pos (sk s n SeekSet) = min (unat n) (length (content s))"
    and sk_end: "inv s \<Longrightarrow> inv (sk s n SeekEnd) \<and> content (sk s n SeekEnd) = content s \<and>
          pos (sk s n SeekEnd) = length (content s)"
    and sk_reset: "inv s \<Longrightarrow> inv (sk s n SeekReset) \<and> content (sk s n SeekReset) = [] \<and>
          pos (sk s n SeekReset) = 0"
begin

lemma append_content:
  "inv s \<Longrightarrow> length (content s) + length xs < 2 ^ 32 \<Longrightarrow>
     content (wr (sk s n SeekEnd) xs) = content s @ xs"
  using sk_end [of s n] wr_state [of "sk s n SeekEnd" xs] by simp

lemma write_all:
  "inv s \<Longrightarrow> pos s = length (content s) \<Longrightarrow> length (content s) + length (concat xss) < 2 ^ 32 \<Longrightarrow>
     inv (foldl wr s xss) \<and> content (foldl wr s xss) = content s @ concat xss \<and>
     pos (foldl wr s xss) = length (content s) + length (concat xss)"
proof (induction xss arbitrary: s)
  case Nil
  then show ?case by simp
next
  case (Cons xs xss)
  then have w: "inv (wr s xs) \<and> content (wr s xs) = content s @ xs \<and> pos (wr s xs) = length (content s) + length xs"
    using wr_state [of s xs] by simp
  with Cons.prems Cons.IH [of "wr s xs"] show ?case by (simp add: add.assoc)
qed

lemma reset_write_read:
  assumes "inv s" "length (concat xss) < 2 ^ 32"
  shows "fst (rd (sk (foldl wr (sk s n SeekReset) xss) 0 SeekSet) op) = concat xss"
proof -
  let ?t = "foldl wr (sk s n SeekReset) xss"
  from sk_reset [OF assms(1)] assms(2) have t: "inv ?t \<and> content ?t = concat xss"
    using write_all [of "sk s n SeekReset" xss] by auto
  with sk_set [of ?t 0] rd_data [of "sk ?t 0 SeekSet" op] show ?thesis by simp
qed

lemma read_twice:
  "inv s \<Longrightarrow> fst (rd (snd (rd s PosUpdate)) op) = []"
  using rd_state [of s PosUpdate] rd_data [of "snd (rd s PosUpdate)" op] by simp

end

subsection \<open>The binary signal's stream meets the contract\<close>

text \<open>The state is the store and one open codec; the abstract file is the signal's content.\<close>

type_synonym 'm stream_st = "signal_vector list \<times> 'm ncodec"

definition st_inv :: "'m clib \<Rightarrow> 'm stream_st \<Rightarrow> bool" where
  "st_inv L st \<longleftrightarrow> buffer_ok L \<and> mem_wf (fst st) \<and> (\<exists>s b. nc_stream (snd st) = Some s \<and>
     stream_bin (fst st) s = Some b \<and> bs_pos s \<le> b_len b)"

definition st_content :: "'m stream_st \<Rightarrow> bytes" where
  "st_content st = (case nc_stream (snd st) of None \<Rightarrow> []
     | Some s \<Rightarrow> (case stream_bin (fst st) s of None \<Rightarrow> [] | Some b \<Rightarrow> bin_content b))"

definition st_pos :: "'m stream_st \<Rightarrow> nat" where
  "st_pos st = (case nc_stream (snd st) of None \<Rightarrow> 0 | Some s \<Rightarrow> unat (bs_pos s))"

definition st_rd :: "'m stream_st \<Rightarrow> pos_op \<Rightarrow> bytes \<times> 'm stream_st" where
  "st_rd st op = (case stream_read (fst st) (Some (snd st)) True op of
      Some (r, Some nc) \<Rightarrow> (case rr_data r of None \<Rightarrow> [] | Some d \<Rightarrow> d, fst st, nc) | _ \<Rightarrow> ([], st))"

definition st_wr :: "'m clib \<Rightarrow> 'm stream_st \<Rightarrow> bytes \<Rightarrow> 'm stream_st" where
  "st_wr L st xs = (case stream_write L (fst st) (Some (snd st)) xs of
      Some (_, ms, Some nc) \<Rightarrow> (ms, nc) | _ \<Rightarrow> st)"

definition st_sk :: "'m stream_st \<Rightarrow> u64 \<Rightarrow> seek_op \<Rightarrow> 'm stream_st" where
  "st_sk st n op = (case stream_seek (fst st) (Some (snd st)) n op of
      Some (_, ms, Some nc) \<Rightarrow> (ms, nc) | _ \<Rightarrow> st)"

lemma st_invE:
  assumes "st_inv L st"
  obtains ms nc s b where "st = (ms, nc)" "buffer_ok L" "mem_wf ms" "nc_stream nc = Some s"
    "stream_bin ms s = Some b" "bin_wf b" "bs_pos s \<le> b_len b"
  using assms by (cases st) (auto simp: st_inv_def stream_bin_def dest: get_bin_wf)

lemma stream_bin_put:
  "stream_bin ms s = Some b \<Longrightarrow> \<exists>ms'. put_bin ms (bs_sv s) (unat (bs_idx s)) c = Some ms' \<and>
     (\<forall>p. stream_bin ms' (s\<lparr>bs_pos := p\<rparr>) = Some c) \<and> (mem_wf ms \<longrightarrow> bin_wf c \<longrightarrow> mem_wf ms')"
  unfolding stream_bin_def
  using put_bin_ok [of ms "bs_sv s" "unat (bs_idx s)" c]
  by (auto simp: get_put_bin intro: put_bin_wf)

lemma stream_bin_pos [simp]: "stream_bin ms (s\<lparr>bs_pos := p\<rparr>) = stream_bin ms s"
  by (simp add: stream_bin_def)

lemma bin_content_drop:
  assumes "bin_wf b" "b_buf b = Some buf"
  shows "take (unat (b_len b) - p) (drop p buf) = drop p (bin_content b)"
  using assms by (simp add: bin_content_def drop_take)

lemma bin_content_truncate:
  assumes "bin_wf b" "p \<le> b_len b"
  shows "bin_wf (b\<lparr>b_len := p\<rparr>)" and "bin_content (b\<lparr>b_len := p\<rparr>) = take (unat p) (bin_content b)"
  using assms by (auto simp: bin_wf_def bin_content_def word_le_nat_alt unat_eq_0 min_def split: option.splits)

lemma set_pos_Some [simp]:
  "set_pos (Some nc) p = Some (nc\<lparr>nc_stream := map_option (\<lambda>s. s\<lparr>bs_pos := p\<rparr>) (nc_stream nc)\<rparr>)"
  by (simp add: set_pos_def)

lemma st_read_eq:
  assumes "nc_stream nc = Some s" "stream_bin ms s = Some b" "bin_wf b" "bs_pos s \<le> b_len b"
  shows "st_rd (ms, nc) op = (drop (unat (bs_pos s)) (bin_content b),
     (ms, if op = PosUpdate \<and> bs_pos s \<noteq> b_len b
          then nc\<lparr>nc_stream := Some (s\<lparr>bs_pos := b_len b\<rparr>)\<rparr> else nc))"
proof (cases "b_buf b")
  case None
  with assms(3,4) have "b_len b = 0" "bs_pos s = 0" by (auto simp: bin_wf_def)
  with None assms show ?thesis
    by (simp add: st_rd_def stream_read_def nc_stream_of_def bin_content_def)
next
  case (Some buf)
  show ?thesis
  proof (cases "b_len b \<le> bs_pos s")
    case True
    with assms(4) have "bs_pos s = b_len b" by simp
    with Some assms show ?thesis
      by (simp add: st_rd_def stream_read_def nc_stream_of_def bin_content_length)
  next
    case False
    moreover have "unat (b_len b - bs_pos s) = unat (b_len b) - unat (bs_pos s)"
      using assms(4) by (simp add: unat_sub word_le_nat_alt)
    ultimately show ?thesis
      using Some assms bin_content_drop [OF assms(3) Some, of "unat (bs_pos s)"]
      by (auto simp: st_rd_def stream_read_def nc_stream_of_def Let_def)
  qed
qed

lemma st_write_eq:
  assumes "nc_stream nc = Some s" "stream_bin ms s = Some b" "bs_pos s \<le> b_len b"
  shows "\<exists>ms'. st_wr L (ms, nc) xs =
       (ms', nc\<lparr>nc_stream := Some (s\<lparr>bs_pos := bs_pos s + word_of_nat (length xs)\<rparr>)\<rparr>) \<and>
     stream_bin ms' s = Some (buffer_append L (b\<lparr>b_len := bs_pos s\<rparr>) xs) \<and>
     (mem_wf ms \<longrightarrow> bin_wf (buffer_append L (b\<lparr>b_len := bs_pos s\<rparr>) xs) \<longrightarrow> mem_wf ms')"
proof -
  obtain ms' where "put_bin ms (bs_sv s) (unat (bs_idx s)) (buffer_append L (b\<lparr>b_len := bs_pos s\<rparr>) xs) = Some ms'"
    and "\<And>p. stream_bin ms' (s\<lparr>bs_pos := p\<rparr>) = Some (buffer_append L (b\<lparr>b_len := bs_pos s\<rparr>) xs)"
    and "mem_wf ms \<longrightarrow> bin_wf (buffer_append L (b\<lparr>b_len := bs_pos s\<rparr>) xs) \<longrightarrow> mem_wf ms'"
    using stream_bin_put [OF assms(2), of "buffer_append L (b\<lparr>b_len := bs_pos s\<rparr>) xs"] by blast
  with assms show ?thesis
    by (auto simp: st_wr_def stream_write_def nc_stream_of_def not_less)
qed

lemma st_inv_eqs:
  assumes "nc_stream nc = Some s" "stream_bin ms s = Some b"
  shows "st_inv L (ms, nc) \<longleftrightarrow> buffer_ok L \<and> mem_wf ms \<and> bs_pos s \<le> b_len b"
    and "st_content (ms, nc) = bin_content b" and "st_pos (ms, nc) = unat (bs_pos s)"
  using assms by (simp_all add: st_inv_def st_content_def st_pos_def)

lemma unat_plus_of_nat:
  "unat (p::u32) + n < 2 ^ 32 \<Longrightarrow> unat (p + word_of_nat n) = unat p + n"
proof -
  assume "unat p + n < 2 ^ 32"
  moreover have "p + word_of_nat n = word_of_nat (unat p + n)" by simp
  ultimately show ?thesis by (simp add: unat_of_nat take_bit_nat_eq_self del: of_nat_add)
qed

lemma st_wr_law:
  assumes "st_inv L st" "st_pos st + length xs < 2 ^ 32"
  shows "st_inv L (st_wr L st xs) \<and> st_content (st_wr L st xs) = take (st_pos st) (st_content st) @ xs \<and>
     st_pos (st_wr L st xs) = st_pos st + length xs"
proof -
  from assms(1) obtain ms nc s b where st: "st = (ms, nc)" "buffer_ok L" "mem_wf ms" "nc_stream nc = Some s"
    "stream_bin ms s = Some b" "bin_wf b" "bs_pos s \<le> b_len b"
    by (elim st_invE)
  let ?b = "b\<lparr>b_len := bs_pos s\<rparr>"
  let ?c = "buffer_append L ?b xs"
  have n: "unat (b_len ?b) + length xs < 2 ^ 32" using assms(2) st by (simp add: st_inv_eqs)
  note t = bin_content_truncate [OF st(6,7)]
  have c: "bin_wf ?c" "bin_content ?c = take (unat (bs_pos s)) (bin_content b) @ xs"
    using buffer_okD [OF st(2) t(1) n] t(2) by simp_all
  obtain ms' where w: "st_wr L (ms, nc) xs = (ms', nc\<lparr>nc_stream := Some (s\<lparr>bs_pos := bs_pos s + word_of_nat (length xs)\<rparr>)\<rparr>)"
    "stream_bin ms' s = Some ?c" "mem_wf ms'"
    using st_write_eq [OF st(4,5,7), of L xs] st(3) c(1) by blast
  have l: "unat (b_len ?c) = unat (bs_pos s) + length xs"
    using buffer_append_len [OF st(2) t(1) n] by simp
  have p: "unat (bs_pos s + word_of_nat (length xs)) = unat (bs_pos s) + length xs"
    using n by (intro unat_plus_of_nat) simp
  show ?thesis
    using st w c l p by (simp add: st_inv_eqs word_le_nat_alt)
qed

lemma st_sk_law:
  assumes "st_inv L st"
  shows "st_inv L (st_sk st n SeekSet) \<and> st_content (st_sk st n SeekSet) = st_content st \<and>
       st_pos (st_sk st n SeekSet) = min (unat n) (length (st_content st))"
    and "st_inv L (st_sk st n SeekEnd) \<and> st_content (st_sk st n SeekEnd) = st_content st \<and>
       st_pos (st_sk st n SeekEnd) = length (st_content st)"
    and "st_inv L (st_sk st n SeekReset) \<and> st_content (st_sk st n SeekReset) = [] \<and>
       st_pos (st_sk st n SeekReset) = 0"
proof -
  from assms obtain ms nc s b where st: "st = (ms, nc)" "buffer_ok L" "mem_wf ms" "nc_stream nc = Some s"
    "stream_bin ms s = Some b" "bin_wf b" "bs_pos s \<le> b_len b"
    by (elim st_invE)
  note k = st_sk_def stream_seek_def nc_stream_of_def Let_def
  have len: "length (bin_content b) = unat (b_len b)" by (rule bin_content_length [OF st(6)])
  have u: "unat (ucast (b_len b) :: u64) = unat (b_len b)"
    using unsigned_less [where ?'a = nat, of "b_len b"]
    by (simp add: unsigned_ucast_eq take_bit_nat_eq_self)
  show "st_inv L (st_sk st n SeekSet) \<and> st_content (st_sk st n SeekSet) = st_content st \<and>
       st_pos (st_sk st n SeekSet) = min (unat n) (length (st_content st))"
  proof (cases "(ucast (b_len b) :: u64) < n")
    case True
    with st len u show ?thesis by (simp add: k st_inv_eqs word_less_nat_alt)
  next
    case False
    then have le: "unat n \<le> unat (b_len b)" using u by (simp add: word_less_nat_alt)
    then have "unat (ucast n :: u32) = unat n"
      using unsigned_less [where ?'a = nat, of "b_len b"] by (simp add: unsigned_ucast_eq take_bit_nat_eq_self)
    with st len le False show ?thesis by (simp add: k st_inv_eqs word_le_nat_alt)
  qed
  show "st_inv L (st_sk st n SeekEnd) \<and> st_content (st_sk st n SeekEnd) = st_content st \<and>
       st_pos (st_sk st n SeekEnd) = length (st_content st)"
    using st len by (simp add: k st_inv_eqs)
  obtain ms' where "put_bin ms (bs_sv s) (unat (bs_idx s)) (bin_reset b) = Some ms'"
    "\<And>p. stream_bin ms' (s\<lparr>bs_pos := p\<rparr>) = Some (bin_reset b)" "mem_wf ms'"
    using stream_bin_put [OF st(5), of "bin_reset b"] st(3,6) by auto
  with st show "st_inv L (st_sk st n SeekReset) \<and> st_content (st_sk st n SeekReset) = [] \<and>
       st_pos (st_sk st n SeekReset) = 0"
    by (simp add: k st_inv_def st_content_def st_pos_def)
qed

interpretation fs: byte_stream "st_inv L" st_content st_pos st_rd "st_wr L" st_sk for L
proof
  fix s and op :: pos_op assume i: "st_inv L s"
  from i obtain ms nc t b where st: "s = (ms, nc)" "buffer_ok L" "mem_wf ms" "nc_stream nc = Some t"
    "stream_bin ms t = Some b" "bin_wf b" "bs_pos t \<le> b_len b"
    by (elim st_invE)
  have len: "length (bin_content b) = unat (b_len b)" by (rule bin_content_length [OF st(6)])
  note e = st_read_eq [OF st(4-7), of op] st_inv_eqs [OF st(4,5)]
  show "st_pos s \<le> length (st_content s)" using st len e by (simp add: word_le_nat_alt)
  show "fst (st_rd s op) = drop (st_pos s) (st_content s)" using st e by simp
  show "st_inv L (snd (st_rd s op)) \<and> st_content (snd (st_rd s op)) = st_content s \<and>
     st_pos (snd (st_rd s op)) = (if op = PosUpdate then length (st_content s) else st_pos s)"
    using st len e by (auto simp: st_inv_eqs)
qed (simp_all add: st_wr_law st_sk_law)

subsection \<open>What the stream promises\<close>

text \<open>Under the invariant the C functions run to their end and the wrappers show their result.\<close>

lemma stream_seek_run:
  assumes "st_inv L (ms, nc)" "op \<noteq> SeekOther"
  shows "\<exists>r. stream_seek ms (Some nc) n op = Some (r, fst (st_sk (ms, nc) n op), Some (snd (st_sk (ms, nc) n op)))"
proof -
  from assms(1) obtain s b where st: "nc_stream nc = Some s" "stream_bin ms s = Some b"
    by (elim st_invE) auto
  obtain ms' where "put_bin ms (bs_sv s) (unat (bs_idx s)) (bin_reset b) = Some ms'"
    using stream_bin_put [OF st(2)] by blast
  with st assms(2) show ?thesis
    by (cases op) (simp_all add: st_sk_def stream_seek_def nc_stream_of_def Let_def)
qed

lemma stream_write_run:
  assumes "st_inv L (ms, nc)"
  shows "stream_write L ms (Some nc) xs = Some (word_of_nat (length xs), fst (st_wr L (ms, nc) xs), Some (snd (st_wr L (ms, nc) xs)))"
proof -
  from assms obtain s b where st: "nc_stream nc = Some s" "stream_bin ms s = Some b" "bs_pos s \<le> b_len b"
    by (elim st_invE) auto
  obtain ms' where "put_bin ms (bs_sv s) (unat (bs_idx s)) (buffer_append L (b\<lparr>b_len := bs_pos s\<rparr>) xs) = Some ms'"
    using stream_bin_put [OF st(2)] by blast
  moreover have "\<not> b_len b < bs_pos s" using st(3) by simp
  ultimately show ?thesis
    using st by (simp add: st_wr_def stream_write_def nc_stream_of_def)
qed

lemma stream_read_run:
  assumes "st_inv L st" "drop (st_pos st) (st_content st) \<noteq> []"
  shows "\<exists>nc'. stream_read (fst st) (Some (snd st)) True op = Some (\<lparr>
     rr_ret = word_of_nat (length (st_content st) - st_pos st),
     rr_data = Some (drop (st_pos st) (st_content st)),
     rr_len = word_of_nat (length (st_content st) - st_pos st)\<rparr>, nc')"
proof -
  from assms(1) obtain ms nc s b where st: "st = (ms, nc)" "nc_stream nc = Some s"
    "stream_bin ms s = Some b" "bin_wf b" "bs_pos s \<le> b_len b"
    by (elim st_invE)
  have len: "length (bin_content b) = unat (b_len b)" by (rule bin_content_length [OF st(4)])
  from assms(2) st obtain buf where buf: "b_buf b = Some buf"
    by (cases "b_buf b") (auto simp: st_content_def bin_content_def)
  have lt: "\<not> b_len b \<le> bs_pos s"
    using assms(2) st len by (auto simp: st_content_def st_pos_def word_le_nat_alt)
  have n: "unat (b_len b - bs_pos s) = unat (b_len b) - unat (bs_pos s)"
    using st(5) by (simp add: unat_sub word_le_nat_alt)
  have u: "word_of_nat (unat (b_len b) - unat (bs_pos s)) = (ucast (b_len b - bs_pos s) :: u64)"
    using n by (metis of_nat_unat)
  show ?thesis
    using st buf lt len n u bin_content_drop [OF st(4) buf, of "unat (bs_pos s)"]
    by (auto simp: stream_read_def nc_stream_of_def Let_def st_content_def st_pos_def)
qed

definition stream_write_all ::
  "'m clib \<Rightarrow> signal_vector list \<Rightarrow> 'm ncodec option \<Rightarrow> bytes list \<Rightarrow> (signal_vector list \<times> 'm ncodec option) option" where
  "stream_write_all L ms nc xss = foldM (\<lambda>(ms, nc) xs.
     do { (n, ms', nc') \<leftarrow> stream_write L ms nc xs; Some (ms', nc') }) (ms, nc) xss"

lemma stream_write_all_run:
  assumes "st_inv L (ms, nc)" "st_pos (ms, nc) + length (concat xss) < 2 ^ 32"
  shows "stream_write_all L ms (Some nc) xss =
    Some (fst (foldl (st_wr L) (ms, nc) xss), Some (snd (foldl (st_wr L) (ms, nc) xss)))"
  using assms
proof (induction xss arbitrary: ms nc)
  case Nil
  then show ?case by (simp add: stream_write_all_def)
next
  case (Cons xs xss)
  obtain ms' nc' where w: "st_wr L (ms, nc) xs = (ms', nc')" by fastforce
  then have "st_inv L (ms', nc') \<and> st_pos (ms', nc') = st_pos (ms, nc) + length xs"
    using st_wr_law [OF Cons.prems(1), of xs] Cons.prems(2) by simp
  with Cons.IH [of ms' nc'] Cons.prems w show ?case
    by (simp add: stream_write_all_def stream_write_run)
qed

text \<open>
  C6: A message written to a binary signal's stream in any number of chunks, after a reset,
  is read back unchanged by a codec that seeks to the start: no write overwrites, drops or
  reorders bytes, as long as the message fits the 32 bit length.
\<close>

theorem stream_roundtrip:
  assumes "buffer_ok L" "mem_wf ms" "nc_stream nc = Some s" "stream_bin ms s = Some b"
    "bs_pos s \<le> b_len b" "length (concat chunks) < 2 ^ 32"
    "chunks \<noteq> []" "[] \<notin> set chunks"
  shows "\<exists>nc'. (do { (r1, ms1, nc1) \<leftarrow> stream_seek ms (Some nc) n SeekReset;
       (ms2, nc2) \<leftarrow> stream_write_all L ms1 nc1 chunks;
       (r3, ms3, nc3) \<leftarrow> stream_seek ms2 nc2 0 SeekSet;
       stream_read ms3 nc3 True op })
     = Some (\<lparr>rr_ret = word_of_nat (length (concat chunks)), rr_data = Some (concat chunks),
               rr_len = word_of_nat (length (concat chunks))\<rparr>, nc')"
proof -
  obtain ms1 nc1 where 1: "st_sk (ms, nc) n SeekReset = (ms1, nc1)" by fastforce
  obtain ms2 nc2 where 2: "foldl (st_wr L) (ms1, nc1) chunks = (ms2, nc2)" by fastforce
  obtain ms3 nc3 where 3: "st_sk (ms2, nc2) 0 SeekSet = (ms3, nc3)" by fastforce
  have i: "st_inv L (ms, nc)" using assms by (simp add: st_inv_def)
  have k: "st_inv L (ms1, nc1)" "st_content (ms1, nc1) = []" "st_pos (ms1, nc1) = 0"
    using st_sk_law(3) [OF i, of n] 1 by simp_all
  have s: "st_inv L (ms2, nc2)" "st_content (ms2, nc2) = concat chunks"
    using fs.write_all [of L "(ms1, nc1)" chunks] k assms(6) 2 by simp_all
  have t: "st_inv L (ms3, nc3)" "st_content (ms3, nc3) = concat chunks" "st_pos (ms3, nc3) = 0"
    using st_sk_law(1) [OF s(1), of 0] s(2) 3 by simp_all
  have "concat chunks \<noteq> []" using assms(7,8) by (cases chunks) auto
  with t obtain nc' where r: "stream_read ms3 (Some nc3) True op = Some (\<lparr>rr_ret = word_of_nat (length (concat chunks)),
      rr_data = Some (concat chunks), rr_len = word_of_nat (length (concat chunks))\<rparr>, nc')"
    using stream_read_run [OF t(1), of op] by auto
  obtain r1 where a: "stream_seek ms (Some nc) n SeekReset = Some (r1, ms1, Some nc1)"
    using stream_seek_run [OF i, of SeekReset n] 1 by auto
  obtain r3 where c: "stream_seek ms2 (Some nc2) 0 SeekSet = Some (r3, ms3, Some nc3)"
    using stream_seek_run [OF s(1), of SeekSet 0] 3 by auto
  have b: "stream_write_all L ms1 (Some nc1) chunks = Some (ms2, Some nc2)"
    using stream_write_all_run [OF k(1), of chunks] k(3) assms(6) 2 by simp
  show ?thesis by (simp add: a b c r)
qed

definition demo_bin_sv :: signal_vector where
  "demo_bin_sv = \<lparr>sv_count = 1, sv_signal = [Some ''can''], sv_scalar = None, sv_binary = Some [Some [9, 9, 9, 9]],
     sv_length = [2], sv_buffer_size = [4], sv_mime_type = [None], sv_ncodec = [Some 0]\<rparr>"

definition demo_nc :: "((string \<times> vptr) list) ncodec" where
  "demo_nc = \<lparr>nc_mime = [], nc_stream = Some (fmu_sv_stream_create 0 0), nc_private = None, nc_trace = None\<rparr>"

lemma demo_bin_wf: "mem_wf [demo_bin_sv]"
  by (simp add: mem_wf_def sv_wf_def demo_bin_sv_def bin_wf_def)

lemma demo_stream:
  "nc_stream demo_nc = Some (fmu_sv_stream_create 0 0)"
  "stream_bin [demo_bin_sv] (fmu_sv_stream_create 0 0) = Some \<lparr>b_buf = Some [9, 9, 9, 9], b_len = 2, b_cap = 4\<rparr>"
  "bs_pos (fmu_sv_stream_create 0 0) \<le> b_len \<lparr>b_buf = Some [9, 9, 9, 9], b_len = 2, b_cap = 4\<rparr>"
  by (simp_all add: demo_nc_def stream_bin_def fmu_sv_stream_create_def get_bin_def demo_bin_sv_def nth_opt_def)

theorem stream_roundtrip_witness:
  "\<exists>nc'. (do { (r1, ms1, nc1) \<leftarrow> stream_seek [demo_bin_sv] (Some demo_nc) 0 SeekReset;
       (ms2, nc2) \<leftarrow> stream_write_all ref_clib ms1 nc1 [[1], [2, 3]];
       (r3, ms3, nc3) \<leftarrow> stream_seek ms2 nc2 0 SeekSet;
       stream_read ms3 nc3 True PosUpdate })
     = Some (\<lparr>rr_ret = 3, rr_data = Some [1, 2, 3], rr_len = 3\<rparr>, nc')"
  using stream_roundtrip [OF ref_buffer_ok demo_bin_wf demo_stream, of "[[1], [2, 3]]" 0 PosUpdate]
  by simp

end
