(* ===== verification/CString.thy ===== *)
theory CString
  imports Prelude
begin

section \<open>The C string functions the code calls\<close>

text \<open>
  Executable models of the standard library calls on strings: \<open>%x\<close> conversions,
  \<open>strtol\<close> and \<open>strtoul\<close>, \<open>strtok_r\<close>, \<open>strstr\<close>, \<open>toupper\<close>, appending into a buffer of
  fixed size, and the use of a text as a format string (undefined when it holds a
  conversion). A C string is the list of its characters before the NUL.
\<close>

subsection \<open>Hexadecimal conversions\<close>

definition hex_digit :: "nat \<Rightarrow> char" where
  "hex_digit d = (if d < 10 then char_of (48 + d) else char_of (87 + d))"

fun show_hex :: "nat \<Rightarrow> string" where
  "show_hex n = (if n < 16 then [hex_digit n] else show_hex (n div 16) @ [hex_digit (n mod 16)])"

declare show_hex.simps [simp del]

definition pad0 :: "nat \<Rightarrow> string \<Rightarrow> string" where
  "pad0 w s = replicate (w - length s) CHR ''0'' @ s"

definition fmt_0x :: "nat \<Rightarrow> nat \<Rightarrow> string" where
  "fmt_0x w n = pad0 w (show_hex n)"

subsection \<open>Numbers\<close>

definition is_space :: "char \<Rightarrow> bool" where
  "is_space c \<longleftrightarrow> c = CHR '' '' \<or> (9 \<le> (of_char c :: nat) \<and> (of_char c :: nat) \<le> 13)"

definition digit_val :: "char \<Rightarrow> nat" where
  "digit_val c = (let n = of_char c in
     if 48 \<le> n \<and> n \<le> 57 then n - 48
     else if 97 \<le> n \<and> n \<le> 122 then n - 87
     else if 65 \<le> n \<and> n \<le> 90 then n - 55 else 255)"

definition digits_val :: "nat \<Rightarrow> string \<Rightarrow> int" where
  "digits_val base s = foldl (\<lambda>a c. a * int base + int (digit_val c)) 0 (takeWhile (\<lambda>c. digit_val c < base) s)"

text \<open>The prefix of a number: its base and what follows the prefix.\<close>

definition num_prefix :: "nat \<Rightarrow> string \<Rightarrow> nat \<times> string" where
  "num_prefix base s = (case s of
      z # x # d # r \<Rightarrow> if (base = 0 \<or> base = 16) \<and> z = CHR ''0'' \<and> (x = CHR ''x'' \<or> x = CHR ''X'') \<and> digit_val d < 16
                     then (16, d # r)
                     else if base = 0 then (if z = CHR ''0'' then 8 else 10, s) else (base, s)
    | z # r \<Rightarrow> if base = 0 then (if z = CHR ''0'' then 8 else 10, s) else (base, s)
    | [] \<Rightarrow> (if base = 0 then 10 else base, s))"

definition str_int :: "nat \<Rightarrow> string \<Rightarrow> int" where
  "str_int base s = (let t = dropWhile is_space s in
     case t of
       c # r \<Rightarrow> if c = CHR ''-'' then - case_prod digits_val (num_prefix base r)
               else if c = CHR ''+'' then case_prod digits_val (num_prefix base r)
               else case_prod digits_val (num_prefix base t)
     | [] \<Rightarrow> 0)"

text \<open>\<open>strtol\<close> saturates at the bounds of a 64 bit \<open>long\<close>; \<open>strtoul\<close> saturates above and negates modulo.\<close>

definition strtol :: "nat \<Rightarrow> string \<Rightarrow> int" where
  "strtol base s = max (- (2 ^ 63)) (min (2 ^ 63 - 1) (str_int base s))"

definition strtoul :: "nat \<Rightarrow> string \<Rightarrow> u64" where
  "strtoul base s = (let i = str_int base s in
     if \<bar>i\<bar> < 2 ^ 64 then word_of_int i else - 1)"

subsection \<open>Tokens, substrings and case\<close>

text \<open>\<open>strtok_r\<close> with one delimiter: the maximal delimiter-free pieces, empty ones skipped.\<close>

fun split_on :: "char \<Rightarrow> string \<Rightarrow> string list" where
  "split_on d [] = [[]]"
| "split_on d (c # s) = (if c = d then [] # split_on d s
     else (case split_on d s of t # ts \<Rightarrow> (c # t) # ts | [] \<Rightarrow> [[c]]))"

definition tokens :: "char \<Rightarrow> string \<Rightarrow> string list" where
  "tokens d s = filter (\<lambda>t. t \<noteq> []) (split_on d s)"

fun starts_with :: "string \<Rightarrow> string \<Rightarrow> bool" where
  "starts_with [] s = True"
| "starts_with (p # ps) [] = False"
| "starts_with (p # ps) (c # s) = (p = c \<and> starts_with ps s)"

fun strstr :: "string \<Rightarrow> string \<Rightarrow> bool" where
  "strstr [] p = (p = [])"
| "strstr (c # s) p = (starts_with p (c # s) \<or> strstr s p)"

definition toupper :: "char \<Rightarrow> char" where
  "toupper c = (let n = (of_char c :: nat) in if 97 \<le> n \<and> n \<le> 122 then char_of (n - 32) else c)"

subsection \<open>Buffers and format strings\<close>

text \<open>\<open>snprintf(b + strlen(b), sizeof(b) - strlen(b), ...)\<close>: append what fits.\<close>

definition buf_cat :: "nat \<Rightarrow> string \<Rightarrow> string \<Rightarrow> string" where
  "buf_cat sz b s = b @ take (sz - 1 - length b) s"

text \<open>A text passed as the format argument: any conversion in it reads a missing argument.\<close>

definition as_format :: "string \<Rightarrow> string option" where
  "as_format s = (if CHR ''%'' \<in> set s then None else Some s)"

lemma starts_with_iff: "starts_with p s \<longleftrightarrow> (\<exists>t. s = p @ t)"
  by (induction p s rule: starts_with.induct) auto

lemma strstr_iff: "strstr s p \<longleftrightarrow> (\<exists>a b. s = a @ p @ b)"
proof (induction s)
  case Nil
  show ?case by auto
next
  case (Cons c s)
  have "(\<exists>a b. c # s = a @ p @ b) \<longleftrightarrow> (\<exists>b. c # s = p @ b) \<or> (\<exists>a b. s = a @ p @ b)"
  proof
    assume "\<exists>a b. c # s = a @ p @ b"
    then obtain a b where e: "c # s = a @ p @ b" by blast
    show "(\<exists>b. c # s = p @ b) \<or> (\<exists>a b. s = a @ p @ b)"
    proof (cases a)
      case Nil
      with e show ?thesis by auto
    next
      case (Cons a' as)
      with e have "s = as @ p @ b" by simp
      then show ?thesis by blast
    qed
  next
    assume "(\<exists>b. c # s = p @ b) \<or> (\<exists>a b. s = a @ p @ b)"
    then show "\<exists>a b. c # s = a @ p @ b"
      by (metis append_Cons append_Nil)
  qed
  with Cons.IH show ?case by (simp add: starts_with_iff)
qed

lemma buf_cat_length: "length b \<le> sz - 1 \<Longrightarrow> length (buf_cat sz b s) \<le> sz - 1"
  by (simp add: buf_cat_def)

lemma tokens_nonempty: "t \<in> set (tokens d s) \<Longrightarrow> t \<noteq> []"
  by (simp add: tokens_def)

lemma split_on_free: "t \<in> set (split_on d s) \<Longrightarrow> d \<notin> set t"
proof (induction s arbitrary: t)
  case (Cons c s)
  then show ?case by (cases "split_on d s") (fastforce split: if_splits)+
qed simp

subsection \<open>Lines: \<open>fgets\<close>\<close>

fun take_line :: "nat \<Rightarrow> string \<Rightarrow> string \<times> string" where
  "take_line 0 s = ([], s)"
| "take_line (Suc n) [] = ([], [])"
| "take_line (Suc n) (c # s) = (if c = CHR 0x0A then ([c], s)
     else (case take_line n s of (l, r) \<Rightarrow> (c # l, r)))"

text \<open>The buffer is read as a string, up to its first NUL.\<close>

definition fgets :: "nat \<Rightarrow> string \<Rightarrow> (string \<times> string) option" where
  "fgets n s = (if s = [] then None
     else (case take_line (n - 1) s of (l, r) \<Rightarrow> Some (takeWhile (\<lambda>c. c \<noteq> CHR 0x00) l, r)))"

lemma take_line_length: "length (snd (take_line n s)) + length (fst (take_line n s)) = length s"
  by (induction n s rule: take_line.induct) (auto split: prod.split)

lemma take_line_nonempty: "0 < n \<Longrightarrow> s \<noteq> [] \<Longrightarrow> fst (take_line n s) \<noteq> []"
  by (cases "(n, s)" rule: take_line.cases) (auto split: prod.split)

end
