(* ===== verification/FmuLog.thy ===== *)
theory FmuLog
  imports FmuStream CString
begin

section \<open>Logging (dse/fmu/fmi2fmu.c, fmi3fmu.c, fmu.h)\<close>

text \<open>
  \<open>fmu_log\<close> of the FMI 2 adapter with its category filter, the one of the FMI 3 adapter
  without, \<open>fmi2SetDebugLogging\<close>, and the hex dump of a binary signal. A message is the
  text after formatting; \<open>log_out\<close> collects the calls of the logger callback. The dump's
  loop counts in 32 bits and wraps: it is a partial function, shown to return for every
  length of at most \<open>2 ^ 32 - 16\<close>.
\<close>

subsection \<open>Categories\<close>

definition fmi_log_category_map :: "(string \<times> u16) list" where
  "fmi_log_category_map = [(''Trace'', 1), (''Debug'', 2), (''Info'', 4), (''Error'', 8), (''Fatal'', 16), (''All'', 32)]"

definition cat_All :: u16 where "cat_All = 32"

definition category_flag :: "string \<Rightarrow> u16" where
  "category_flag c = (case map_of fmi_log_category_map c of None \<Rightarrow> 0 | Some w \<Rightarrow> w)"

type_synonym ('m, 'd) logf = "('m, 'd) fmu \<Rightarrow> int \<Rightarrow> string option \<Rightarrow> string \<Rightarrow> ('m, 'd) fmu"

text \<open>\<open>vsnprintf\<close> into \<open>char format[1024]\<close>, then the call of the logger.\<close>

definition emit_log :: "('m, 'd) fmu \<Rightarrow> int \<Rightarrow> string option \<Rightarrow> string \<Rightarrow> ('m, 'd) fmu" where
  "emit_log f st c msg = f\<lparr>log_out := log_out f @
     [\<lparr>le_status = st, le_category = c, le_message = snprintf 1024 msg\<rparr>]\<rparr>"

definition log_selected :: "u16 \<Rightarrow> string \<Rightarrow> bool" where
  "log_selected cats c \<longleftrightarrow> and cats cat_All \<noteq> 0 \<or> and cats (category_flag c) \<noteq> 0"

definition fmu_log2 :: "('m, 'd) logf" where
  "fmu_log2 f st c msg =
    (if \<not> inst_log_enabled f then f
     else case c of None \<Rightarrow> f
     | Some cat \<Rightarrow>
         if inst_log_categories f = 0 then f
         else if and (inst_log_categories f) cat_All = 0 \<and> and (inst_log_categories f) (category_flag cat) = 0 then f
         else emit_log f st c msg)"

definition fmu_log3 :: "('m, 'd) logf" where
  "fmu_log3 f st c msg = (if \<not> inst_log_enabled f then f
     else emit_log f st c msg)"

text \<open>The category loop of \<open>fmi2SetDebugLogging\<close> sets the flag of each known name.\<close>

definition fmi2SetDebugLogging :: "('m, 'd) fmu \<Rightarrow> bool \<Rightarrow> string list \<Rightarrow> ('m, 'd) fmu \<times> fmi_status" where
  "fmi2SetDebugLogging f on cats =
    (let f0 = f\<lparr>inst_log_categories := 0, inst_log_enabled := on\<rparr> in
     if \<not> on then (f0, FmiOK)
     else (foldl (\<lambda>g c. case map_of fmi_log_category_map c of None \<Rightarrow> g
             | Some w \<Rightarrow> g\<lparr>inst_log_categories := or (inst_log_categories g) w\<rparr>) f0 cats, FmiOK))"

text \<open>\<open>default_log\<close>: the line printed, indexed by a table of status names.\<close>

definition status_string2 :: "string list" where
  "status_string2 = [''OK'', ''Warning'', ''Discard'', ''Error'', ''Fatal'', ''Pending'']"

definition status_string3 :: "string list" where
  "status_string3 = [''OK'', ''Warning'', ''Discard'', ''Error'', ''Fatal'']"

definition default_log :: "string list \<Rightarrow> int \<Rightarrow> string \<Rightarrow> string \<Rightarrow> string option" where
  "default_log names st cat msg = (if st < 0 then None else do {
     n \<leftarrow> nth_opt names (nat st);
     Some (''['' @ cat @ '':'' @ n @ ''] '' @ msg @ [CHR 0x0A]) })"

definition default_log2 :: "int \<Rightarrow> string \<Rightarrow> string \<Rightarrow> string option" where
  "default_log2 = default_log status_string2"

definition default_log3 :: "int \<Rightarrow> string \<Rightarrow> string \<Rightarrow> string option" where
  "default_log3 = default_log status_string3"

subsection \<open>The dump of a binary signal\<close>

definition hex_row :: "bytes \<Rightarrow> string" where
  "hex_row xs = concat (map (\<lambda>i. fmt_0x 2 (unat (xs ! i)) @ (if i = 15 then [] else '' '')) [0..<16])"

definition dump_header :: "string \<Rightarrow> string \<Rightarrow> u32 \<Rightarrow> u32 \<Rightarrow> string" where
  "dump_header name op len cap =
     [CHR 0x0A] @ ''      - name       : '' @ name @ '' ('' @ op @ '')'' @
     [CHR 0x0A] @ ''        length     : '' @ fmt_i len @
     [CHR 0x0A] @ ''        buffer len : '' @ fmt_i cap"

partial_function (option) dump_rows ::
  "('m, 'd) logf \<Rightarrow> bytes option \<Rightarrow> u32 \<Rightarrow> u32 \<Rightarrow> ('m, 'd) fmu \<Rightarrow> ('m, 'd) fmu option" where
  "dump_rows lg buf len j f =
    (if j + 16 < len then
       (case buf of None \<Rightarrow> None
        | Some xs \<Rightarrow>
            if unat j + 16 \<le> length xs
            then dump_rows lg buf len (j + 16) (lg f 0 (Some ''Trace'') (hex_row (take 16 (drop (unat j) xs))))
            else None)
     else Some f)"

definition log_binary_signal :: "('m, 'd) logf \<Rightarrow> ('m, 'd) fmu \<Rightarrow> svi option \<Rightarrow> string \<Rightarrow> ('m, 'd) fmu option" where
  "log_binary_signal lg f idx op = (case idx of None \<Rightarrow> Some f
    | Some x \<Rightarrow> do {
        sv \<leftarrow> nth_opt (mem_sv f) (svi_sv x);
        if sv_binary sv = None then Some f
        else do {
          b \<leftarrow> get_bin (mem_sv f) (svi_sv x) (unat (svi_vi x));
          name \<leftarrow> nth_opt (sv_signal sv) (unat (svi_vi x));
          n \<leftarrow> name;
          dump_rows lg (b_buf b) (b_len b) 0
            (lg f 0 (Some ''Trace'') (dump_header n op (b_len b) (b_cap b))) } })"

definition fmi2_log_binary_signal :: "('m, 'd) fmu \<Rightarrow> svi option \<Rightarrow> string \<Rightarrow> ('m, 'd) fmu option" where
  "fmi2_log_binary_signal = log_binary_signal fmu_log2"

definition fmi3_log_binary_signal :: "('m, 'd) fmu \<Rightarrow> svi option \<Rightarrow> string \<Rightarrow> ('m, 'd) fmu option" where
  "fmi3_log_binary_signal = log_binary_signal fmu_log3"

subsection \<open>A logger only adds to the log\<close>

locale fmu_logger =
  fixes lg :: "('m, 'd) logf"
  assumes frame: "\<exists>es. lg f st c msg = f\<lparr>log_out := log_out f @ es\<rparr>"
begin

lemma fold_frame: "\<exists>es. foldl (\<lambda>g k. lg g st c (m k)) f ks = f\<lparr>log_out := log_out f @ es\<rparr>"
proof (induction ks arbitrary: f)
  case Nil
  show ?case by (rule exI [of _ "[]"]) simp
next
  case (Cons k ks)
  obtain es where a: "lg f st c (m k) = f\<lparr>log_out := log_out f @ es\<rparr>" using frame by blast
  obtain es' where b: "foldl (\<lambda>g k. lg g st c (m k)) (f\<lparr>log_out := log_out f @ es\<rparr>) ks =
      f\<lparr>log_out := log_out f @ es @ es'\<rparr>"
    using Cons.IH [of "f\<lparr>log_out := log_out f @ es\<rparr>"] by auto
  show ?case by (rule exI [of _ "es @ es'"]) (simp add: a b)
qed

end

lemma emit_log_frame: "emit_log f st c msg = f\<lparr>log_out := log_out f @
     [\<lparr>le_status = st, le_category = c, le_message = snprintf 1024 msg\<rparr>]\<rparr>"
  by (simp add: emit_log_def)

lemma no_log_frame: "\<exists>es. f = f\<lparr>log_out := log_out f @ es\<rparr>"
  by (rule exI [of _ "[]"]) simp

interpretation log2: fmu_logger fmu_log2
  by unfold_locales (auto simp: fmu_log2_def emit_log_frame no_log_frame split: option.splits)

interpretation log3: fmu_logger fmu_log3
  by unfold_locales (auto simp: fmu_log3_def emit_log_frame no_log_frame)

subsection \<open>The dump loop returns, and what it prints\<close>

definition dump_entries ::
  "('m, 'd) logf \<Rightarrow> bytes \<Rightarrow> ('m, 'd) fmu \<Rightarrow> nat list \<Rightarrow> ('m, 'd) fmu" where
  "dump_entries lg xs = foldl (\<lambda>g k. lg g 0 (Some ''Trace'') (hex_row (take 16 (drop (16 * k) xs))))"

lemma dump_rows_run:
  assumes "unat len + 16 \<le> 2 ^ 32" "unat len \<le> length xs" "16 * k < unat len \<or> k = 0"
  shows "dump_rows lg (Some xs) len (word_of_nat (16 * k)) f =
     Some (dump_entries lg xs f [k ..< (unat len - 1) div 16])"
  using assms(3)
proof (induction "unat len - 16 * k" arbitrary: k f rule: less_induct)
  case less
  have small: "16 * k + 16 < 2 ^ 32" using less.prems assms(1) by auto
  then have j: "unat (word_of_nat (16 * k) :: u32) = 16 * k"
    by (subst unat_of_nat) (simp add: take_bit_nat_eq_self)
  have u: "unat (word_of_nat (16 * k) + 16 :: u32) = 16 * k + 16"
    using unat_plus_of_nat [of "word_of_nat (16 * k)" 16] j small by simp
  show ?case
  proof (cases "16 * k + 16 < unat len")
    case True
    then have lt: "word_of_nat (16 * k) + 16 < len" using u by (simp add: word_less_nat_alt)
    have eq: "word_of_nat (16 * k) + 16 = (word_of_nat (16 * Suc k) :: u32)"
      by (simp add: add.commute)
    have "k < (unat len - 1) div 16" using True by linarith
    then have "[k ..< (unat len - 1) div 16] = k # [Suc k ..< (unat len - 1) div 16]"
      by (rule upt_conv_Cons)
    moreover have "unat len - 16 * Suc k < unat len - 16 * k" "16 * Suc k < unat len \<or> Suc k = 0"
      using True by simp_all
    note less.hyps [OF this, of "lg f 0 (Some ''Trace'') (hex_row (take 16 (drop (16 * k) xs)))"]
    ultimately show ?thesis
      using lt j True assms(2)
      by (subst dump_rows.simps) (simp only: eq, simp add: dump_entries_def)
  next
    case False
    then have "\<not> word_of_nat (16 * k) + 16 < len" using u by (simp add: word_less_nat_alt)
    moreover have "(unat len - 1) div 16 \<le> k" using False by linarith
    ultimately show ?thesis
      by (subst dump_rows.simps) (simp add: dump_entries_def)
  qed
qed

text \<open>A signal whose length the loop's 32 bit counter can pass.\<close>

definition short_bins :: "signal_vector list \<Rightarrow> bool" where
  "short_bins ms \<longleftrightarrow> (\<forall>sv \<in> set ms. \<forall>n \<in> set (sv_length sv). unat n + 16 \<le> 2 ^ 32)"

lemma short_bins_get: "short_bins ms \<Longrightarrow> get_bin ms r i = Some b \<Longrightarrow> unat (b_len b) + 16 \<le> 2 ^ 32"
  by (auto simp: short_bins_def get_bin_Some dest!: bspec nth_mem)

context fmu_logger begin

lemma dump_frame:
  assumes "bin_wf b" "unat (b_len b) + 16 \<le> 2 ^ 32"
  shows "\<exists>es. dump_rows lg (b_buf b) (b_len b) 0 f = Some (f\<lparr>log_out := log_out f @ es\<rparr>)"
proof (cases "b_buf b")
  case None
  with assms have "b_len b = 0" by (simp add: bin_wf_def)
  then show ?thesis by (subst dump_rows.simps) (simp add: no_log_frame)
next
  case (Some xs)
  with assms have "unat (b_len b) \<le> length xs" by (simp add: bin_wf_def word_le_nat_alt)
  from dump_rows_run [OF assms(2) this, of 0 lg f] Some fold_frame [of 0 "Some ''Trace''"] show ?thesis
    by (simp add: dump_entries_def)
qed

lemma log_binary_frame:
  assumes "mem_wf (mem_sv f)" "svi_ok (mem_sv f) x"
    "\<And>b. get_bin (mem_sv f) (svi_sv x) (unat (svi_vi x)) = Some b \<Longrightarrow> unat (b_len b) + 16 \<le> 2 ^ 32"
  shows "\<exists>es. log_binary_signal lg f (Some x) op = Some (f\<lparr>log_out := log_out f @ es\<rparr>)"
proof -
  from assms(2) obtain b where b: "get_bin (mem_sv f) (svi_sv x) (unat (svi_vi x)) = Some b"
    by (auto dest: svi_ok_get)
  from assms(2) obtain n where n: "sv_signal (mem_sv f ! svi_sv x) ! unat (svi_vi x) = Some n"
    "unat (svi_vi x) < length (sv_signal (mem_sv f ! svi_sv x))"
    by (auto simp: svi_ok_iff)
  from b obtain bs where r: "svi_sv x < length (mem_sv f)" "sv_binary (mem_sv f ! svi_sv x) = Some bs"
    by (auto simp: get_bin_Some)
  obtain es where e: "lg f 0 (Some ''Trace'') (dump_header n op (b_len b) (b_cap b)) = f\<lparr>log_out := log_out f @ es\<rparr>"
    using frame by blast
  obtain es' where e': "dump_rows lg (b_buf b) (b_len b) 0 (f\<lparr>log_out := log_out f @ es\<rparr>) =
      Some (f\<lparr>log_out := log_out f @ es @ es'\<rparr>)"
    using dump_frame [OF get_bin_wf [OF b assms(1)] assms(3) [OF b], of "f\<lparr>log_out := log_out f @ es\<rparr>"] by auto
  have "log_binary_signal lg f (Some x) op =
      dump_rows lg (b_buf b) (b_len b) 0 (lg f 0 (Some ''Trace'') (dump_header n op (b_len b) (b_cap b)))"
    using b n r by (simp add: log_binary_signal_def)
  also have "\<dots> = Some (f\<lparr>log_out := log_out f @ es @ es'\<rparr>)" unfolding e by (rule e')
  finally show ?thesis by blast
qed

end

subsection \<open>The category filter\<close>

lemma category_flag_values: "category_flag c \<in> {0, 1, 2, 4, 8, 16, 32}"
  by (simp add: category_flag_def fmi_log_category_map_def)

definition category_bit :: "string \<Rightarrow> nat option" where
  "category_bit c = map_of (zip (map fst fmi_log_category_map) [0..<6]) c"

lemma category_flag_bit:
  "category_flag c = (case category_bit c of None \<Rightarrow> 0 | Some i \<Rightarrow> 2 ^ i)"
  by (simp add: category_flag_def category_bit_def fmi_log_category_map_def upt_rec)

lemma category_bit_inj: "category_bit c = Some i \<Longrightarrow> category_bit d = Some i \<Longrightarrow> c = d"
  by (simp add: category_bit_def fmi_log_category_map_def upt_rec split: if_splits)

lemma category_bit_less: "category_bit c = Some i \<Longrightarrow> i < 16"
  by (simp add: category_bit_def fmi_log_category_map_def upt_rec split: if_splits)

lemma bit_category_flag: "i < 16 \<Longrightarrow> bit (category_flag c) i \<longleftrightarrow> category_bit c = Some i"
  by (auto simp: category_flag_bit bit_exp_iff dest: category_bit_less split: option.splits)

definition add_category :: "('m, 'd) fmu \<Rightarrow> string \<Rightarrow> ('m, 'd) fmu" where
  "add_category g c = (case map_of fmi_log_category_map c of None \<Rightarrow> g
     | Some w \<Rightarrow> g\<lparr>inst_log_categories := or (inst_log_categories g) w\<rparr>)"

lemma add_category_flag: "add_category g c = g\<lparr>inst_log_categories := or (inst_log_categories g) (category_flag c)\<rparr>"
  by (simp add: add_category_def category_flag_def split: option.splits)

lemma add_categories:
  "\<exists>w. foldl add_category g cs = g\<lparr>inst_log_categories := w\<rparr> \<and>
     (\<forall>i < 16. bit w i \<longleftrightarrow> bit (inst_log_categories g) i \<or> (\<exists>c \<in> set cs. category_bit c = Some i))"
proof (induction cs arbitrary: g)
  case Nil
  show ?case by (rule exI [of _ "inst_log_categories g"]) simp
next
  case (Cons c cs)
  from Cons.IH [of "add_category g c"] show ?case
    by (auto simp: add_category_flag bit_or_iff bit_category_flag)
qed

lemma flag_selected: "and w (category_flag c) = 0 \<longleftrightarrow> \<not> (\<exists>i. category_bit c = Some i \<and> bit w i)"
  by (auto simp: category_flag_bit and_exp_eq_0_iff_not_bit split: option.splits)

lemma cat_All_bit: "and w cat_All = 0 \<longleftrightarrow> \<not> bit w 5"
  using and_exp_eq_0_iff_not_bit [of w 5] by (simp add: cat_All_def)

lemma fmi2SetDebugLogging_on: "fmi2SetDebugLogging f True cats =
     (foldl add_category (f\<lparr>inst_log_categories := 0, inst_log_enabled := True\<rparr>) cats, FmiOK)"
  by (simp add: fmi2SetDebugLogging_def add_category_def [abs_def])

lemma set_debug_logging_fields:
  "\<exists>w. fst (fmi2SetDebugLogging f on cats) = f\<lparr>inst_log_categories := w, inst_log_enabled := on\<rparr> \<and>
     snd (fmi2SetDebugLogging f on cats) = FmiOK"
proof (cases on)
  case True
  from add_categories [of "f\<lparr>inst_log_categories := 0, inst_log_enabled := True\<rparr>" cats] obtain w where
    "foldl add_category (f\<lparr>inst_log_categories := 0, inst_log_enabled := True\<rparr>) cats =
       f\<lparr>inst_log_categories := 0, inst_log_enabled := True, inst_log_categories := w\<rparr>" by blast
  with True show ?thesis by (intro exI [of _ w]) (simp add: fmi2SetDebugLogging_on)
next
  case False
  then show ?thesis by (auto simp: fmi2SetDebugLogging_def Let_def)
qed

text \<open>
  C10: After \<open>fmi2SetDebugLogging\<close> with a list of categories the logger is called for exactly
  the messages whose category is a known one of that list, or for every message when the
  list holds "All"; with logging off it is never called. The log shows the message cut to
  the 1023 characters of the format buffer.
\<close>

theorem debug_logging_filter:
  "log_out (fmu_log2 (fst (fmi2SetDebugLogging f on cats)) st (Some c) msg) = log_out f @
     (if on \<and> (''All'' \<in> set cats \<or> c \<in> set cats \<and> c \<in> fst ` set fmi_log_category_map)
      then [\<lparr>le_status = st, le_category = Some c, le_message = take 1023 msg\<rparr>] else [])"
proof (cases on)
  case False
  then show ?thesis by (simp add: fmi2SetDebugLogging_def Let_def fmu_log2_def)
next
  case True
  let ?f = "f\<lparr>inst_log_categories := 0, inst_log_enabled := True\<rparr>"
  obtain w where w: "foldl add_category ?f cats = ?f\<lparr>inst_log_categories := w\<rparr>"
    and bits: "\<forall>i < 16. bit w i \<longleftrightarrow> (\<exists>c \<in> set cats. category_bit c = Some i)"
    using add_categories [of ?f cats] by auto
  have "category_bit d = Some 5 \<longleftrightarrow> d = ''All''" for d
    by (simp add: category_bit_def fmi_log_category_map_def upt_rec)
  then have all: "bit w 5 \<longleftrightarrow> ''All'' \<in> set cats"
    using bits [rule_format, of 5] by auto
  have known: "c \<in> fst ` set fmi_log_category_map \<longleftrightarrow> (\<exists>i. category_bit c = Some i)"
    by (auto simp: category_bit_def fmi_log_category_map_def upt_rec)
  have sel: "(\<exists>i. category_bit c = Some i \<and> bit w i) \<longleftrightarrow> c \<in> set cats \<and> c \<in> fst ` set fmi_log_category_map"
  proof (cases "category_bit c")
    case (Some i)
    then have "bit w i \<longleftrightarrow> (\<exists>d \<in> set cats. category_bit d = Some i)"
      using bits category_bit_less by blast
    also have "\<dots> \<longleftrightarrow> c \<in> set cats" using Some category_bit_inj by metis
    finally show ?thesis by (simp add: known Some)
  qed (simp add: known)
  let ?g = "?f\<lparr>inst_log_categories := w\<rparr>"
  have g: "fst (fmi2SetDebugLogging f on cats) = ?g"
    using True by (simp add: fmi2SetDebugLogging_on w)
  have "fmu_log2 ?g st (Some c) msg =
    (if bit w 5 \<or> (\<exists>i. category_bit c = Some i \<and> bit w i) then emit_log ?g st (Some c) msg else ?g)"
    by (auto simp: fmu_log2_def flag_selected cat_All_bit)
  then show ?thesis
    unfolding g all sel using True by (simp add: emit_log_def snprintf_def)
qed

end
