(* ===== verification/FmuNCodec.thy ===== *)
theory FmuNCodec
  imports FmuLog
begin

section \<open>Codec objects and their trace (dse/fmu/ncodec.c)\<close>

text \<open>
  Opening and closing of the codec of a binary signal, and the trace installed on it: the
  filter read from an environment variable and the log lines for CAN frames and PDUs. The
  codec library (\<open>ncodec_create\<close>, \<open>ncodec_stat\<close>), the environment and the linked
  \<open>fmu_log\<close> are parameters. A null pointer printed with \<open>%s\<close>, and a text with a
  conversion used as a format, are undefined behaviour (\<open>None\<close>).
\<close>

subsection \<open>The codec library\<close>

text \<open>
  \<open>ncodec_create\<close> either fails or yields a codec for the MIME type; \<open>ncodec_stat\<close> reads the
  configuration item at an index and may change the index. \<open>ncodec_truncate\<close> and
  \<open>ncodec_close\<close> work on the codec and, through its stream, on the signal vectors.
\<close>

record 'm nclib =
  nl_create :: "string \<Rightarrow> bool"
  nl_stat :: "string \<Rightarrow> int \<Rightarrow> (string option \<times> string option) \<times> int"
  nl_truncate :: "signal_vector list \<Rightarrow> 'm ncodec \<Rightarrow> signal_vector list \<times> 'm ncodec"
  nl_close :: "'m ncodec \<Rightarrow> 'm ncodec"

text \<open>\<open>ncodec_truncate\<close> resets the codec's stream through the stream's own \<open>seek\<close>.\<close>

definition truncate_ok :: "'m nclib \<Rightarrow> bool" where
  "truncate_ok NL \<longleftrightarrow> (\<forall>ms nc r ms' nc'. stream_seek ms (Some nc) 0 SeekReset = Some (r, ms', Some nc') \<longrightarrow>
     nl_truncate NL ms nc = (ms', nc'))"

text \<open>An instance: the reset through \<open>stream_seek\<close>, a configuration with only a type.\<close>

definition ref_nclib :: "(string \<Rightarrow> string) \<Rightarrow> 'm nclib" where
  "ref_nclib cfg = \<lparr>nl_create = (\<lambda>mt. mt \<noteq> []),
     nl_stat = (\<lambda>mt i. if i = 0 then ((Some ''type'', Some (cfg mt)), 0) else ((None, None), - 2)),
     nl_truncate = (\<lambda>ms nc. case stream_seek ms (Some nc) 0 SeekReset of
        Some (_, ms', Some nc') \<Rightarrow> (ms', nc') | _ \<Rightarrow> (ms, nc)),
     nl_close = (\<lambda>nc. nc\<lparr>nc_stream := None\<rparr>)\<rparr>"

lemma ref_truncate_ok: "truncate_ok (ref_nclib cfg)"
  by (simp add: truncate_ok_def ref_nclib_def)

definition create_codec :: "'m nclib \<Rightarrow> string \<Rightarrow> 'm ncodec option" where
  "create_codec NL mt = (if nl_create NL mt
     then Some \<lparr>nc_mime = mt, nc_stream = None, nc_private = None, nc_trace = None\<rparr> else None)"

text \<open>The loop runs while the index is not negative; it may never end.\<close>

partial_function (option) get_codec_config ::
  "'m nclib \<Rightarrow> string \<Rightarrow> string \<Rightarrow> int \<Rightarrow> string option option" where
  "get_codec_config NL mt name i =
    (if i < 0 then Some None
     else case nl_stat NL mt i of ((n, v), i') \<Rightarrow>
       if n = Some name then Some v else get_codec_config NL mt name (i' + 1))"

text \<open>\<open>"%s"\<close> of a configuration value.\<close>

definition config_str :: "'m nclib \<Rightarrow> string \<Rightarrow> string \<Rightarrow> string option" where
  "config_str NL mt name = do { v \<leftarrow> get_codec_config NL mt name 0; v }"

subsection \<open>Log lines\<close>

text \<open>\<open>__log\<close>: the console output is not modelled; the FMU log gets the text as a format.\<close>

definition codec_log :: "('m, 'd) logf \<Rightarrow> ('m, 'd) fmu \<Rightarrow> 'm ncodec option \<Rightarrow> string \<Rightarrow> ('m, 'd) fmu option" where
  "codec_log lg f nc text = do {
     m \<leftarrow> as_format (snprintf 1024 text);
     case nc of None \<Rightarrow> Some f
     | Some n \<Rightarrow> Some (case nc_private n of None \<Rightarrow> f | Some td \<Rightarrow> lg f 0 (Some ''Debug'') m) }"

definition NCT_BUFFER_LEN :: nat where "NCT_BUFFER_LEN = 2000"
definition NCT_ENVVAR_LEN :: nat where "NCT_ENVVAR_LEN = 100"
definition NCT_ID_LEN :: nat where "NCT_ID_LEN = 100"
definition NCT_KEY_LEN :: nat where "NCT_KEY_LEN = 20"

text \<open>The payload bytes: one group of eight up to 16 bytes, lines of 32 bytes above.\<close>

definition nct_cat :: "string \<Rightarrow> string \<Rightarrow> string" where
  "nct_cat = buf_cat NCT_BUFFER_LEN"

definition payload_text :: "bytes \<Rightarrow> u64 \<Rightarrow> string option" where
  "payload_text buf len =
    (if len \<le> 16 then
       foldM (\<lambda>b i. do {
         x \<leftarrow> nth_opt buf i;
         let b1 = (if i \<noteq> 0 \<and> i mod 8 = 0 then nct_cat b '' '' else b);
         Some (nct_cat b1 ('' '' @ fmt_0x 2 (unat x))) }) [] [0..<unat len]
     else if 2 ^ 32 \<le> unat len then None
     else
       foldM (\<lambda>b i. if NCT_BUFFER_LEN < length b then Some b else do {
         x \<leftarrow> nth_opt buf i;
         let b1 = (if i mod 32 = 0 then nct_cat b (CHR 0x0A # '' '') else b);
         let b2 = (if i mod 8 = 0 then nct_cat b1 '' '' else b1);
         Some (nct_cat b2 ('' '' @ fmt_0x 2 (unat x))) }) [] [0..<unat len])"

record can_message =
  cm_frame_id :: u32
  cm_frame_type :: u32
  cm_buffer :: bytes
  cm_len :: u64
  cm_bus_id :: u32
  cm_node_id :: u32
  cm_interface_id :: u32

text \<open>The trace state of a codec object and the identifier set on the first call.\<close>

definition set_identifier :: "'m nctrace \<Rightarrow> string option \<Rightarrow> 'm nctrace option" where
  "set_identifier td idt = (if td_identifier td = [] then do { s \<leftarrow> idt; Some (td\<lparr>td_identifier := snprintf NCT_ID_LEN s\<rparr>) }
     else Some td)"

definition put_private :: "('m, 'd) fmu \<Rightarrow> nat \<Rightarrow> 'm nctrace \<Rightarrow> ('m, 'd) fmu option" where
  "put_private f n td = do {
     nc \<leftarrow> nth_opt (nc_heap f) n;
     Some (f\<lparr>nc_heap := (nc_heap f)[n := nc\<lparr>nc_private := Some td\<rparr>]\<rparr>) }"

definition trace_selects :: "'m clib \<Rightarrow> 'm nctrace \<Rightarrow> u32 \<Rightarrow> bool" where
  "trace_selects L td frame \<longleftrightarrow> td_wildcard td \<or>
     hm_get L (td_filter td) (snprintf NCT_KEY_LEN (fmt_u frame)) \<noteq> None"

definition trace_can_log ::
  "'m clib \<Rightarrow> 'm nclib \<Rightarrow> ('m, 'd) logf \<Rightarrow> ('m, 'd) fmu \<Rightarrow> nat \<Rightarrow> can_message \<Rightarrow> string \<Rightarrow> ('m, 'd) fmu option" where
  "trace_can_log L NL lg f n m direction = do {
     nc \<leftarrow> nth_opt (nc_heap f) n;
     td0 \<leftarrow> nc_private nc;
     td \<leftarrow> set_identifier td0 (do {
        bus \<leftarrow> config_str NL (nc_mime nc) ''bus_id'';
        node \<leftarrow> config_str NL (nc_mime nc) ''node_id'';
        ifc \<leftarrow> config_str NL (nc_mime nc) ''interface_id'';
        Some (bus @ '':'' @ node @ '':'' @ ifc) });
     f1 \<leftarrow> put_private f n td;
     if \<not> trace_selects L td (cm_frame_id m) then Some f1
     else do {
       let idt = (if direction = ''RX''
         then snprintf NCT_ID_LEN (fmt_i (cm_bus_id m) @ '':'' @ fmt_i (cm_node_id m) @ '':'' @ fmt_i (cm_interface_id m))
         else td_identifier td);
       b \<leftarrow> payload_text (cm_buffer m) (cm_len m);
       codec_log lg f1 (Some (nc\<lparr>nc_private := Some td\<rparr>))
         (''('' @ td_model_inst_name td @ '') ['' @ idt @ ''] '' @ direction @ '' '' @
          fmt_0x 2 (unat (cm_frame_id m)) @ '' '' @ fmt_i (cm_frame_type m) @ '' '' @ show_nat (unat (cm_len m)) @ '' :'' @ b) } }"

definition trace_can_read :: "'m clib \<Rightarrow> 'm nclib \<Rightarrow> ('m, 'd) logf \<Rightarrow> ('m, 'd) fmu \<Rightarrow> nat \<Rightarrow> can_message \<Rightarrow> ('m, 'd) fmu option" where
  "trace_can_read L NL lg f n m = trace_can_log L NL lg f n m ''RX''"

definition trace_can_write :: "'m clib \<Rightarrow> 'm nclib \<Rightarrow> ('m, 'd) logf \<Rightarrow> ('m, 'd) fmu \<Rightarrow> nat \<Rightarrow> can_message \<Rightarrow> ('m, 'd) fmu option" where
  "trace_can_write L NL lg f n m = trace_can_log L NL lg f n m ''TX''"

subsection \<open>PDUs\<close>

text \<open>The fields of \<open>NCodecPdu\<close> that the trace prints, each promoted to an unsigned int.\<close>

datatype ip_addr = IPv4 u32 u32 | IPv6 "u32 list" "u32 list" | IpAddrOther

datatype so_ad =
    DoIP u32 u32
  | SomeIP u32 u32 u32 u32 u32 u32 u32
  | SoAdOther

record ip_message =
  ip_src_mac :: u64
  ip_dst_mac :: u64
  ip_ethertype :: u32
  ip_tci_pcp :: u32
  ip_tci_dei :: u32
  ip_tci_vid :: u32
  ip_addr_of :: ip_addr
  ip_src_port :: u32
  ip_dst_port :: u32
  ip_protocol :: u32
  ip_so_ad :: so_ad

datatype transport = TransCan u32 u32 u32 u32 | TransIp ip_message | TransOther

record pdu =
  pdu_id :: u32
  pdu_swc_id :: u32
  pdu_ecu_id :: u32
  pdu_payload :: bytes
  pdu_payload_len :: u64
  pdu_transport :: transport

definition fmt_addr6 :: "u32 list \<Rightarrow> string option" where
  "fmt_addr6 a = (if length a < 8 then None else
     Some (foldl (\<lambda>s i. s @ (if i = 0 then [] else '':'') @ fmt_0x 4 (unat (a ! i))) [] [0..<8]))"

fun ip_addr_lines :: "ip_addr \<Rightarrow> string list option" where
  "ip_addr_lines (IPv4 src dst) = Some
     [''    IP:    src_addr='' @ fmt_0x 8 (unat src) @ ''  dst_addr='' @ fmt_0x 8 (unat dst)]"
| "ip_addr_lines (IPv6 src dst) = do {
     s \<leftarrow> fmt_addr6 src; d \<leftarrow> fmt_addr6 dst;
     Some [''    IP:     src_addr='' @ s, ''    IP:     dst_addr='' @ d] }"
| "ip_addr_lines IpAddrOther = Some []"

fun so_ad_lines :: "so_ad \<Rightarrow> string list" where
  "so_ad_lines (DoIP version payload) =
     [''    DOIP:   protocol_version='' @ fmt_i version @ ''  payload_type='' @ fmt_i payload]"
| "so_ad_lines (SomeIP pv iv req ret mt mid len) =
     [''    SOMEIP: protocol_version='' @ fmt_i pv @ ''  interface_version='' @ fmt_i iv,
      ''    SOMEIP: request_id='' @ fmt_i req @ ''  return_code='' @ fmt_i ret,
      ''    SOMEIP: message_type='' @ fmt_i mt @ ''  message_id='' @ fmt_i mid @ ''  length='' @ fmt_i len]"
| "so_ad_lines SoAdOther = []"

fun transport_lines :: "transport \<Rightarrow> string list option" where
  "transport_lines (TransCan ff ft ifc net) = Some
     [''    CAN:    frame_format='' @ fmt_i ff @ ''  frame_type='' @ fmt_i ft @
      ''  interface_id='' @ fmt_i ifc @ ''  network_id='' @ fmt_i net]"
| "transport_lines (TransIp ip) = do {
     addr \<leftarrow> ip_addr_lines (ip_addr_of ip);
     Some ([''    ETH:    src_mac='' @ fmt_0x 16 (unat (ip_src_mac ip)) @ ''  dst_mac='' @ fmt_0x 16 (unat (ip_dst_mac ip)),
            ''    ETH:    ethertype='' @ fmt_0x 4 (unat (ip_ethertype ip)) @ ''  tci_pcp='' @ fmt_0x 2 (unat (ip_tci_pcp ip)) @
            ''  tci_dei='' @ fmt_0x 2 (unat (ip_tci_dei ip)) @ ''  tci_vid='' @ fmt_0x 4 (unat (ip_tci_vid ip))]
       @ addr
       @ [''    IP:     src_port='' @ fmt_0x 4 (unat (ip_src_port ip)) @ ''  dst_port='' @ fmt_0x 4 (unat (ip_dst_port ip)) @
          ''  proto='' @ fmt_i (ip_protocol ip)]
       @ so_ad_lines (ip_so_ad ip)) }"
| "transport_lines TransOther = Some []"

definition trace_pdu_log ::
  "'m clib \<Rightarrow> 'm nclib \<Rightarrow> ('m, 'd) logf \<Rightarrow> ('m, 'd) fmu \<Rightarrow> nat \<Rightarrow> pdu \<Rightarrow> string \<Rightarrow> ('m, 'd) fmu option" where
  "trace_pdu_log L NL lg f n p direction = do {
     nc \<leftarrow> nth_opt (nc_heap f) n;
     td0 \<leftarrow> nc_private nc;
     td \<leftarrow> set_identifier td0 (do {
        swc \<leftarrow> config_str NL (nc_mime nc) ''swc_id'';
        ecu \<leftarrow> config_str NL (nc_mime nc) ''ecu_id'';
        Some (swc @ '':'' @ ecu) });
     f1 \<leftarrow> put_private f n td;
     if \<not> trace_selects L td (pdu_id p) then Some f1
     else do {
       let idt = (if direction = ''RX''
         then snprintf NCT_ID_LEN (fmt_i (pdu_swc_id p) @ '':'' @ fmt_i (pdu_ecu_id p)) else td_identifier td);
       let nc1 = Some (nc\<lparr>nc_private := Some td\<rparr>);
       b \<leftarrow> payload_text (pdu_payload p) (pdu_payload_len p);
       f2 \<leftarrow> codec_log lg f1 nc1
         (''('' @ td_model_inst_name td @ '') ['' @ idt @ ''] '' @ direction @ '' '' @
          fmt_0x 2 (unat (pdu_id p)) @ '' '' @ show_nat (unat (pdu_payload_len p)) @ '' :'' @ b);
       ls \<leftarrow> transport_lines (pdu_transport p);
       foldM (\<lambda>g l. codec_log lg g nc1 l) f2 ls } }"

definition trace_pdu_read :: "'m clib \<Rightarrow> 'm nclib \<Rightarrow> ('m, 'd) logf \<Rightarrow> ('m, 'd) fmu \<Rightarrow> nat \<Rightarrow> pdu \<Rightarrow> ('m, 'd) fmu option" where
  "trace_pdu_read L NL lg f n p = trace_pdu_log L NL lg f n p ''RX''"

definition trace_pdu_write :: "'m clib \<Rightarrow> 'm nclib \<Rightarrow> ('m, 'd) logf \<Rightarrow> ('m, 'd) fmu \<Rightarrow> nat \<Rightarrow> pdu \<Rightarrow> ('m, 'd) fmu option" where
  "trace_pdu_write L NL lg f n p = trace_pdu_log L NL lg f n p ''TX''"

subsection \<open>Configuration, open and close\<close>

definition trace_env_name :: "'m nclib \<Rightarrow> string \<Rightarrow> trace_kind \<Rightarrow> string option" where
  "trace_env_name NL mt k = (case k of
      TraceCan \<Rightarrow> do {
        bus \<leftarrow> config_str NL mt ''bus''; bid \<leftarrow> config_str NL mt ''bus_id'';
        Some (map toupper (snprintf NCT_ENVVAR_LEN (''NCODEC_TRACE_'' @ bus @ ''_'' @ bid))) }
    | TracePdu \<Rightarrow> do {
        swc \<leftarrow> config_str NL mt ''swc_id'';
        Some (map toupper (snprintf NCT_ENVVAR_LEN (''NCODEC_TRACE_PDU_'' @ swc))) })"

text \<open>
  The filter list: each positive number of the comma separated list becomes a key. The log
  lines of this phase go to the console only, the trace data being installed at the end.
\<close>

definition trace_filter :: "'m clib \<Rightarrow> string \<Rightarrow> 'm" where
  "trace_filter L flt = foldl (\<lambda>m t. let i = strtol 0 t in
      if i > 0 then hm_set L m (snprintf NCT_KEY_LEN (fmt_u (word_of_int i))) (PLong 1) else m)
    (hm_init L) (tokens CHR '','' flt)"

definition trace_kind_of :: "string \<Rightarrow> trace_kind option" where
  "trace_kind_of t = (if t = ''frame'' then Some TraceCan else if t = ''pdu'' then Some TracePdu else None)"

definition install_trace :: "'m clib \<Rightarrow> string \<Rightarrow> trace_kind \<Rightarrow> string \<Rightarrow> 'm ncodec \<Rightarrow> 'm ncodec" where
  "install_trace L inst k flt nc = nc\<lparr>nc_trace := Some k, nc_private := Some
     \<lparr>td_model_inst_name = inst, td_identifier = [], td_wildcard = (flt = ''*''),
      td_filter = (if flt = ''*'' then hm_init L else trace_filter L flt)\<rparr>\<rparr>"

definition trace_configure ::
  "'m clib \<Rightarrow> 'm nclib \<Rightarrow> (string \<Rightarrow> string option) \<Rightarrow> string \<Rightarrow> 'm ncodec \<Rightarrow> 'm ncodec option" where
  "trace_configure L NL env inst nc = do {
     ty \<leftarrow> get_codec_config NL (nc_mime nc) ''type'' 0;
     case ty of None \<Rightarrow> Some nc
     | Some t \<Rightarrow>
         (case trace_kind_of t of
            None \<Rightarrow> Some nc
          | Some k \<Rightarrow> do {
              name \<leftarrow> trace_env_name NL (nc_mime nc) k;
              Some (case env name of None \<Rightarrow> nc | Some flt \<Rightarrow> install_trace L inst k flt nc) }) }"

lemma trace_configure_stream: "trace_configure L NL env inst nc = Some nc' \<Longrightarrow> nc_stream nc' = nc_stream nc"
proof (cases "get_codec_config NL (nc_mime nc) ''type'' 0")
  case (Some ty)
  assume c: "trace_configure L NL env inst nc = Some nc'"
  show ?thesis
  proof (cases "\<exists>t k name flt. ty = Some t \<and> trace_kind_of t = Some k \<and>
      trace_env_name NL (nc_mime nc) k = Some name \<and> env name = Some flt")
    case True
    with Some c show ?thesis by (auto simp: trace_configure_def install_trace_def)
  next
    case False
    with Some c have "nc' = nc"
      by (cases ty) (auto simp: trace_configure_def bind_eq_Some_conv split: option.split_asm)
    then show ?thesis by simp
  qed
qed (simp add: trace_configure_def)

definition trace_destroy :: "'m ncodec \<Rightarrow> 'm ncodec" where
  "trace_destroy nc = nc\<lparr>nc_private := None\<rparr>"

definition ncodec_open :: "'m nclib \<Rightarrow> string option \<Rightarrow> bstream option \<Rightarrow> 'm ncodec option" where
  "ncodec_open NL mt stream = (case mt of None \<Rightarrow> None
    | Some m \<Rightarrow> (case create_codec NL m of None \<Rightarrow> None
       | Some nc \<Rightarrow> (case stream of None \<Rightarrow> None | Some s \<Rightarrow> Some (nc\<lparr>nc_stream := Some s\<rparr>))))"

text \<open>The pointer returned: the new object's place on the codec heap, or null.\<close>

definition fmu_ncodec_open ::
  "'m clib \<Rightarrow> 'm nclib \<Rightarrow> (string \<Rightarrow> string option) \<Rightarrow> ('m, 'd) fmu \<Rightarrow> string option \<Rightarrow> svi option
     \<Rightarrow> (nat option \<times> ('m, 'd) fmu) option" where
  "fmu_ncodec_open L NL env f mt idx = do {
     x \<leftarrow> idx;
     case ncodec_open NL mt (Some (fmu_sv_stream_create (svi_sv x) (svi_vi x))) of
       None \<Rightarrow> Some (None, f)
     | Some nc \<Rightarrow> do {
         nc' \<leftarrow> trace_configure L NL env (inst_name f) nc;
         Some (Some (length (nc_heap f)), f\<lparr>nc_heap := nc_heap f @ [nc']\<rparr>) } }"

text \<open>
  \<open>fmu_ncodec_close\<close>: the trace data is released and the library closes the codec.
\<close>

definition fmu_ncodec_close :: "'m nclib \<Rightarrow> ('m, 'd) fmu \<Rightarrow> nat option \<Rightarrow> ('m, 'd) fmu option" where
  "fmu_ncodec_close NL f p = (case p of None \<Rightarrow> Some f
    | Some n \<Rightarrow> do {
        nc \<leftarrow> nth_opt (nc_heap f) n;
        Some (f\<lparr>nc_heap := (nc_heap f)[n := nl_close NL (trace_destroy nc)]\<rparr>) })"

subsection \<open>What the trace shows\<close>

lemma fmt_u_inj: "fmt_u a = fmt_u b \<longleftrightarrow> a = b"
  unfolding fmt_u_def show_nat_inj by (rule word_eq_iff_unsigned [symmetric])

lemma fmt_u_length: "length (fmt_u w) \<le> 10"
  using length_show_nat [of "unat w" 9] unsigned_less [where ?'a = nat, of w] by (simp add: fmt_u_def)

lemma frame_key_inj:
  "snprintf NCT_KEY_LEN (fmt_u a) = snprintf NCT_KEY_LEN (fmt_u b) \<longleftrightarrow> a = b"
  using fmt_u_length [of a] fmt_u_length [of b] by (simp add: snprintf_def NCT_KEY_LEN_def fmt_u_inj)

lemma trace_filter_get:
  assumes "hashmap_ok L"
  shows "hm_get L (foldl (\<lambda>m t. let i = strtol 0 t in
        if i > 0 then hm_set L m (snprintf NCT_KEY_LEN (fmt_u (word_of_int i))) (PLong 1) else m) m ts) k \<noteq> None
    \<longleftrightarrow> hm_get L m k \<noteq> None \<or> (\<exists>t \<in> set ts. 0 < strtol 0 t \<and> k = snprintf NCT_KEY_LEN (fmt_u (word_of_int (strtol 0 t))))"
  by (induction ts arbitrary: m) (auto simp: Let_def hashmap_okD(2) [OF assms] split: if_splits)

lemma trace_filter_sel:
  assumes "hashmap_ok L"
  shows "hm_get L (trace_filter L flt) (snprintf NCT_KEY_LEN (fmt_u frame)) \<noteq> None
    \<longleftrightarrow> (\<exists>t \<in> set (tokens CHR '','' flt). 0 < strtol 0 t \<and> word_of_int (strtol 0 t) = frame)"
  unfolding trace_filter_def trace_filter_get [OF assms] frame_key_inj hashmap_okD(1) [OF assms] by auto



end
