(* ===== verification/FmuVariable.thy ===== *)
theory FmuVariable
  imports FmuNCodec
begin

section \<open>Variable indexing from the model description (dse/fmu/fmi2variable.c, fmi3variable.c)\<close>

text \<open>
  The scan of \<open>modelDescription.xml\<close> that counts the scalar or binary variables and fills a
  signal vector and the index maps with them. libxml2 is a parameter: a parsed node with its
  properties, its text and its children, and the evaluation of an XPath expression at a node
  (\<open>None\<close> when libxml2 returns no object). The FMI 3 adapter has stubs for both functions.
\<close>

datatype xml_node = XmlNode
  (xn_element: bool)
  (xn_name: string)
  (xn_props: "(string \<times> string) list")
  (xn_text: "string option")
  (xn_children: "xml_node list")

type_synonym xpath = "xml_node \<Rightarrow> string \<Rightarrow> xml_node list option"

definition xml_prop :: "xml_node \<Rightarrow> string \<Rightarrow> string option" where
  "xml_prop n k = map_of (xn_props n) k"

definition FMI2_SCALAR_XPATH :: string where
  "FMI2_SCALAR_XPATH = ''/fmiModelDescription/ModelVariables/ScalarVariable''"

definition is_scalar_var :: "xml_node \<Rightarrow> bool" where
  "is_scalar_var c \<longleftrightarrow> xn_name c = ''Real'' \<or> xn_name c = ''Integer'' \<or> xn_name c = ''Boolean'' \<or> xn_name c = ''Float64''"

definition is_binary_var :: "xml_node \<Rightarrow> bool" where
  "is_binary_var c \<longleftrightarrow> xn_name c = ''String'' \<or> xn_name c = ''Binary''"

definition is_var :: "bool \<Rightarrow> xml_node \<Rightarrow> bool" where
  "is_var is_binary c = (if is_binary then is_binary_var c else is_scalar_var c)"

text \<open>
  The value of the first annotation with the name. A missing XPath object and an annotation
  without a name are dereferenced null pointers.
\<close>

fun find_anno :: "string \<Rightarrow> xml_node list \<Rightarrow> string option option" where
  "find_anno name [] = Some None"
| "find_anno name (a # as) = do {
     n \<leftarrow> xml_prop a ''name'';
     if n = name then Some (xn_text a) else find_anno name as }"

definition parse_tool_anno :: "xpath \<Rightarrow> xml_node \<Rightarrow> string \<Rightarrow> string \<Rightarrow> string option option" where
  "parse_tool_anno xp node tool name = do {
     ns \<leftarrow> xp node (''Annotations/Tool[@name='' @ [CHR 0x27] @ tool @ [CHR 0x27] @ '']/Annotation'');
     find_anno name ns }"

fun count_children :: "bool \<Rightarrow> xml_node list \<Rightarrow> nat" where
  "count_children b [] = 0"
| "count_children b (c # cs) =
     (if \<not> xn_element c then count_children b cs
      else (if is_var b c then 1 else 0) + count_children b cs)"

definition fmu_variable_count :: "xpath \<Rightarrow> xml_node \<Rightarrow> bool \<Rightarrow> nat" where
  "fmu_variable_count xp doc is_binary = (case xp doc FMI2_SCALAR_XPATH of
      None \<Rightarrow> 0
    | Some vars \<Rightarrow> sum_list (map (\<lambda>v. count_children is_binary (xn_children v)) vars))"

subsection \<open>Filling a signal vector\<close>

definition upd_sv :: "('m, 'd) fmu \<Rightarrow> nat \<Rightarrow> (signal_vector \<Rightarrow> signal_vector) \<Rightarrow> ('m, 'd) fmu option" where
  "upd_sv f r g = do { sv \<leftarrow> nth_opt (mem_sv f) r; Some (f\<lparr>mem_sv := (mem_sv f)[r := g sv]\<rparr>) }"

text \<open>\<open>hashmap_set\<close> with a null key dereferences it.\<close>

definition hm_put :: "'m clib \<Rightarrow> 'm \<Rightarrow> string option \<Rightarrow> vptr \<Rightarrow> 'm option" where
  "hm_put L m k v = map_option (\<lambda>s. hm_set L m s v) k"

definition index_scalar_variable ::
  "'m clib \<Rightarrow> ('m, 'd) fmu \<Rightarrow> nat \<Rightarrow> u32 \<Rightarrow> string option \<Rightarrow> string option \<Rightarrow> ('m, 'd) fmu option" where
  "index_scalar_variable L f r i vr causality =
    (if causality = Some ''output'' then do {
         m \<leftarrow> hm_put L (scalar_output f) vr (PDouble (DScalar r (unat i)));
         Some (f\<lparr>scalar_output := m\<rparr>) }
     else if causality = Some ''input'' then do {
         m \<leftarrow> hm_put L (scalar_input f) vr (PDouble (DScalar r (unat i)));
         Some (f\<lparr>scalar_input := m\<rparr>) }
     else Some f)"

definition index_binary_variable ::
  "'m clib \<Rightarrow> 'm nclib \<Rightarrow> (string \<Rightarrow> string option) \<Rightarrow> xpath \<Rightarrow> ('m, 'd) fmu \<Rightarrow> nat \<Rightarrow> u32 \<Rightarrow> xml_node
     \<Rightarrow> string option \<Rightarrow> string option \<Rightarrow> ('m, 'd) fmu option" where
  "index_binary_variable L NL env xp f r i node vr causality = do {
     let idx = \<lparr>svi_sv = r, svi_vi = i\<rparr>;
     f1 \<leftarrow> (if causality = Some ''output'' then do {
              m \<leftarrow> hm_put L (binary_tx f) vr (PIndex idx); Some (f\<lparr>binary_tx := m\<rparr>) }
          else if causality = Some ''input'' then do {
              m \<leftarrow> hm_put L (binary_rx f) vr (PIndex idx); Some (f\<lparr>binary_rx := m\<rparr>) }
          else Some f);
     enc \<leftarrow> parse_tool_anno xp node ''dse.standards.fmi-ls-binary-to-text'' ''encoding'';
     f2 \<leftarrow> (if enc = Some ''ascii85'' then do {
            e \<leftarrow> hm_put L (encode_func f1) vr PEncode;
            d \<leftarrow> hm_put L (decode_func f1) vr PDecode;
            Some (f1\<lparr>encode_func := e, decode_func := d\<rparr>) } else Some f1);
     mt \<leftarrow> parse_tool_anno xp node ''dse.standards.fmi-ls-binary-codec'' ''mimetype'';
     f3 \<leftarrow> upd_sv f2 r (\<lambda>sv. sv\<lparr>sv_mime_type := (sv_mime_type sv)[unat i := mt]\<rparr>);
     (p, f4) \<leftarrow> fmu_ncodec_open L NL env f3 mt (Some idx);
     upd_sv f4 r (\<lambda>sv. sv\<lparr>sv_ncodec := (sv_ncodec sv)[unat i := p]\<rparr>) }"

text \<open>
  The children of one variable. The first element that is not of a wanted type ends the
  scan of this variable; \<open>assert(sv_idx < sv->count)\<close> guards the arrays.
\<close>

fun index_children ::
  "'m clib \<Rightarrow> 'm nclib \<Rightarrow> (string \<Rightarrow> string option) \<Rightarrow> xpath \<Rightarrow> bool \<Rightarrow> nat \<Rightarrow> xml_node
     \<Rightarrow> ('m, 'd) fmu \<Rightarrow> u32 \<Rightarrow> xml_node list \<Rightarrow> (('m, 'd) fmu \<times> u32) option" where
  "index_children L NL env xp b r var f i [] = Some (f, i)"
| "index_children L NL env xp b r var f i (c # cs) =
    (if \<not> xn_element c then index_children L NL env xp b r var f i cs
     else if \<not> is_var b c then Some (f, i)
     else do {
       sv \<leftarrow> nth_opt (mem_sv f) r;
       if \<not> i < sv_count sv then None
       else do {
         name \<leftarrow> xml_prop var ''name'';
         let vr = xml_prop var ''valueReference'';
         f1 \<leftarrow> upd_sv f r (\<lambda>sv. sv\<lparr>sv_signal := (sv_signal sv)[unat i := Some name]\<rparr>);
         f2 \<leftarrow> (if b then index_binary_variable L NL env xp f1 r i var vr (xml_prop var ''causality'')
               else index_scalar_variable L f1 r i vr (xml_prop var ''causality''));
         index_children L NL env xp b r var f2 (i + 1) cs } })"

definition fmu_variable_index ::
  "'m clib \<Rightarrow> 'm nclib \<Rightarrow> (string \<Rightarrow> string option) \<Rightarrow> xpath \<Rightarrow> xml_node \<Rightarrow> ('m, 'd) fmu \<Rightarrow> nat \<Rightarrow> bool
     \<Rightarrow> ('m, 'd) fmu option" where
  "fmu_variable_index L NL env xp doc f r is_binary = (case xp doc FMI2_SCALAR_XPATH of
      None \<Rightarrow> Some f
    | Some vars \<Rightarrow> do {
        (g, i) \<leftarrow> foldM (\<lambda>(g, i) v. index_children L NL env xp is_binary r v g i (xn_children v)) (f, 0) vars;
        Some g })"

text \<open>The FMI 3 adapter: no variable is counted or indexed.\<close>

definition fmi3_variable_count :: "xpath \<Rightarrow> xml_node \<Rightarrow> bool \<Rightarrow> nat" where
  "fmi3_variable_count xp doc is_binary = 0"

definition fmi3_variable_index ::
  "'m clib \<Rightarrow> 'm nclib \<Rightarrow> (string \<Rightarrow> string option) \<Rightarrow> xpath \<Rightarrow> xml_node \<Rightarrow> ('m, 'd) fmu \<Rightarrow> nat \<Rightarrow> bool
     \<Rightarrow> ('m, 'd) fmu option" where
  "fmi3_variable_index L NL env xp doc f r is_binary = Some f"

subsection \<open>Indexing keeps the instance well formed\<close>

text \<open>An update of a vector that leaves its storage alone and names no signal less.\<close>

definition keeps_sv :: "(signal_vector \<Rightarrow> signal_vector) \<Rightarrow> bool" where
  "keeps_sv h \<longleftrightarrow> (\<forall>sv. sv_scalar (h sv) = sv_scalar sv \<and> sv_binary (h sv) = sv_binary sv \<and>
     sv_length (h sv) = sv_length sv \<and> sv_buffer_size (h sv) = sv_buffer_size sv \<and> sv_count (h sv) = sv_count sv \<and>
     length (sv_signal (h sv)) = length (sv_signal sv) \<and> length (sv_ncodec (h sv)) = length (sv_ncodec sv) \<and>
     length (sv_mime_type (h sv)) = length (sv_mime_type sv) \<and>
     (\<forall>i < length (sv_signal sv). sv_signal sv ! i \<noteq> None \<longrightarrow> sv_signal (h sv) ! i \<noteq> None))"

lemma keepsD:
  assumes "keeps_sv h"
  shows "sv_scalar (h sv) = sv_scalar sv" "sv_binary (h sv) = sv_binary sv" "sv_length (h sv) = sv_length sv"
    "sv_buffer_size (h sv) = sv_buffer_size sv" "sv_count (h sv) = sv_count sv"
    "length (sv_signal (h sv)) = length (sv_signal sv)" "length (sv_ncodec (h sv)) = length (sv_ncodec sv)"
    "length (sv_mime_type (h sv)) = length (sv_mime_type sv)"
    "i < length (sv_signal sv) \<Longrightarrow> sv_signal sv ! i = Some n \<Longrightarrow> \<exists>m. sv_signal (h sv) ! i = Some m"
  using assms by (auto simp: keeps_sv_def)

lemma keeps_sv_fields [simp]:
  "keeps_sv (\<lambda>sv. sv\<lparr>sv_signal := (sv_signal sv)[i := Some n]\<rparr>)"
  "keeps_sv (\<lambda>sv. sv\<lparr>sv_mime_type := (sv_mime_type sv)[i := mt]\<rparr>)"
  "keeps_sv (\<lambda>sv. sv\<lparr>sv_ncodec := (sv_ncodec sv)[i := p]\<rparr>)"
  unfolding keeps_sv_def by (auto simp: nth_update_if)

lemma keeps_ncodec_nil: "keeps_sv h \<Longrightarrow> sv_ncodec sv = [] \<Longrightarrow> sv_ncodec (h sv) = []"
  using keepsD(7) [of h sv] by simp

lemma keeps_sv_wf: "keeps_sv h \<Longrightarrow> sv_wf sv \<Longrightarrow> sv_wf (h sv)"
  by (auto simp: keepsD(1-8) [of h] sv_wf_def keeps_ncodec_nil split: option.splits)

lemma keeps_nth: "keeps_sv h \<Longrightarrow> r' < length ms \<Longrightarrow> ms[r := h (ms ! r)] ! r' = (if r' = r then h (ms ! r) else ms ! r')"
  by (simp add: nth_list_update)

lemma keeps_dloc:
  assumes "keeps_sv h" "dloc_ok ms md p"
  shows "dloc_ok (ms[r := h (ms ! r)]) md p"
  using assms(2) keepsD(1) [OF assms(1)] by (cases p) (auto simp: dloc_ok_simps nth_update_if)

lemma keeps_svi:
  assumes "keeps_sv h" "svi_ok ms x"
  shows "svi_ok (ms[r := h (ms ! r)]) x"
proof (cases "svi_sv x = r")
  case True
  with assms(2) obtain n where "unat (svi_vi x) < length (sv_signal (ms ! r))" "sv_signal (ms ! r) ! unat (svi_vi x) = Some n"
    by (auto simp: svi_ok_iff)
  with True assms(2) keepsD(9) [OF assms(1)] show ?thesis
    by (auto simp: svi_ok_iff keepsD(1-8) [OF assms(1)])
next
  case False
  with assms(2) show ?thesis unfolding svi_ok_iff by simp
qed

lemma upd_sv_keeps:
  assumes "keeps_sv h" "r < length (mem_sv f)" "fmu_wf L f"
  shows "\<exists>g. upd_sv f r h = Some g \<and> fmu_wf L g \<and> g = f\<lparr>mem_sv := (mem_sv f)[r := h (mem_sv f ! r)]\<rparr>"
proof -
  let ?ms = "(mem_sv f)[r := h (mem_sv f ! r)]"
  have "mem_wf ?ms"
    using assms keeps_sv_wf [OF assms(1)]
    by (auto simp: mem_wf_def fmu_wf_def dest!: set_update_subset_insert [THEN subsetD])
  moreover have "scalar_map_ok L (mem_sv f) md m \<Longrightarrow> scalar_map_ok L ?ms md m" for md m
    unfolding scalar_map_ok_def using keeps_dloc [OF assms(1)] by blast
  moreover have "binary_map_ok L (mem_sv f) m \<Longrightarrow> binary_map_ok L ?ms m" for m
    unfolding binary_map_ok_def using keeps_svi [OF assms(1)] by blast
  ultimately have "fmu_wf L (f\<lparr>mem_sv := ?ms\<rparr>)"
    using assms(3) keeps_dloc [OF assms(1)] by (simp add: fmu_wf_def)
  with assms(2) show ?thesis by (simp add: upd_sv_def)
qed

lemma scalar_map_set:
  "hashmap_ok L \<Longrightarrow> scalar_map_ok L ms md m \<Longrightarrow> dloc_ok ms md p \<Longrightarrow> scalar_map_ok L ms md (hm_set L m k (PDouble p))"
  by (simp add: scalar_map_ok_def hashmap_okD)

lemma binary_map_set:
  "hashmap_ok L \<Longrightarrow> binary_map_ok L ms m \<Longrightarrow> svi_ok ms x \<Longrightarrow> binary_map_ok L ms (hm_set L m k (PIndex x))"
  by (simp add: binary_map_ok_def hashmap_okD)

lemma func_map_set: "hashmap_ok L \<Longrightarrow> func_map_ok L v m \<Longrightarrow> func_map_ok L v (hm_set L m k v)"
  by (simp add: func_map_ok_def hashmap_okD)

text \<open>What indexing never touches: the storage of the vectors and their sizes.\<close>

definition storage :: "signal_vector \<Rightarrow> u32 \<times> f64 list option \<times> bytes option list option \<times> u32 list \<times> u32 list" where
  "storage sv = (sv_count sv, sv_scalar sv, sv_binary sv, sv_length sv, sv_buffer_size sv)"

definition same_storage :: "('m, 'd) fmu \<Rightarrow> ('m, 'd) fmu \<Rightarrow> bool" where
  "same_storage g f \<longleftrightarrow> map storage (mem_sv g) = map storage (mem_sv f)"

lemma same_storage_refl [simp]: "same_storage f f"
  by (simp add: same_storage_def)

lemma same_storage_trans: "same_storage h g \<Longrightarrow> same_storage g f \<Longrightarrow> same_storage h f"
  by (simp add: same_storage_def)

lemma same_storageD:
  assumes "same_storage g f"
  shows "length (mem_sv g) = length (mem_sv f)"
    and "r < length (mem_sv f) \<Longrightarrow> storage (mem_sv g ! r) = storage (mem_sv f ! r)"
proof -
  from assms have m: "map storage (mem_sv g) = map storage (mem_sv f)" by (simp add: same_storage_def)
  then show l: "length (mem_sv g) = length (mem_sv f)" by (rule map_eq_imp_length_eq)
  assume "r < length (mem_sv f)"
  with arg_cong [OF m, of "\<lambda>xs. xs ! r"] l show "storage (mem_sv g ! r) = storage (mem_sv f ! r)" by simp
qed

lemma same_storage_nth:
  assumes "same_storage g f" "r < length (mem_sv f)"
  shows "sv_count (mem_sv g ! r) = sv_count (mem_sv f ! r)" "sv_scalar (mem_sv g ! r) = sv_scalar (mem_sv f ! r)"
    "sv_binary (mem_sv g ! r) = sv_binary (mem_sv f ! r)"
  using same_storageD(2) [OF assms] by (simp_all add: storage_def)

lemma upd_sv_storage:
  "keeps_sv h \<Longrightarrow> r < length ms \<Longrightarrow> map storage (ms[r := h (ms ! r)]) = map storage ms"
  by (rule list_update_self_map) (simp_all add: storage_def keepsD(1-5) [of h])

text \<open>Every codec object's stream is the signal it is attached to.\<close>

definition codec_link :: "'m ncodec list \<Rightarrow> nat \<Rightarrow> nat \<Rightarrow> nat \<Rightarrow> bool" where
  "codec_link h n r i \<longleftrightarrow> n < length h \<and> (\<exists>s. nc_stream (h ! n) = Some s \<and> bs_sv s = r \<and> unat (bs_idx s) = i)"

definition codecs_ok :: "('m, 'd) fmu \<Rightarrow> bool" where
  "codecs_ok f \<longleftrightarrow> (\<forall>r < length (mem_sv f). \<forall>i < length (sv_ncodec (mem_sv f ! r)). \<forall>n.
     sv_ncodec (mem_sv f ! r) ! i = Some n \<longrightarrow> codec_link (nc_heap f) n r i)"

definition codec_cfg_ok :: "'m clib \<Rightarrow> 'm nclib \<Rightarrow> (string \<Rightarrow> string option) \<Rightarrow> bool" where
  "codec_cfg_ok L NL env \<longleftrightarrow> (\<forall>inst nc. trace_configure L NL env inst nc \<noteq> None)"

lemma create_codec_stream: "ncodec_open NL mt (Some s) = Some nc \<Longrightarrow> nc_stream nc = Some s"
  by (auto simp: ncodec_open_def split: option.splits)

lemma fmu_ncodec_open_run:
  assumes "codec_cfg_ok L NL env"
  shows "\<exists>p nc. fmu_ncodec_open L NL env f mt (Some x) = Some (p, f\<lparr>nc_heap := nc_heap f @ nc\<rparr>) \<and>
     (p = None \<or> p = Some (length (nc_heap f)) \<and> (\<exists>c. nc = [c] \<and> nc_stream c = Some (fmu_sv_stream_create (svi_sv x) (svi_vi x))))"
proof (cases "ncodec_open NL mt (Some (fmu_sv_stream_create (svi_sv x) (svi_vi x)))")
  case None
  then show ?thesis by (intro exI [of _ None] exI [of _ "[]"]) (simp add: fmu_ncodec_open_def)
next
  case (Some c)
  from assms obtain c' where c': "trace_configure L NL env (inst_name f) c = Some c'"
    by (auto simp: codec_cfg_ok_def)
  show ?thesis
    using trace_configure_stream [OF c'] create_codec_stream [OF Some]
    by (intro exI [of _ "Some (length (nc_heap f))"] exI [of _ "[c']"]) (simp add: fmu_ncodec_open_def Some c')
qed

lemma codec_link_append: "codec_link h n r i \<Longrightarrow> codec_link (h @ cs) n r i"
  by (simp add: codec_link_def nth_append)

lemma codecs_ok_heap: "codecs_ok f \<Longrightarrow> codecs_ok (f\<lparr>nc_heap := nc_heap f @ cs\<rparr>)"
  by (simp add: codecs_ok_def codec_link_append)

lemma codecs_ok_keep:
  assumes "codecs_ok f" "\<And>sv. sv_ncodec (h sv) = sv_ncodec sv"
  shows "codecs_ok (f\<lparr>mem_sv := (mem_sv f)[r := h (mem_sv f ! r)]\<rparr>)"
  using assms unfolding codecs_ok_def by (simp add: nth_update_if)

lemma codecs_ok_attach:
  assumes "codecs_ok f" "\<And>n. p = Some n \<Longrightarrow> codec_link (nc_heap f) n r i"
  shows "codecs_ok (f\<lparr>mem_sv := (mem_sv f)[r := (mem_sv f ! r)\<lparr>sv_ncodec := (sv_ncodec (mem_sv f ! r))[i := p]\<rparr>]\<rparr>)"
  using assms unfolding codecs_ok_def by (simp add: nth_update_if)

definition idx_inv :: "'m clib \<Rightarrow> ('m, 'd) fmu \<Rightarrow> ('m, 'd) fmu \<Rightarrow> bool" where
  "idx_inv L f0 g \<longleftrightarrow> fmu_wf L g \<and> codecs_ok g \<and> same_storage g f0"

lemma codecs_ok_cong: "codecs_ok f \<Longrightarrow> mem_sv g = mem_sv f \<Longrightarrow> nc_heap g = nc_heap f \<Longrightarrow> codecs_ok g"
  by (simp add: codecs_ok_def)

lemma index_scalar_run:
  assumes "hashmap_ok L" "idx_inv L f0 f" "r < length (mem_sv f)" "sv_scalar (mem_sv f ! r) = Some xs" "unat i < length xs"
  shows "\<exists>g. index_scalar_variable L f r i (Some k) c = Some g \<and> idx_inv L f0 g"
proof -
  have "dloc_ok (mem_sv f) (mem_dbl f) (DScalar r (unat i))" using assms(3-5) by (simp add: dloc_ok_simps)
  with assms(1,2) show ?thesis
    by (auto simp: index_scalar_variable_def hm_put_def idx_inv_def fmu_wf_def same_storage_def
        intro: scalar_map_set elim!: codecs_ok_cong)
qed

definition anno_ok :: "xpath \<Rightarrow> xml_node \<Rightarrow> bool" where
  "anno_ok xp v \<longleftrightarrow>
     parse_tool_anno xp v ''dse.standards.fmi-ls-binary-to-text'' ''encoding'' \<noteq> None \<and>
     parse_tool_anno xp v ''dse.standards.fmi-ls-binary-codec'' ''mimetype'' \<noteq> None"

text \<open>The two updates of the vector, and the codec opened between them.\<close>

lemma mime_set:
  assumes "idx_inv L f0 f" "r < length (mem_sv f)"
  shows "\<exists>g. upd_sv f r (\<lambda>sv. sv\<lparr>sv_mime_type := (sv_mime_type sv)[unat i := mt]\<rparr>) = Some g \<and> idx_inv L f0 g \<and>
    length (mem_sv g) = length (mem_sv f)"
proof -
  let ?mime = "\<lambda>sv. sv\<lparr>sv_mime_type := (sv_mime_type sv)[unat i := mt]\<rparr>"
  obtain g where g: "upd_sv f r ?mime = Some g" "fmu_wf L g" "g = f\<lparr>mem_sv := (mem_sv f)[r := ?mime (mem_sv f ! r)]\<rparr>"
    using upd_sv_keeps [of ?mime r f L] assms by (auto simp: idx_inv_def)
  have "codecs_ok g" unfolding g(3) using assms(1) by (intro codecs_ok_keep) (simp_all add: idx_inv_def)
  moreover have "same_storage g f0" "length (mem_sv g) = length (mem_sv f)"
    using assms g(3) upd_sv_storage [of ?mime r "mem_sv f"] by (simp_all add: idx_inv_def same_storage_def)
  ultimately show ?thesis using g(1,2) by (simp add: idx_inv_def)
qed

lemma codec_attached:
  assumes "codec_cfg_ok L NL env" "idx_inv L f0 f" "r < length (mem_sv f)"
  shows "\<exists>p f1 g. fmu_ncodec_open L NL env f mt (Some \<lparr>svi_sv = r, svi_vi = i\<rparr>) = Some (p, f1) \<and>
    upd_sv f1 r (\<lambda>sv. sv\<lparr>sv_ncodec := (sv_ncodec sv)[unat i := p]\<rparr>) = Some g \<and> idx_inv L f0 g"
proof -
  obtain p nc where o: "fmu_ncodec_open L NL env f mt (Some \<lparr>svi_sv = r, svi_vi = i\<rparr>) = Some (p, f\<lparr>nc_heap := nc_heap f @ nc\<rparr>)"
    "p = None \<or> p = Some (length (nc_heap f)) \<and> (\<exists>c. nc = [c] \<and> nc_stream c = Some (fmu_sv_stream_create r i))"
    using fmu_ncodec_open_run [OF assms(1), of f mt "\<lparr>svi_sv = r, svi_vi = i\<rparr>"] by auto
  let ?f1 = "f\<lparr>nc_heap := nc_heap f @ nc\<rparr>" and ?codec = "\<lambda>sv. sv\<lparr>sv_ncodec := (sv_ncodec sv)[unat i := p]\<rparr>"
  have "fmu_wf L ?f1" using assms(2) by (simp add: idx_inv_def fmu_wf_def)
  then obtain g where g: "upd_sv ?f1 r ?codec = Some g" "fmu_wf L g" "g = ?f1\<lparr>mem_sv := (mem_sv ?f1)[r := ?codec (mem_sv ?f1 ! r)]\<rparr>"
    using upd_sv_keeps [of ?codec r ?f1 L] assms(3) by auto
  have "codecs_ok f" using assms(2) by (simp add: idx_inv_def)
  then have "codecs_ok g"
    unfolding g(3) using o(2)
    by (intro codecs_ok_attach codecs_ok_heap) (auto simp: codec_link_def fmu_sv_stream_create_def)
  moreover have "same_storage g f0"
    using assms(2,3) g(3) upd_sv_storage [of ?codec r "mem_sv f"] by (simp add: idx_inv_def same_storage_def)
  ultimately show ?thesis using o(1) g(1,2) by (auto simp: idx_inv_def)
qed

lemma index_binary_run:
  assumes "hashmap_ok L" "codec_cfg_ok L NL env" "idx_inv L f0 f" "r < length (mem_sv f)"
    "svi_ok (mem_sv f) \<lparr>svi_sv = r, svi_vi = i\<rparr>" "anno_ok xp v"
  shows "\<exists>g. index_binary_variable L NL env xp f r i v (Some k) c = Some g \<and> idx_inv L f0 g"
proof -
  let ?x = "\<lparr>svi_sv = r, svi_vi = i\<rparr>"
  obtain enc mt where an: "parse_tool_anno xp v ''dse.standards.fmi-ls-binary-to-text'' ''encoding'' = Some enc"
    "parse_tool_anno xp v ''dse.standards.fmi-ls-binary-codec'' ''mimetype'' = Some mt"
    using assms(6) by (auto simp: anno_ok_def)
  define f1 where "f1 = (if c = Some ''output'' then f\<lparr>binary_tx := hm_set L (binary_tx f) k (PIndex ?x)\<rparr>
     else if c = Some ''input'' then f\<lparr>binary_rx := hm_set L (binary_rx f) k (PIndex ?x)\<rparr> else f)"
  define f2 where "f2 = (if enc = Some ''ascii85'' then
     f1\<lparr>encode_func := hm_set L (encode_func f1) k PEncode, decode_func := hm_set L (decode_func f1) k PDecode\<rparr> else f1)"
  have e1: "(if c = Some ''output'' then do {
              m \<leftarrow> hm_put L (binary_tx f) (Some k) (PIndex ?x); Some (f\<lparr>binary_tx := m\<rparr>) }
          else if c = Some ''input'' then do {
              m \<leftarrow> hm_put L (binary_rx f) (Some k) (PIndex ?x); Some (f\<lparr>binary_rx := m\<rparr>) }
          else Some f) = Some f1"
    by (simp add: f1_def hm_put_def)
  have e2: "(if enc = Some ''ascii85'' then do {
            e \<leftarrow> hm_put L (encode_func f1) (Some k) PEncode;
            d \<leftarrow> hm_put L (decode_func f1) (Some k) PDecode;
            Some (f1\<lparr>encode_func := e, decode_func := d\<rparr>) } else Some f1) = Some f2"
    by (simp add: f2_def hm_put_def)
  have i1: "idx_inv L f0 f1" and m1: "mem_sv f1 = mem_sv f"
    using assms(1,3,5) by (auto simp: f1_def idx_inv_def fmu_wf_def same_storage_def
        intro: binary_map_set elim!: codecs_ok_cong)
  have i2: "idx_inv L f0 f2" and m2: "mem_sv f2 = mem_sv f"
    using assms(1) i1 m1 by (auto simp: f2_def idx_inv_def fmu_wf_def same_storage_def
        intro: func_map_set elim!: codecs_ok_cong)
  from mime_set [OF i2, of r i mt] assms(4) m2 obtain f3 where
    f3: "upd_sv f2 r (\<lambda>sv. sv\<lparr>sv_mime_type := (sv_mime_type sv)[unat i := mt]\<rparr>) = Some f3" "idx_inv L f0 f3" "r < length (mem_sv f3)" by auto
  from codec_attached [OF assms(2) f3(2,3), of mt i] obtain p f4 g where
    g: "fmu_ncodec_open L NL env f3 mt (Some ?x) = Some (p, f4)"
      "upd_sv f4 r (\<lambda>sv. sv\<lparr>sv_ncodec := (sv_ncodec sv)[unat i := p]\<rparr>) = Some g" "idx_inv L f0 g" by blast
  then show ?thesis by (simp add: index_binary_variable_def Let_def e1 an e2 f3(1))
qed

text \<open>One variable: every access is in bounds while the vector has room for its children.\<close>

definition var_ok :: "xpath \<Rightarrow> bool \<Rightarrow> xml_node \<Rightarrow> bool" where
  "var_ok xp b v \<longleftrightarrow> xml_prop v ''name'' \<noteq> None \<and> xml_prop v ''valueReference'' \<noteq> None \<and> (b \<longrightarrow> anno_ok xp v)"

lemma index_one_run:
  assumes "hashmap_ok L" "codec_cfg_ok L NL env" "var_ok xp b v" "idx_inv L f0 f" "r < length (mem_sv f)"
    "if b then sv_binary (mem_sv f ! r) \<noteq> None else sv_scalar (mem_sv f ! r) \<noteq> None"
    "i < sv_count (mem_sv f ! r)"
  shows "\<exists>f1 f2. upd_sv f r (\<lambda>sv. sv\<lparr>sv_signal := (sv_signal sv)[unat i := Some nm]\<rparr>) = Some f1 \<and>
    (if b then index_binary_variable L NL env xp f1 r i v (Some vr) c else index_scalar_variable L f1 r i (Some vr) c) = Some f2 \<and>
    idx_inv L f0 f2"
proof -
  let ?sv = "mem_sv f ! r" and ?name = "\<lambda>sv. sv\<lparr>sv_signal := (sv_signal sv)[unat i := Some nm]\<rparr>"
  have wf: "fmu_wf L f" using assms(4) by (simp add: idx_inv_def)
  obtain f1 where f1: "upd_sv f r ?name = Some f1" "fmu_wf L f1" "f1 = f\<lparr>mem_sv := (mem_sv f)[r := ?name (mem_sv f ! r)]\<rparr>"
    using upd_sv_keeps [of ?name r f L] wf assms(5) by auto
  have s1: "same_storage f1 f"
    using f1(3) assms(5) upd_sv_storage [of ?name r "mem_sv f"] by (simp add: same_storage_def)
  have inv1: "idx_inv L f0 f1"
    using f1(2) assms(4) same_storage_trans [OF s1]
    by (auto simp: idx_inv_def f1(3) intro: codecs_ok_keep)
  have l1: "r < length (mem_sv f1)" using f1(3) assms(5) by simp
  have swf: "sv_wf ?sv" using wf assms(5) by (simp add: fmu_wf_def mem_wf_def)
  show ?thesis
  proof (cases b)
    case True
    then have "svi_ok (mem_sv f1) \<lparr>svi_sv = r, svi_vi = i\<rparr>"
      using swf assms(5-7) by (auto simp: svi_ok_iff f1(3) sv_wf_def word_less_nat_alt split: option.splits)
    moreover have "anno_ok xp v" using assms(3) True by (simp add: var_ok_def)
    ultimately show ?thesis
      using index_binary_run [OF assms(1,2) inv1 l1, of i xp v vr c] True f1(1) by auto
  next
    case False
    then obtain xs where "sv_scalar (mem_sv f1 ! r) = Some xs" "unat i < length xs"
      using swf assms(5-7) by (auto simp: f1(3) sv_wf_def word_less_nat_alt split: option.splits)
    with index_scalar_run [OF assms(1) inv1 l1, of xs i vr c] False f1(1) show ?thesis by auto
  qed
qed

lemma index_children_run:
  assumes "hashmap_ok L" "codec_cfg_ok L NL env" "var_ok xp b v"
    "idx_inv L f0 f" "r < length (mem_sv f)"
    "if b then sv_binary (mem_sv f ! r) \<noteq> None else sv_scalar (mem_sv f ! r) \<noteq> None"
    "unat i + count_children b cs \<le> unat (sv_count (mem_sv f ! r))"
  shows "\<exists>g i'. index_children L NL env xp b r v f i cs = Some (g, i') \<and> idx_inv L f0 g \<and> same_storage g f \<and>
     unat i' \<le> unat i + count_children b cs"
  using assms(4-7)
proof (induction cs arbitrary: f i)
  case Nil
  then show ?case by simp
next
  case (Cons c cs)
  show ?case
  proof (cases "xn_element c \<and> is_var b c")
    case False
    with Cons show ?thesis by auto
  next
    case True
    let ?sv = "mem_sv f ! r"
    have i1: "unat (i + 1) = unat i + 1"
      using Cons.prems(4) True unsigned_less [where ?'a = nat, of "sv_count ?sv"] unat_plus_of_nat [of i 1] by simp
    have lt: "i < sv_count ?sv" using Cons.prems(4) True by (simp add: word_less_nat_alt)
    obtain nm vr where nv: "xml_prop v ''name'' = Some nm" "xml_prop v ''valueReference'' = Some vr"
      using assms(3) by (auto simp: var_ok_def)
    from index_one_run [OF assms(1-3) Cons.prems(1-3) lt, of nm vr "xml_prop v ''causality''"] obtain f1 f2 where
      f1: "upd_sv f r (\<lambda>sv. sv\<lparr>sv_signal := (sv_signal sv)[unat i := Some nm]\<rparr>) = Some f1"
      and f2: "(if b then index_binary_variable L NL env xp f1 r i v (Some vr) (xml_prop v ''causality'')
         else index_scalar_variable L f1 r i (Some vr) (xml_prop v ''causality'')) = Some f2" "idx_inv L f0 f2" by blast
    have s2: "same_storage f2 f" using f2(2) Cons.prems(1) by (simp add: idx_inv_def same_storage_def)
    note n2 = same_storageD(1) [OF s2] same_storage_nth [OF s2 Cons.prems(2)]
    have "\<exists>g i'. index_children L NL env xp b r v f2 (i + 1) cs = Some (g, i') \<and> idx_inv L f0 g \<and>
        same_storage g f2 \<and> unat i' \<le> unat (i + 1) + count_children b cs"
      by (rule Cons.IH [OF f2(2)]) (use Cons.prems True i1 n2 in simp_all)
    then obtain g i' where g: "index_children L NL env xp b r v f2 (i + 1) cs = Some (g, i')" "idx_inv L f0 g"
        "same_storage g f2" "unat i' \<le> unat (i + 1) + count_children b cs"
      by blast
    have "index_children L NL env xp b r v f i (c # cs) = Some (g, i')"
      using True lt Cons.prems(2) by (simp add: nv f1 f2(1) g(1))
    with g i1 True same_storage_trans [OF g(3) s2] show ?thesis by auto
  qed
qed

lemma index_vars_run:
  assumes "hashmap_ok L" "codec_cfg_ok L NL env" "\<forall>v \<in> set vars. var_ok xp b v"
    "idx_inv L f0 f" "r < length (mem_sv f)"
    "if b then sv_binary (mem_sv f ! r) \<noteq> None else sv_scalar (mem_sv f ! r) \<noteq> None"
    "unat i + sum_list (map (\<lambda>v. count_children b (xn_children v)) vars) \<le> unat (sv_count (mem_sv f ! r))"
  shows "\<exists>g i'. foldM (\<lambda>(g, i) v. index_children L NL env xp b r v g i (xn_children v)) (f, i) vars = Some (g, i') \<and>
     idx_inv L f0 g \<and> same_storage g f"
  using assms(3-7)
proof (induction vars arbitrary: f i)
  case Nil
  then show ?case by simp
next
  case (Cons v vars)
  obtain g i' where g: "index_children L NL env xp b r v f i (xn_children v) = Some (g, i')" "idx_inv L f0 g"
    "same_storage g f" "unat i' \<le> unat i + count_children b (xn_children v)"
    using index_children_run [OF assms(1,2) _ Cons.prems(2-4), of xp v i "xn_children v"] Cons.prems(1,5) by auto
  note n = same_storageD(1) [OF g(3)] same_storage_nth [OF g(3) Cons.prems(3)]
  have "\<exists>h i''. foldM (\<lambda>(g, i) v. index_children L NL env xp b r v g i (xn_children v)) (g, i') vars = Some (h, i'') \<and>
     idx_inv L f0 h \<and> same_storage h g"
    by (rule Cons.IH [OF _ g(2)]) (use Cons.prems n g(4) in auto)
  then obtain h i'' where h: "foldM (\<lambda>(g, i) v. index_children L NL env xp b r v g i (xn_children v)) (g, i') vars = Some (h, i'')"
     "idx_inv L f0 h" "same_storage h g"
    by blast
  with same_storage_trans [OF h(3) g(3)] show ?case by (auto simp: g(1))
qed

lemma fmu_variable_index_run:
  assumes "hashmap_ok L" "codec_cfg_ok L NL env"
    "\<forall>vars. xp doc FMI2_SCALAR_XPATH = Some vars \<longrightarrow> (\<forall>v \<in> set vars. var_ok xp b v)"
    "idx_inv L f0 f" "r < length (mem_sv f)"
    "if b then sv_binary (mem_sv f ! r) \<noteq> None else sv_scalar (mem_sv f ! r) \<noteq> None"
    "fmu_variable_count xp doc b \<le> unat (sv_count (mem_sv f ! r))"
  shows "\<exists>g. fmu_variable_index L NL env xp doc f r b = Some g \<and> idx_inv L f0 g \<and> same_storage g f"
proof (cases "xp doc FMI2_SCALAR_XPATH")
  case None
  with assms(4) show ?thesis by (simp add: fmu_variable_index_def)
next
  case (Some vars)
  with index_vars_run [OF assms(1,2) _ assms(4-6), of vars xp 0] assms(3,7) show ?thesis
    by (auto simp: fmu_variable_index_def fmu_variable_count_def)
qed

end
