(* ===== verification/FmuSignal.thy ===== *)
theory FmuSignal
  imports FmuVariable
begin

section \<open>Signals of an FMU (dse/fmu/signal.c)\<close>

text \<open>
  The variable table interface of a user FMU (register, look up, table) and the default
  signal handlers: \<open>setup\<close> builds the signal vectors and indexes from the model description,
  \<open>reset\<close> empties every binary signal once per step, \<open>remove\<close> releases everything. The
  instance's \<open>data\<close> is, for these handlers, the list of its vectors. The handler table of an
  instance is the record \<open>signal_vtable\<close>, a null entry being \<open>None\<close>.
\<close>

record ('m, 'd) signal_vtable =
  vt_reset :: "(('m, 'd) fmu \<Rightarrow> ('m, 'd) fmu option) option"
  vt_setup :: "(('m, 'd) fmu \<Rightarrow> ('m, 'd) fmu option) option"
  vt_remove :: "(('m, 'd) fmu \<Rightarrow> ('m, 'd) fmu option) option"

definition call_handler :: "('s \<Rightarrow> 's option) option \<Rightarrow> 's \<Rightarrow> 's option" where
  "call_handler h s = (case h of None \<Rightarrow> Some s | Some g \<Rightarrow> g s)"

subsection \<open>The variable table\<close>

text \<open>The pointer a key of a scalar map holds; a map entry of another kind is a wrong cast.\<close>

definition get_double :: "'m clib \<Rightarrow> 'm \<Rightarrow> string \<Rightarrow> dloc option option" where
  "get_double L m k = (case hm_get L m k of None \<Rightarrow> Some None
     | Some (PDouble p) \<Rightarrow> Some (Some p) | Some _ \<Rightarrow> None)"

definition get_index :: "'m clib \<Rightarrow> 'm \<Rightarrow> string \<Rightarrow> svi option option" where
  "get_index L m k = (case hm_get L m k of None \<Rightarrow> Some None
     | Some (PIndex x) \<Rightarrow> Some (Some x) | Some _ \<Rightarrow> None)"

text \<open>\<open>fmu_register_var\<close>: the value returned is 0 on both paths.\<close>

definition fmu_register_var :: "'m clib \<Rightarrow> ('m, 'd) fmu \<Rightarrow> u32 \<Rightarrow> bool \<Rightarrow> u64 \<Rightarrow> (f64 \<times> ('m, 'd) fmu) option" where
  "fmu_register_var L f vref input offset = do {
     let key = snprintf (hashlist_key_len L) (fmt_i vref);
     signal \<leftarrow> get_double L (if input then scalar_input f else scalar_output f) key;
     case signal of None \<Rightarrow> Some (0, f)
     | Some p \<Rightarrow> Some (0, f\<lparr>vt_var_list := vt_var_list f @ [\<lparr>mi_variable = offset, mi_signal = p\<rparr>]\<rparr>) }"

definition fmu_lookup_ncodec :: "'m clib \<Rightarrow> ('m, 'd) fmu \<Rightarrow> u32 \<Rightarrow> bool \<Rightarrow> nat option option" where
  "fmu_lookup_ncodec L f vref input = do {
     let key = snprintf (hashlist_key_len L) (fmt_i vref);
     idx \<leftarrow> get_index L (if input then binary_rx f else binary_tx f) key;
     case idx of None \<Rightarrow> Some None
     | Some x \<Rightarrow> do { sv \<leftarrow> nth_opt (mem_sv f) (svi_sv x); nth_opt (sv_ncodec sv) (unat (svi_vi x)) } }"

text \<open>
  \<open>fmu_register_var_table\<close>: the marshal list is the registered list; the offsets become
  pointers into the table, here offsets into the table's memory.
\<close>

definition fmu_register_var_table :: "('m, 'd) fmu \<Rightarrow> (u64 \<Rightarrow> f64) \<Rightarrow> ('m, 'd) fmu" where
  "fmu_register_var_table f table = f\<lparr>vt_table := Some table, vt_marshal_list := vt_var_list f, vt_var_list := []\<rparr>"

definition fmu_var_table :: "('m, 'd) fmu \<Rightarrow> (u64 \<Rightarrow> f64) option" where
  "fmu_var_table f = vt_table f"

subsection \<open>The default handlers\<close>

definition allocate_sv :: "xpath \<Rightarrow> xml_node \<Rightarrow> bool \<Rightarrow> (xpath \<Rightarrow> xml_node \<Rightarrow> bool \<Rightarrow> nat) \<Rightarrow> signal_vector option" where
  "allocate_sv xp doc is_binary count_of = (let count = count_of xp doc is_binary in
     if count = 0 then None
     else Some \<lparr>sv_count = word_of_nat count, sv_signal = replicate count None,
       sv_scalar = (if is_binary then None else Some (replicate count 0)),
       sv_binary = (if is_binary then Some (replicate count None) else None),
       sv_length = (if is_binary then replicate count 0 else []),
       sv_buffer_size = (if is_binary then replicate count 0 else []),
       sv_mime_type = (if is_binary then replicate count None else []),
       sv_ncodec = (if is_binary then replicate count None else [])\<rparr>)"

definition reset_signal :: "'m nclib \<Rightarrow> nat \<Rightarrow> ('m, 'd) fmu \<Rightarrow> nat \<Rightarrow> ('m, 'd) fmu option" where
  "reset_signal NL r f i = do {
     sv \<leftarrow> nth_opt (mem_sv f) r;
     codec \<leftarrow> nth_opt (sv_ncodec sv) i;
     case codec of
       Some n \<Rightarrow> do {
         nc \<leftarrow> nth_opt (nc_heap f) n;
         let (ms, nc') = nl_truncate NL (mem_sv f) nc;
         Some (f\<lparr>mem_sv := ms, nc_heap := (nc_heap f)[n := nc']\<rparr>) }
     | None \<Rightarrow> do {
         ls \<leftarrow> upd_opt (sv_length sv) i 0;
         Some (f\<lparr>mem_sv := (mem_sv f)[r := sv\<lparr>sv_length := ls\<rparr>]\<rparr>) } }"

definition reset_vector :: "'m nclib \<Rightarrow> ('m, 'd) fmu \<Rightarrow> nat \<Rightarrow> ('m, 'd) fmu option" where
  "reset_vector NL f r = do {
     sv \<leftarrow> nth_opt (mem_sv f) r;
     if sv_binary sv = None then Some f
     else foldM (reset_signal NL r) f [0..<unat (sv_count sv)] }"

type_synonym 'm default_fmu = "('m, nat list option) fmu"

definition sv_refs :: "'m default_fmu \<Rightarrow> nat list" where
  "sv_refs f = (case fmu_data f of None \<Rightarrow> [] | Some rs \<Rightarrow> rs)"

definition fmu_default_signals_reset :: "'m nclib \<Rightarrow> 'm default_fmu \<Rightarrow> 'm default_fmu option" where
  "fmu_default_signals_reset NL f =
    (if signals_reset f then Some f
     else do {
       g \<leftarrow> foldM (reset_vector NL) f (sv_refs f);
       Some (g\<lparr>signals_reset := True\<rparr>) })"

definition PATH_MAX :: nat where "PATH_MAX = 4096"

text \<open>
  \<open>fmu_default_signals_setup\<close>; the counting and indexing functions are those of the linked
  FMI version, \<open>parse\<close> is \<open>xmlParseFile\<close>. The scalar vector comes first.
\<close>

definition default_signals_setup ::
  "(xpath \<Rightarrow> xml_node \<Rightarrow> bool \<Rightarrow> nat) \<Rightarrow> (xml_node \<Rightarrow> 'm default_fmu \<Rightarrow> nat \<Rightarrow> bool \<Rightarrow> 'm default_fmu option)
     \<Rightarrow> xpath \<Rightarrow> (string \<Rightarrow> xml_node option) \<Rightarrow> 'm default_fmu \<Rightarrow> 'm default_fmu option" where
  "default_signals_setup count_of index xp parse f =
    (case parse (snprintf PATH_MAX (inst_resource_location f @ ''/../modelDescription.xml'')) of
       None \<Rightarrow> Some f
     | Some doc \<Rightarrow> do {
         let svs = (case allocate_sv xp doc False count_of of None \<Rightarrow> [] | Some s \<Rightarrow> [s]) @
                   (case allocate_sv xp doc True count_of of None \<Rightarrow> [] | Some s \<Rightarrow> [s]);
         let rs = [length (mem_sv f)..<length (mem_sv f) + length svs];
         g \<leftarrow> foldM (\<lambda>g r. do { sv \<leftarrow> nth_opt (mem_sv g) r; index doc g r (sv_scalar sv = None) })
                (f\<lparr>mem_sv := mem_sv f @ svs\<rparr>) rs;
         Some (g\<lparr>fmu_data := Some rs\<rparr>) })"

definition fmu_default_signals_setup ::
  "'m clib \<Rightarrow> 'm nclib \<Rightarrow> (string \<Rightarrow> string option) \<Rightarrow> xpath \<Rightarrow> (string \<Rightarrow> xml_node option)
     \<Rightarrow> 'm default_fmu \<Rightarrow> 'm default_fmu option" where
  "fmu_default_signals_setup L NL env xp parse =
     default_signals_setup fmu_variable_count (fmu_variable_index L NL env xp) xp parse"

definition fmi3_default_signals_setup ::
  "'m clib \<Rightarrow> 'm nclib \<Rightarrow> (string \<Rightarrow> string option) \<Rightarrow> xpath \<Rightarrow> (string \<Rightarrow> xml_node option)
     \<Rightarrow> 'm default_fmu \<Rightarrow> 'm default_fmu option" where
  "fmi3_default_signals_setup L NL env xp parse =
     default_signals_setup fmi3_variable_count (fmi3_variable_index L NL env xp) xp parse"

text \<open>What \<open>remove\<close> leaves of a vector: freed arrays, any later access to which faults.\<close>

definition freed_sv :: "signal_vector \<Rightarrow> signal_vector" where
  "freed_sv sv = sv\<lparr>sv_signal := [], sv_scalar := None, sv_binary := None, sv_length := [],
     sv_buffer_size := [], sv_mime_type := [], sv_ncodec := []\<rparr>"

definition remove_vector :: "'m nclib \<Rightarrow> ('m, 'd) fmu \<Rightarrow> nat \<Rightarrow> ('m, 'd) fmu option" where
  "remove_vector NL f r = do {
     sv \<leftarrow> nth_opt (mem_sv f) r;
     g \<leftarrow> (if sv_ncodec sv = [] then Some f
          else foldM (\<lambda>g i. do { p \<leftarrow> nth_opt (sv_ncodec sv) i; fmu_ncodec_close NL g p }) f [0..<unat (sv_count sv)]);
     upd_sv g r freed_sv }"

definition fmu_default_signals_remove :: "'m nclib \<Rightarrow> 'm default_fmu \<Rightarrow> 'm default_fmu option" where
  "fmu_default_signals_remove NL f = (case fmu_data f of None \<Rightarrow> Some f
     | Some rs \<Rightarrow> foldM (remove_vector NL) f rs)"

definition fmu_load_signal_handlers ::
  "'m clib \<Rightarrow> 'm nclib \<Rightarrow> (string \<Rightarrow> string option) \<Rightarrow> xpath \<Rightarrow> (string \<Rightarrow> xml_node option)
     \<Rightarrow> ('m, nat list option) signal_vtable" where
  "fmu_load_signal_handlers L NL env xp parse = \<lparr>vt_reset = Some (fmu_default_signals_reset NL),
     vt_setup = Some (fmu_default_signals_setup L NL env xp parse),
     vt_remove = Some (fmu_default_signals_remove NL)\<rparr>"

subsection \<open>Set-up builds a well-formed instance\<close>

definition default_inv :: "'m clib \<Rightarrow> 'm default_fmu \<Rightarrow> bool" where
  "default_inv L f \<longleftrightarrow> fmu_wf L f \<and> codecs_ok f \<and> sv_refs f = [0..<length (mem_sv f)]"

lemma fmu_wf_append:
  assumes "fmu_wf L f" "mem_wf xs"
  shows "fmu_wf L (f\<lparr>mem_sv := mem_sv f @ xs\<rparr>)"
proof -
  have d: "dloc_ok (mem_sv f) md p \<Longrightarrow> dloc_ok (mem_sv f @ xs) md p" for md p
    by (cases p) (auto simp: dloc_ok_simps nth_append)
  have x: "svi_ok (mem_sv f) y \<Longrightarrow> svi_ok (mem_sv f @ xs) y" for y
    by (auto simp: svi_ok_iff nth_append)
  have "scalar_map_ok L (mem_sv f) md m \<Longrightarrow> scalar_map_ok L (mem_sv f @ xs) md m" for md m
    unfolding scalar_map_ok_def using d by blast
  moreover have "binary_map_ok L (mem_sv f) m \<Longrightarrow> binary_map_ok L (mem_sv f @ xs) m" for m
    unfolding binary_map_ok_def using x by blast
  ultimately show ?thesis using assms d by (auto simp: fmu_wf_def mem_wf_def)
qed

lemma allocate_sv_Some:
  assumes "allocate_sv xp doc b count_of = Some sv" "count_of xp doc b < 2 ^ 32"
  shows "sv_wf sv" "unat (sv_count sv) = count_of xp doc b" "set (sv_ncodec sv) \<subseteq> {None}"
    "sv_scalar sv = None \<longleftrightarrow> b" "sv_binary sv = None \<longleftrightarrow> \<not> b"
proof -
  from assms(2) show u: "unat (sv_count sv) = count_of xp doc b"
    using assms(1) by (auto simp: allocate_sv_def Let_def unat_of_nat take_bit_nat_eq_self split: if_splits)
  show "sv_wf sv"
    unfolding sv_wf_def u using assms(1) by (cases b) (auto simp: allocate_sv_def Let_def bin_wf_def split: if_splits)
  show "set (sv_ncodec sv) \<subseteq> {None}" "sv_scalar sv = None \<longleftrightarrow> b" "sv_binary sv = None \<longleftrightarrow> \<not> b"
    using assms(1) by (auto simp: allocate_sv_def Let_def split: if_splits)
qed

definition doc_ok :: "xpath \<Rightarrow> xml_node \<Rightarrow> bool" where
  "doc_ok xp doc \<longleftrightarrow> (\<forall>vars. xp doc FMI2_SCALAR_XPATH = Some vars \<longrightarrow> (\<forall>v \<in> set vars. var_ok xp True v)) \<and>
     fmu_variable_count xp doc False < 2 ^ 32 \<and> fmu_variable_count xp doc True < 2 ^ 32"

lemma setup_vectors_run:
  assumes "hashmap_ok L" "codec_cfg_ok L NL env" "doc_ok xp doc" "idx_inv L f0 f0"
    "\<forall>r \<in> set rs. r < length (mem_sv f0) \<and>
       (if sv_scalar (mem_sv f0 ! r) = None then sv_binary (mem_sv f0 ! r) \<noteq> None else True) \<and>
       fmu_variable_count xp doc (sv_scalar (mem_sv f0 ! r) = None) \<le> unat (sv_count (mem_sv f0 ! r))"
  shows "\<exists>g. foldM (\<lambda>g r. do { sv \<leftarrow> nth_opt (mem_sv g) r; fmu_variable_index L NL env xp doc g r (sv_scalar sv = None) }) f0 rs = Some g \<and>
     idx_inv L f0 g"
proof (rule foldM_total [where P = "idx_inv L f0"])
  show "idx_inv L f0 f0" by (rule assms(4))
next
  fix g r assume g: "idx_inv L f0 g" and r: "r \<in> set rs"
  from g have s: "same_storage g f0" by (simp add: idx_inv_def)
  from r assms(5) have b: "r < length (mem_sv f0)" by blast
  note n = same_storageD(1) [OF s] same_storage_nth [OF s b]
  let ?b = "sv_scalar (mem_sv g ! r) = None"
  have "\<exists>h. fmu_variable_index L NL env xp doc g r ?b = Some h \<and> idx_inv L f0 h \<and> same_storage h g"
  proof (rule fmu_variable_index_run [OF assms(1,2) _ g])
    show "\<forall>vars. xp doc FMI2_SCALAR_XPATH = Some vars \<longrightarrow> (\<forall>v \<in> set vars. var_ok xp ?b v)"
      using assms(3) by (auto simp: doc_ok_def var_ok_def)
  qed (use assms(5) r n in auto)
  with b n show "\<exists>h. do { sv \<leftarrow> nth_opt (mem_sv g) r; fmu_variable_index L NL env xp doc g r (sv_scalar sv = None) } = Some h \<and> idx_inv L f0 h"
    by auto
qed

text \<open>
  C7: The default set-up of an instance never accesses memory out of bounds, whatever the
  model description holds (provided its variables have a name and a value reference and its
  annotations a name): \<open>assert(sv_idx < sv->count)\<close> never fires, and afterwards every pointer
  in the index maps is valid and every codec works on the signal it is attached to.
\<close>

theorem default_setup_establishes:
  assumes "hashmap_ok L" "codec_cfg_ok L NL env" "default_inv L f" "mem_sv f = []"
    "\<forall>path doc. parse path = Some doc \<longrightarrow> doc_ok xp doc"
  shows "\<exists>g. fmu_default_signals_setup L NL env xp parse f = Some g \<and> default_inv L g"
proof (cases "parse (snprintf PATH_MAX (inst_resource_location f @ ''/../modelDescription.xml''))")
  case None
  with assms(3) show ?thesis by (simp add: fmu_default_signals_setup_def default_signals_setup_def)
next
  case (Some doc)
  with assms(5) have doc: "doc_ok xp doc" by blast
  define svs where "svs = (case allocate_sv xp doc False fmu_variable_count of None \<Rightarrow> [] | Some s \<Rightarrow> [s]) @
    (case allocate_sv xp doc True fmu_variable_count of None \<Rightarrow> [] | Some s \<Rightarrow> [s])"
  let ?f0 = "f\<lparr>mem_sv := svs\<rparr>"
  have al: "sv_wf sv \<and> set (sv_ncodec sv) \<subseteq> {None} \<and> (sv_scalar sv = None \<longrightarrow> sv_binary sv \<noteq> None) \<and>
      fmu_variable_count xp doc (sv_scalar sv = None) \<le> unat (sv_count sv)" if "sv \<in> set svs" for sv
    using that allocate_sv_Some [of xp doc False fmu_variable_count sv]
      allocate_sv_Some [of xp doc True fmu_variable_count sv] doc
    by (auto simp: svs_def doc_ok_def split: option.splits)
  have wf: "fmu_wf L ?f0"
    using fmu_wf_append [of L f svs] assms(3,4) al by (simp add: default_inv_def mem_wf_def)
  have "sv_ncodec (svs ! r) ! i = None" if "r < length svs" "i < length (sv_ncodec (svs ! r))" for r i
    using al [OF nth_mem [OF that(1)]] nth_mem [OF that(2)] by auto
  then have co: "codecs_ok ?f0" by (simp add: codecs_ok_def)
  have inv0: "idx_inv L ?f0 ?f0" using wf co by (simp add: idx_inv_def)
  have rs: "\<forall>r \<in> set [0..<length svs]. r < length (mem_sv ?f0) \<and>
       (if sv_scalar (mem_sv ?f0 ! r) = None then sv_binary (mem_sv ?f0 ! r) \<noteq> None else True) \<and>
       fmu_variable_count xp doc (sv_scalar (mem_sv ?f0 ! r) = None) \<le> unat (sv_count (mem_sv ?f0 ! r))"
    using al [OF nth_mem] by simp
  obtain g where g: "foldM (\<lambda>g r. do { sv \<leftarrow> nth_opt (mem_sv g) r; fmu_variable_index L NL env xp doc g r (sv_scalar sv = None) })
      ?f0 [0..<length svs] = Some g" "idx_inv L ?f0 g"
    using setup_vectors_run [OF assms(1,2) doc inv0 rs] by blast
  have "fmu_default_signals_setup L NL env xp parse f = Some (g\<lparr>fmu_data := Some [0..<length svs]\<rparr>)"
    using g(1) assms(4) Some
    by (simp add: fmu_default_signals_setup_def default_signals_setup_def svs_def [symmetric])
  moreover have "default_inv L (g\<lparr>fmu_data := Some [0..<length svs]\<rparr>)"
    using g(2) same_storageD(1) [of g ?f0]
    by (simp add: default_inv_def idx_inv_def sv_refs_def fmu_wf_def codecs_ok_def)
  ultimately show ?thesis by blast
qed

text \<open>A model description with one scalar and one binary variable, for the witness.\<close>

definition demo_doc :: xml_node where
  "demo_doc = XmlNode True ''fmiModelDescription'' [] None
    [XmlNode True ''ScalarVariable'' [(''name'', ''speed''), (''valueReference'', ''1''), (''causality'', ''input'')] None
       [XmlNode False ''text'' [] None [], XmlNode True ''Real'' [] None []],
     XmlNode True ''ScalarVariable'' [(''name'', ''can''), (''valueReference'', ''2''), (''causality'', ''input'')] None
       [XmlNode True ''String'' [] None []]]"

definition demo_xpath :: xpath where
  "demo_xpath n q = (if q = FMI2_SCALAR_XPATH then Some (xn_children n) else Some [])"

lemma demo_doc_ok: "doc_ok demo_xpath demo_doc"
  by (simp add: doc_ok_def demo_doc_def demo_xpath_def fmu_variable_count_def is_var_def is_scalar_var_def
      is_binary_var_def var_ok_def xml_prop_def anno_ok_def parse_tool_anno_def FMI2_SCALAR_XPATH_def)

lemma zero_default_inv: "hashmap_ok L \<Longrightarrow> default_inv L (zero_fmu (hm_init L) None)"
  unfolding default_inv_def using zero_fmu_wf [of L "None :: nat list option"]
  by (simp add: codecs_ok_def sv_refs_def zero_fmu_def)

lemma ref_config: "get_codec_config (ref_nclib cfg) mt ''type'' 0 = Some (Some (cfg mt))"
  by (subst get_codec_config.simps) (simp add: ref_nclib_def)

lemma ref_codec_cfg_ok: "codec_cfg_ok L (ref_nclib (\<lambda>_. ''x'')) env"
  by (simp add: codec_cfg_ok_def trace_configure_def ref_config trace_kind_of_def)

theorem default_setup_establishes_witness:
  "\<exists>g. fmu_default_signals_setup ref_clib (ref_nclib (\<lambda>_. ''x'')) (\<lambda>_. None) demo_xpath (\<lambda>_. Some demo_doc)
     (zero_fmu (hm_init ref_clib) None) = Some g \<and> default_inv ref_clib g"
  by (rule default_setup_establishes [OF ref_hashmap_ok ref_codec_cfg_ok zero_default_inv [OF ref_hashmap_ok]])
    (simp_all add: demo_doc_ok zero_fmu_def)

subsection \<open>Reset empties every binary signal, once per step\<close>

text \<open>\<open>resets S f g\<close>: \<open>g\<close> is \<open>f\<close> with the binary signals of \<open>S\<close> emptied and nothing else touched.\<close>

definition resets :: "(nat \<times> nat) set \<Rightarrow> ('m, 'd) fmu \<Rightarrow> ('m, 'd) fmu \<Rightarrow> bool" where
  "resets S f g \<longleftrightarrow> g = f\<lparr>mem_sv := mem_sv g, nc_heap := nc_heap g\<rparr> \<and>
     mem_shape (mem_sv g) = mem_shape (mem_sv f) \<and> mem_wf (mem_sv g) \<and> codecs_ok g \<and>
     map sv_scalar (mem_sv g) = map sv_scalar (mem_sv f) \<and>
     (\<forall>r i. get_bin (mem_sv g) r i = map_option (\<lambda>b. if (r, i) \<in> S then bin_reset b else b) (get_bin (mem_sv f) r i))"

lemma resets_refl: "mem_wf (mem_sv f) \<Longrightarrow> codecs_ok f \<Longrightarrow> resets {} f f"
  by (simp add: resets_def option.map_ident)

lemma bin_reset_idem [simp]: "bin_reset (bin_reset b) = bin_reset b"
  by (simp add: bin_reset_def)

lemma resets_trans:
  assumes "resets S f g" "resets T g h"
  shows "resets (S \<union> T) f h"
proof -
  have "h = g\<lparr>mem_sv := mem_sv h, nc_heap := nc_heap h\<rparr>" using assms(2) by (simp add: resets_def)
  also have "\<dots> = (f\<lparr>mem_sv := mem_sv g, nc_heap := nc_heap g\<rparr>)\<lparr>mem_sv := mem_sv h, nc_heap := nc_heap h\<rparr>"
    using assms(1) by (simp add: resets_def)
  finally have "h = f\<lparr>mem_sv := mem_sv h, nc_heap := nc_heap h\<rparr>" by simp
  with assms show ?thesis
    unfolding resets_def by (simp add: option.map_comp comp_def) (auto intro!: map_option_cong)
qed

lemma resets_fold:
  assumes "\<And>u x. mem_wf (mem_sv u) \<Longrightarrow> codecs_ok u \<Longrightarrow> mem_shape (mem_sv u) = mem_shape (mem_sv f) \<Longrightarrow> x \<in> set xs \<Longrightarrow>
      \<exists>v. step u x = Some v \<and> resets (S x) u v"
    and "mem_wf (mem_sv f)" "codecs_ok f"
  shows "\<exists>g. foldM step f xs = Some g \<and> resets (\<Union>x \<in> set xs. S x) f g"
  using assms
proof (induction xs arbitrary: f)
  case Nil
  then show ?case by (simp add: resets_refl)
next
  case (Cons x xs)
  then obtain g where g: "step f x = Some g" "resets (S x) f g" by fastforce
  then have k: "mem_wf (mem_sv g)" "codecs_ok g" "mem_shape (mem_sv g) = mem_shape (mem_sv f)"
    by (simp_all add: resets_def)
  have "\<exists>h. foldM step g xs = Some h \<and> resets (\<Union>x \<in> set xs. S x) g h"
    by (rule Cons.IH) (use Cons.prems(1) k in auto)
  with g resets_trans [OF g(2)] show ?case by auto
qed

lemma set_bin_reset:
  assumes "get_bin ms r i = Some b"
  shows "set_bin (ms ! r) i (bin_reset b) = (ms ! r)\<lparr>sv_length := (sv_length (ms ! r))[i := 0]\<rparr>"
  using assms by (auto simp: get_bin_Some set_bin_def bin_reset_def)

lemma put_bin_fields:
  "put_bin ms r i b = Some ms' \<Longrightarrow> map sv_scalar ms' = map sv_scalar ms \<and> map sv_ncodec ms' = map sv_ncodec ms"
  by (auto simp: put_bin_Some get_bin_Some set_bin_def intro!: list_update_self_map)

lemma codecs_ok_transfer:
  assumes "codecs_ok f" "map sv_ncodec (mem_sv g) = map sv_ncodec (mem_sv f)"
    "\<And>n r i. codec_link (nc_heap f) n r i \<Longrightarrow> codec_link (nc_heap g) n r i"
  shows "codecs_ok g"
proof -
  have l: "length (mem_sv g) = length (mem_sv f)" using map_eq_imp_length_eq [OF assms(2)] .
  have "sv_ncodec (mem_sv g ! r) = sv_ncodec (mem_sv f ! r)" if "r < length (mem_sv f)" for r
    using arg_cong [OF assms(2), of "\<lambda>xs. xs ! r"] that l by simp
  with assms(1,3) l show ?thesis by (simp add: codecs_ok_def)
qed

lemma resets_one:
  assumes "put_bin (mem_sv f) r i (bin_reset b) = Some ms" "get_bin (mem_sv f) r i = Some b"
    "mem_wf (mem_sv f)" "codecs_ok f" "\<And>n r i. codec_link (nc_heap f) n r i \<Longrightarrow> codec_link h n r i"
  shows "resets {(r, i)} f (f\<lparr>mem_sv := ms, nc_heap := h\<rparr>)"
proof -
  have "codecs_ok (f\<lparr>mem_sv := ms, nc_heap := h\<rparr>)"
    using put_bin_fields [OF assms(1)] by (intro codecs_ok_transfer [OF assms(4)]) (simp_all add: assms(5))
  moreover have "mem_wf ms"
    using put_bin_wf [OF assms(1,3)] get_bin_wf [OF assms(2,3)] by simp
  ultimately show ?thesis
    using put_bin_shape [OF assms(1)] put_bin_fields [OF assms(1)] assms(2)
    by (auto simp: resets_def get_put_bin [OF assms(1)] option.map_ident)
qed

lemma reset_signal_run:
  assumes "truncate_ok NL" "mem_wf (mem_sv f)" "codecs_ok f" "get_bin (mem_sv f) r i = Some b"
    "i < length (sv_ncodec (mem_sv f ! r))"
  shows "\<exists>g. reset_signal NL r f i = Some g \<and> resets {(r, i)} f g"
proof -
  from assms(4) have r: "r < length (mem_sv f)" "i < length (sv_length (mem_sv f ! r))" by (auto simp: get_bin_Some)
  obtain ms where ms: "put_bin (mem_sv f) r i (bin_reset b) = Some ms"
    using assms(4) put_bin_ok [of "mem_sv f" r i "bin_reset b"] by auto
  show ?thesis
  proof (cases "sv_ncodec (mem_sv f ! r) ! i")
    case None
    have "reset_signal NL r f i = Some (f\<lparr>mem_sv := ms, nc_heap := nc_heap f\<rparr>)"
      using None r assms(5) ms set_bin_reset [OF assms(4)] by (auto simp: reset_signal_def put_bin_Some)
    with resets_one [OF ms assms(4,2,3), of "nc_heap f"] show ?thesis by auto
  next
    case (Some n)
    with assms(3,5) r have "codec_link (nc_heap f) n r i" by (auto simp: codecs_ok_def)
    then obtain s where s: "n < length (nc_heap f)" "nc_stream (nc_heap f ! n) = Some s" "bs_sv s = r" "unat (bs_idx s) = i"
      by (auto simp: codec_link_def)
    let ?c = "(nc_heap f ! n)\<lparr>nc_stream := Some (s\<lparr>bs_pos := 0\<rparr>)\<rparr>"
    have "stream_seek (mem_sv f) (Some (nc_heap f ! n)) 0 SeekReset = Some (0, ms, Some ?c)"
      using s assms(4) ms by (simp add: stream_seek_def nc_stream_of_def stream_bin_def Let_def)
    with assms(1) have t: "nl_truncate NL (mem_sv f) (nc_heap f ! n) = (ms, ?c)" by (simp add: truncate_ok_def)
    have "reset_signal NL r f i = Some (f\<lparr>mem_sv := ms, nc_heap := (nc_heap f)[n := ?c]\<rparr>)"
      using Some r assms(5) s(1) t by (simp add: reset_signal_def)
    moreover have "codec_link (nc_heap f) n' r' i' \<Longrightarrow> codec_link ((nc_heap f)[n := ?c]) n' r' i'" for n' r' i'
      using s(2) by (auto simp: codec_link_def nth_update_if)
    ultimately show ?thesis using resets_one [OF ms assms(4,2,3), of "(nc_heap f)[n := ?c]"] by auto
  qed
qed

lemma get_bin_count:
  assumes "mem_wf ms" "get_bin ms r i = Some b"
  shows "r < length ms" "sv_binary (ms ! r) \<noteq> None" "i < unat (sv_count (ms ! r))" "i < length (sv_ncodec (ms ! r))"
proof -
  from assms(2) obtain bs where b: "r < length ms" "sv_binary (ms ! r) = Some bs" "i < length bs" by (auto simp: get_bin_Some)
  with assms(1) have "sv_wf (ms ! r)" by (simp add: mem_wf_def)
  with b show "r < length ms" "sv_binary (ms ! r) \<noteq> None" "i < unat (sv_count (ms ! r))" "i < length (sv_ncodec (ms ! r))"
    by (auto simp: sv_wf_def)
qed

lemma get_bin_exists:
  assumes "mem_wf ms" "r < length ms" "sv_binary (ms ! r) \<noteq> None" "i < unat (sv_count (ms ! r))"
  shows "\<exists>b. get_bin ms r i = Some b"
proof -
  from assms have "sv_wf (ms ! r)" by (simp add: mem_wf_def)
  with assms show ?thesis by (auto simp: get_bin_Some sv_wf_def)
qed

lemma shape_vector:
  assumes "mem_shape ms' = mem_shape ms" "r < length ms"
  shows "sv_count (ms' ! r) = sv_count (ms ! r)" "sv_binary (ms' ! r) = None \<longleftrightarrow> sv_binary (ms ! r) = None"
    "sv_ncodec (ms' ! r) = sv_ncodec (ms ! r)" "sv_signal (ms' ! r) = sv_signal (ms ! r)"
  using mem_shape_nth [OF assms] by (auto simp: sv_shape_def)

lemma reset_vector_run:
  assumes "truncate_ok NL" "mem_wf (mem_sv f)" "codecs_ok f" "r < length (mem_sv f)"
  shows "\<exists>g. reset_vector NL f r = Some g \<and> resets {(r', i). r' = r \<and> get_bin (mem_sv f) r i \<noteq> None} f g"
proof (cases "sv_binary (mem_sv f ! r) = None")
  case True
  then have "{(r', i). r' = r \<and> get_bin (mem_sv f) r i \<noteq> None} = {}" by (auto simp: get_bin_Some)
  with True assms resets_refl show ?thesis by (auto simp: reset_vector_def)
next
  case False
  let ?n = "unat (sv_count (mem_sv f ! r))"
  have "\<exists>g. foldM (reset_signal NL r) f [0..<?n] = Some g \<and> resets (\<Union>i \<in> set [0..<?n]. {(r, i)}) f g"
  proof (rule resets_fold [OF _ assms(2,3)])
    fix u :: "('a, 'b) fmu" and i
    assume u: "mem_wf (mem_sv u)" "codecs_ok u" "mem_shape (mem_sv u) = mem_shape (mem_sv f)" "i \<in> set [0..<?n]"
    note v = shape_vector [OF u(3) assms(4)] mem_shape_length [OF u(3)]
    obtain b where "get_bin (mem_sv u) r i = Some b"
      using get_bin_exists [OF u(1), of r i] v False u(4) assms(4) by auto
    with reset_signal_run [OF assms(1) u(1,2) this] get_bin_count(4) [OF u(1) this]
    show "\<exists>v. reset_signal NL r u i = Some v \<and> resets {(r, i)} u v" by simp
  qed
  moreover have "(\<Union>i \<in> set [0..<?n]. {(r, i)}) = {(r', i). r' = r \<and> get_bin (mem_sv f) r i \<noteq> None}"
    using get_bin_count(3) [OF assms(2)] get_bin_exists [OF assms(2,4) False] by auto
  moreover have "reset_vector NL f r = foldM (reset_signal NL r) f [0..<?n]"
    using False assms(4) by (auto simp: reset_vector_def)
  ultimately show ?thesis by simp
qed

lemma default_reset_run:
  assumes "truncate_ok NL" "default_inv L f" "\<not> signals_reset f"
  shows "\<exists>g. fmu_default_signals_reset NL f = Some (g\<lparr>signals_reset := True\<rparr>) \<and> resets UNIV f g"
proof -
  let ?S = "\<lambda>r. {(r', i). r' = r \<and> get_bin (mem_sv f) r i \<noteq> None}"
  have w: "mem_wf (mem_sv f)" "codecs_ok f" "sv_refs f = [0..<length (mem_sv f)]"
    using assms(2) by (simp_all add: default_inv_def fmu_wf_def)
  have "\<exists>g. foldM (reset_vector NL) f (sv_refs f) = Some g \<and> resets (\<Union>r \<in> set (sv_refs f). ?S r) f g"
  proof (rule resets_fold [OF _ w(1,2)])
    fix u :: "'a default_fmu" and r
    assume u: "mem_wf (mem_sv u)" "codecs_ok u" "mem_shape (mem_sv u) = mem_shape (mem_sv f)" "r \<in> set (sv_refs f)"
    then have r: "r < length (mem_sv u)" using w(3) mem_shape_length [OF u(3)] by simp
    have "get_bin (mem_sv u) r i \<noteq> None \<longleftrightarrow> get_bin (mem_sv f) r i \<noteq> None" for i
    proof -
      have l: "r < length (mem_sv f)" using r mem_shape_length [OF u(3)] by simp
      show ?thesis
        using get_bin_count [OF u(1), of r i] get_bin_count [OF w(1), of r i] get_bin_exists [OF u(1) r, of i]
          get_bin_exists [OF w(1) l, of i] shape_vector(1,2) [OF u(3) l] by auto
    qed
    with reset_vector_run [OF assms(1) u(1,2) r]
    show "\<exists>v. reset_vector NL u r = Some v \<and> resets (?S r) u v" by simp
  qed
  then obtain g where g: "foldM (reset_vector NL) f (sv_refs f) = Some g" "resets (\<Union>r \<in> set (sv_refs f). ?S r) f g"
    by blast
  have "resets UNIV f g"
  proof -
    have "(r, i) \<in> (\<Union>r \<in> set (sv_refs f). ?S r)" if "get_bin (mem_sv f) r i = Some b" for r i b
      using that get_bin_count(1) [OF w(1) that] w(3) by auto
    then have "map_option (\<lambda>b. if (r, i) \<in> (\<Union>r \<in> set (sv_refs f). ?S r) then bin_reset b else b) (get_bin (mem_sv f) r i) =
        map_option (\<lambda>b. if (r, i) \<in> UNIV then bin_reset b else b) (get_bin (mem_sv f) r i)" for r i
      by (cases "get_bin (mem_sv f) r i") auto
    with g(2) show ?thesis unfolding resets_def by presburger
  qed
  with g(1) assms(3) show ?thesis by (auto simp: fmu_default_signals_reset_def)
qed

subsection \<open>The contract of the signal handlers\<close>

text \<open>
  What the FMI functions need of the handlers of an instance: \<open>reset\<close> never faults, empties
  every binary signal unless that was done since the last step, and touches nothing else.
\<close>

definition emptied :: "('m, 'd) fmu \<Rightarrow> ('m, 'd) fmu \<Rightarrow> bool" where
  "emptied f g \<longleftrightarrow> g = f\<lparr>mem_sv := mem_sv g, nc_heap := nc_heap g, signals_reset := True\<rparr> \<and>
     mem_shape (mem_sv g) = mem_shape (mem_sv f) \<and> map sv_scalar (mem_sv g) = map sv_scalar (mem_sv f) \<and>
     (\<forall>r i. get_bin (mem_sv g) r i = map_option bin_reset (get_bin (mem_sv f) r i))"

locale signal_handlers =
  fixes L :: "'m clib" and inv :: "('m, 'd) fmu \<Rightarrow> bool" and H :: "('m, 'd) signal_vtable"
  assumes inv_wf: "inv f \<Longrightarrow> fmu_wf L f"
    and inv_frame: "inv f \<Longrightarrow> fmu_wf L g \<Longrightarrow> mem_shape (mem_sv g) = mem_shape (mem_sv f) \<Longrightarrow>
       nc_heap g = nc_heap f \<Longrightarrow> fmu_data g = fmu_data f \<Longrightarrow> (vt_table f \<noteq> None \<longrightarrow> vt_table g \<noteq> None) \<Longrightarrow> inv g"
    and reset_run: "inv f \<Longrightarrow> \<exists>g. call_handler (vt_reset H) f = Some g \<and> inv g \<and>
       (if signals_reset f then g = f else emptied f g)"
begin

lemma reset_contents:
  assumes "inv f" "call_handler (vt_reset H) f = Some g" "\<not> signals_reset f" "get_bin (mem_sv g) r i = Some b"
  shows "bin_content b = []"
proof -
  from reset_run [OF assms(1)] assms(2,3) have "emptied f g" by simp
  with assms(4) show ?thesis by (auto simp: emptied_def)
qed

lemma reset_twice:
  assumes "inv f" "call_handler (vt_reset H) f = Some g"
  shows "call_handler (vt_reset H) g = Some g"
proof -
  from reset_run [OF assms(1)] assms(2) have g: "inv g" "if signals_reset f then g = f else emptied f g" by simp_all
  then have "signals_reset g" by (auto simp: emptied_def split: if_splits dest: arg_cong [where f = signals_reset])
  with reset_run [OF g(1)] show ?thesis by auto
qed

end

lemma default_inv_emptied:
  assumes "resets UNIV f g" "default_inv L f"
  shows "default_inv L (g\<lparr>signals_reset := True\<rparr>)" and "emptied f (g\<lparr>signals_reset := True\<rparr>)"
proof -
  from assms(1) have e: "g = f\<lparr>mem_sv := mem_sv g, nc_heap := nc_heap g\<rparr>" by (simp add: resets_def)
  then obtain ms h where g: "g = f\<lparr>mem_sv := ms, nc_heap := h\<rparr>" by blast
  have s: "mem_shape ms = mem_shape (mem_sv f)" "mem_wf ms" using assms(1) g by (simp_all add: resets_def)
  have "fmu_wf L (g\<lparr>signals_reset := True\<rparr>)"
    by (rule fmu_wf_update [of L f]) (use assms(2) s in \<open>simp_all add: default_inv_def g\<close>)
  moreover have "codecs_ok (g\<lparr>signals_reset := True\<rparr>)" using assms(1) by (simp add: resets_def codecs_ok_def)
  ultimately show "default_inv L (g\<lparr>signals_reset := True\<rparr>)"
    using assms(2) s mem_shape_length [OF s(1)] by (simp add: default_inv_def g sv_refs_def)
  show "emptied f (g\<lparr>signals_reset := True\<rparr>)"
    using assms(1) unfolding resets_def emptied_def by (simp add: g)
qed

interpretation dh: signal_handlers L "\<lambda>f. default_inv L f \<and> truncate_ok NL"
  "fmu_load_signal_handlers L NL env xp parse" for L NL env xp parse
proof
  fix f :: "'a default_fmu" assume i: "default_inv L f \<and> truncate_ok NL"
  then show "fmu_wf L f" by (simp add: default_inv_def)
  show "\<exists>g. call_handler (vt_reset (fmu_load_signal_handlers L NL env xp parse)) f = Some g \<and>
      (default_inv L g \<and> truncate_ok NL) \<and> (if signals_reset f then g = f else emptied f g)"
  proof (cases "signals_reset f")
    case True
    with i show ?thesis by (simp add: call_handler_def fmu_load_signal_handlers_def fmu_default_signals_reset_def)
  next
    case False
    with default_reset_run [of NL L f] i default_inv_emptied [of f _ L] show ?thesis
      by (auto simp: call_handler_def fmu_load_signal_handlers_def)
  qed
next
  fix f g :: "'a default_fmu"
  assume "default_inv L f \<and> truncate_ok NL" "fmu_wf L g" "mem_shape (mem_sv g) = mem_shape (mem_sv f)"
    "nc_heap g = nc_heap f" "fmu_data g = fmu_data f"
  then show "default_inv L g \<and> truncate_ok NL"
    using shape_vector(3) [of "mem_sv g" "mem_sv f"] mem_shape_length [of "mem_sv g" "mem_sv f"]
    by (simp add: default_inv_def sv_refs_def codecs_ok_def)
qed

subsection \<open>What the default reset does\<close>

text \<open>
  C8: The default reset never faults. In a step in which it has not run yet it empties every
  binary signal of the instance (through its codec where it has one) and leaves the scalar
  signals as they are; run again in the same step it changes nothing.
\<close>

theorem default_reset_empties:
  assumes "truncate_ok NL" "default_inv L f"
  shows "\<exists>g. fmu_default_signals_reset NL f = Some g \<and> default_inv L g \<and> fmu_default_signals_reset NL g = Some g \<and>
    (signals_reset f \<longrightarrow> g = f) \<and>
    (\<not> signals_reset f \<longrightarrow> map sv_scalar (mem_sv g) = map sv_scalar (mem_sv f) \<and>
       (\<forall>r i. get_bin (mem_sv g) r i = map_option bin_reset (get_bin (mem_sv f) r i)))"
proof (cases "signals_reset f")
  case True
  with assms(2) show ?thesis by (simp add: fmu_default_signals_reset_def)
next
  case False
  obtain g where g: "fmu_default_signals_reset NL f = Some (g\<lparr>signals_reset := True\<rparr>)" "resets UNIV f g"
    using default_reset_run [OF assms False] by blast
  have "fmu_default_signals_reset NL (g\<lparr>signals_reset := True\<rparr>) = Some (g\<lparr>signals_reset := True\<rparr>)"
    by (simp add: fmu_default_signals_reset_def)
  with g False default_inv_emptied [OF g(2) assms(2)] show ?thesis by (auto simp: emptied_def)
qed

theorem default_reset_empties_witness:
  "\<exists>g. fmu_default_signals_reset (ref_nclib (\<lambda>_. ''x'')) (zero_fmu (hm_init ref_clib) (Some [0])\<lparr>mem_sv := [demo_bin_sv\<lparr>sv_ncodec := [None]\<rparr>]\<rparr>) = Some g \<and>
     (\<exists>b. get_bin (mem_sv g) 0 0 = Some b \<and> b_buf b = Some [9, 9, 9, 9] \<and> b_len b = 0)"
proof -
  let ?ms = "[demo_bin_sv\<lparr>sv_ncodec := [None]\<rparr>]"
  let ?f = "zero_fmu (hm_init ref_clib) (Some [0 :: nat])\<lparr>mem_sv := ?ms\<rparr>"
  have "mem_wf ?ms" by (simp add: mem_wf_def sv_wf_def demo_bin_sv_def bin_wf_def)
  with fmu_wf_append [OF zero_fmu_wf [OF ref_hashmap_ok, of "Some [0 :: nat]"], of ?ms]
  have "fmu_wf ref_clib ?f" by (simp add: zero_fmu_def)
  then have i: "default_inv ref_clib ?f"
    by (simp add: default_inv_def codecs_ok_def sv_refs_def zero_fmu_def demo_bin_sv_def)
  have "get_bin ?ms 0 0 = Some \<lparr>b_buf = Some [9, 9, 9, 9], b_len = 2, b_cap = 4\<rparr>" "\<not> signals_reset ?f"
    by (simp_all add: get_bin_def demo_bin_sv_def nth_opt_def zero_fmu_def)
  with default_reset_empties [OF ref_truncate_ok i, of "\<lambda>_. ''x''"] show ?thesis by (auto simp: bin_reset_def)
qed

end
