(* ===== verification/FmiAccess.thy ===== *)
theory FmiAccess
  imports FmuSignal
begin

section \<open>Variable access shared by the FMI adapters\<close>

text \<open>
  The loops that fmi2fmu.c and fmi3fmu.c have in common, over the linked \<open>fmu_log\<close>: reading
  and writing scalar variables by value reference, either through the index maps or directly
  at a byte offset of the value bypass map, and the copies between signals and the variable
  table around a step. A caller's array is a list; an access outside it faults.
\<close>

definition VREF_KEY_LEN :: nat where "VREF_KEY_LEN = 11"

definition vr_key :: "u32 \<Rightarrow> string" where
  "vr_key v = snprintf VREF_KEY_LEN (fmt_i v)"

lemma uint_as_unat: "uint (v :: u32) = int (unat v)"
  by simp

lemma sint_signed: "sint (v :: u32) = signed_take_bit 31 (uint v)"
  by (simp add: sint_uint)

lemma vr_key_low:
  assumes "unat v < 2 ^ 31"
  shows "vr_key v = show_nat (unat v)"
proof -
  have "int (unat v) < 2 ^ 31" using assms by (metis of_nat_less_iff of_nat_numeral of_nat_power)
  moreover have "- (2 ^ 31) \<le> int (unat v)" by (rule order_trans [OF _ of_nat_0_le_iff]) simp
  ultimately have "sint v = int (unat v)"
    unfolding sint_signed uint_as_unat by (intro signed_take_bit_int_eq_self)
  moreover have "length (show_nat (unat v)) \<le> 10"
    using length_show_nat [of "unat v" 9] assms by simp
  ultimately show ?thesis by (simp add: vr_key_def fmt_i_def snprintf_def VREF_KEY_LEN_def show_int_def)
qed

lemma vr_key_high:
  assumes "2 ^ 31 \<le> unat v"
  shows "hd (vr_key v) = CHR ''-''" "vr_key v \<noteq> []"
proof -
  have "(2::int) ^ 31 \<le> int (unat v)" using assms by (metis of_nat_le_iff of_nat_numeral of_nat_power)
  then have "sint v \<le> int (unat v) - 2 ^ Suc 31"
    unfolding sint_signed uint_as_unat by (rule signed_take_bit_int_less_eq)
  moreover have "int (unat v) < 2 ^ Suc 31" by (simp add: uint_as_unat [symmetric] del: uint_nat) (use uint_lt2p [of v] in simp)
  ultimately have "sint v < 0" by linarith
  then show "hd (vr_key v) = CHR ''-''" "vr_key v \<noteq> []"
    by (simp_all add: vr_key_def fmt_i_def snprintf_def VREF_KEY_LEN_def show_int_def)
qed

lemma vr_key_not_decimal:
  assumes "2 ^ 31 \<le> unat v"
  shows "vr_key v \<noteq> show_nat n"
proof
  assume "vr_key v = show_nat n"
  with vr_key_high [OF assms] have "CHR ''-'' \<in> set (show_nat n)" by (metis hd_in_set)
  with minus_not_digit show False by blast
qed

text \<open>
  The key under which an FMI call looks a variable up is the decimal text of its value
  reference (the key the model description gives it) for exactly the references below 2^31:
  \<open>"%i"\<close> prints the others as negative numbers. Below that bound different references have
  different keys.
\<close>

theorem vr_key_range:
  "(vr_key v = show_nat (unat v) \<longleftrightarrow> unat v < 2 ^ 31) \<and> inj_on vr_key {v. unat v < 2 ^ 31}"
proof
  show "vr_key v = show_nat (unat v) \<longleftrightarrow> unat v < 2 ^ 31"
    using vr_key_low [of v] vr_key_not_decimal [of v "unat v"] by (metis not_less)
  show "inj_on vr_key {v. unat v < 2 ^ 31}"
    by (rule inj_onI) (simp add: vr_key_low show_nat_inj word_unat_eq_iff)
qed

subsection \<open>Doubles in the value bypass map\<close>

text \<open>A double is eight bytes, the least significant first.\<close>

definition le_bytes :: "f64 \<Rightarrow> bytes" where
  "le_bytes v = map (\<lambda>i. ucast (drop_bit (8 * i) v)) [0..<8]"
fun le_word :: "bytes \<Rightarrow> f64" where
  "le_word [] = 0"
| "le_word (b # bs) = or (ucast b) (push_bit 8 (le_word bs))"
lemma bit_le_word: "bit (le_word bs) n \<longleftrightarrow> n < 64 \<and> n div 8 < length bs \<and> bit (bs ! (n div 8)) (n mod 8)"
proof (induction bs arbitrary: n)
  case Nil
  show ?case by simp
next
  case (Cons b bs)
  show ?case
  proof (cases "n < 8")
    case True
    then show ?thesis by (auto simp: bit_or_iff bit_ucast_iff bit_push_bit_iff dest: bit_imp_le_length)
  next
    case False
    then have "bit (ucast b :: f64) n = False" by (auto simp: bit_ucast_iff dest: bit_imp_le_length)
    moreover from False have "n div 8 = Suc ((n - 8) div 8)" "n mod 8 = (n - 8) mod 8"
      by (simp_all add: le_div_geq le_mod_geq)
    ultimately show ?thesis using False Cons.IH [of "n - 8"]
      by (auto simp: bit_or_iff bit_push_bit_iff dest: bit_imp_le_length)
  qed
qed
lemma le_word_bytes: "le_word (le_bytes v) = v"
proof (rule bit_word_eqI)
  fix n assume "n < LENGTH(64)"
  then have n: "n < 64" by simp
  then have "n div 8 < 8" by auto
  with n
  show "bit (le_word (le_bytes v)) n = bit v n"
    by (simp add: bit_le_word le_bytes_def bit_ucast_iff bit_drop_bit_eq)
qed

lemma length_le_bytes [simp]: "length (le_bytes v) = 8"
  by (simp add: le_bytes_def)

definition read_f64 :: "bytes \<Rightarrow> nat \<Rightarrow> f64 option" where
  "read_f64 m off = (if off + 8 \<le> length m then Some (le_word (take 8 (drop off m))) else None)"

definition write_f64 :: "bytes \<Rightarrow> nat \<Rightarrow> f64 \<Rightarrow> bytes option" where
  "write_f64 m off v = (if off + 8 \<le> length m
     then Some (take off m @ le_bytes v @ drop (off + 8) m) else None)"

lemma write_f64_length: "write_f64 m off v = Some m' \<Longrightarrow> length m' = length m"
  by (auto simp: write_f64_def split: if_splits)

lemma read_write_f64: "write_f64 m off v = Some m' \<Longrightarrow> read_f64 m' off = Some v"
  by (auto simp: write_f64_def read_f64_def le_word_bytes split: if_splits)

lemma read_write_f64_other:
  assumes "write_f64 m off v = Some m'" "off' + 8 \<le> off \<or> off + 8 \<le> off'"
  shows "read_f64 m' off' = read_f64 m off'"
proof -
  from assms(1) have b: "off + 8 \<le> length m" and m': "m' = take off m @ le_bytes v @ drop (off + 8) m"
    by (auto simp: write_f64_def split: if_splits)
  have "take 8 (drop off' m') = take 8 (drop off' m)"
  proof (rule nth_equalityI)
    show "length (take 8 (drop off' m')) = length (take 8 (drop off' m))"
      using write_f64_length [OF assms(1)] by simp
  next
    fix i assume "i < length (take 8 (drop off' m'))"
    with assms(2) b show "take 8 (drop off' m') ! i = take 8 (drop off' m) ! i"
      by (auto simp: m' nth_append)
  qed
  with write_f64_length [OF assms(1)] show ?thesis by (simp add: read_f64_def)
qed

subsection \<open>Scalars\<close>

text \<open>A read looks among the outputs first, then among the inputs.\<close>

definition get_signal :: "'m clib \<Rightarrow> ('m, 'd) fmu \<Rightarrow> string \<Rightarrow> dloc option option" where
  "get_signal L f key = do {
     out \<leftarrow> get_double L (scalar_output f) key;
     case out of Some p \<Rightarrow> Some (Some p) | None \<Rightarrow> get_double L (scalar_input f) key }"

definition get_real_one ::
  "('m, 'd) logf \<Rightarrow> 'm clib \<Rightarrow> u32 list \<Rightarrow> ('m, 'd) fmu \<times> f64 list \<Rightarrow> nat \<Rightarrow> (('m, 'd) fmu \<times> f64 list) option" where
  "get_real_one lg L vr s i = (case s of (f, vals) \<Rightarrow> do {
     v \<leftarrow> nth_opt vr i;
     case di_map f of
       Some m \<Rightarrow>
         if di_size f < v then Some (lg f 3 (Some ''Error'') ''Invalid direct index'', vals)
         else do { x \<leftarrow> read_f64 m (unat v); vals' \<leftarrow> upd_opt vals i x; Some (f, vals') }
     | None \<Rightarrow> do {
         signal \<leftarrow> get_signal L f (vr_key v);
         case signal of None \<Rightarrow> Some (f, vals)
         | Some p \<Rightarrow> do { x \<leftarrow> load f p; vals' \<leftarrow> upd_opt vals i x; Some (f, vals') } } })"

definition get_reals ::
  "('m, 'd) logf \<Rightarrow> 'm clib \<Rightarrow> ('m, 'd) fmu \<Rightarrow> u32 list \<Rightarrow> f64 list \<Rightarrow> (fmi_status \<times> ('m, 'd) fmu \<times> f64 list) option" where
  "get_reals lg L f vr vals = do {
     (g, vals') \<leftarrow> foldM (get_real_one lg L vr) (f, vals) [0..<length vr];
     Some (FmiOK, g, vals') }"

definition set_real_one ::
  "('m, 'd) logf \<Rightarrow> 'm clib \<Rightarrow> u32 list \<Rightarrow> f64 list \<Rightarrow> ('m, 'd) fmu \<Rightarrow> nat \<Rightarrow> ('m, 'd) fmu option" where
  "set_real_one lg L vr vals f i = do {
     v \<leftarrow> nth_opt vr i;
     case di_map f of
       Some m \<Rightarrow>
         if di_size f < v then Some (lg f 3 (Some ''Error'') ''Invalid direct index'')
         else do { x \<leftarrow> nth_opt vals i; m' \<leftarrow> write_f64 m (unat v) x; Some (f\<lparr>di_map := Some m'\<rparr>) }
     | None \<Rightarrow> do {
         signal \<leftarrow> get_double L (scalar_input f) (vr_key v);
         case signal of None \<Rightarrow> Some f
         | Some p \<Rightarrow> do { x \<leftarrow> nth_opt vals i; store f p x } } }"

definition set_reals ::
  "('m, 'd) logf \<Rightarrow> 'm clib \<Rightarrow> ('m, 'd) fmu \<Rightarrow> u32 list \<Rightarrow> f64 list \<Rightarrow> (fmi_status \<times> ('m, 'd) fmu) option" where
  "set_reals lg L f vr vals = do {
     g \<leftarrow> foldM (set_real_one lg L vr vals) f [0..<length vr];
     Some (FmiOK, g) }"

subsection \<open>Binary signals\<close>

definition append_signal :: "'m clib \<Rightarrow> ('m, 'd) fmu \<Rightarrow> svi \<Rightarrow> bytes \<Rightarrow> ('m, 'd) fmu option" where
  "append_signal L f x data = do {
     b \<leftarrow> get_bin (mem_sv f) (svi_sv x) (unat (svi_vi x));
     ms \<leftarrow> put_bin (mem_sv f) (svi_sv x) (unat (svi_vi x)) (buffer_append L b data);
     Some (f\<lparr>mem_sv := ms\<rparr>) }"

text \<open>The codec function of a key; a map entry of another kind is a wrong cast.\<close>

definition has_func :: "'m clib \<Rightarrow> 'm \<Rightarrow> string \<Rightarrow> vptr \<Rightarrow> bool option" where
  "has_func L m k w = (case hm_get L m k of None \<Rightarrow> Some False
     | Some v \<Rightarrow> if v = w then Some True else None)"

subsection \<open>Around a step\<close>

text \<open>Signals to the variable table, and back; a marshal list needs a table.\<close>

definition table_put :: "(u64 \<Rightarrow> f64) \<Rightarrow> u64 \<Rightarrow> f64 \<Rightarrow> u64 \<Rightarrow> f64" where
  "table_put t a x = t(a := x)"

definition to_table :: "('m, 'd) fmu \<Rightarrow> marshal_item \<Rightarrow> ('m, 'd) fmu option" where
  "to_table f mi = do {
     x \<leftarrow> load f (mi_signal mi);
     t \<leftarrow> vt_table f;
     Some (f\<lparr>vt_table := Some (table_put t (mi_variable mi) x)\<rparr>) }"

definition from_table :: "('m, 'd) fmu \<Rightarrow> marshal_item \<Rightarrow> ('m, 'd) fmu option" where
  "from_table f mi = do {
     t \<leftarrow> vt_table f;
     store f (mi_signal mi) (t (mi_variable mi)) }"

definition marshal_to_table :: "('m, 'd) fmu \<Rightarrow> ('m, 'd) fmu option" where
  "marshal_to_table f = foldM to_table f (vt_marshal_list f)"

definition marshal_from_table :: "('m, 'd) fmu \<Rightarrow> ('m, 'd) fmu option" where
  "marshal_from_table f = foldM from_table f (vt_marshal_list f)"

text \<open>The user FMU: \<open>fmu_create\<close>, \<open>fmu_init\<close>, \<open>fmu_step\<close> and \<open>fmu_destroy\<close>.\<close>

datatype 'f created = CreatedNull | CreatedSame | CreatedExtended 'f

record ('m, 'd) fmu_impl =
  im_create :: "('m, 'd) fmu \<Rightarrow> (int \<times> ('m, 'd) fmu \<times> ('m, 'd) fmu created) option"
  im_init :: "('m, 'd) fmu \<Rightarrow> (int \<times> ('m, 'd) fmu) option"
  im_step :: "('m, 'd) fmu \<Rightarrow> f64 \<Rightarrow> f64 \<Rightarrow> (int \<times> ('m, 'd) fmu) option"
  im_destroy :: "('m, 'd) fmu \<Rightarrow> (int \<times> ('m, 'd) fmu) option"

definition status_of :: "int \<Rightarrow> fmi_status" where
  "status_of rc = (if rc = 0 then FmiOK else FmiError)"

definition exit_init :: "('m, 'd) fmu_impl \<Rightarrow> ('m, 'd) fmu \<Rightarrow> (fmi_status \<times> ('m, 'd) fmu) option" where
  "exit_init I f = do { (rc, g) \<leftarrow> im_init I f; Some (status_of rc, g) }"

definition do_step ::
  "('m, 'd) signal_vtable \<Rightarrow> ('m, 'd) fmu_impl \<Rightarrow> ('m, 'd) fmu \<Rightarrow> f64 \<Rightarrow> f64 \<Rightarrow> (fmi_status \<times> ('m, 'd) fmu) option" where
  "do_step H I f point step_size = do {
     f1 \<leftarrow> call_handler (vt_reset H) f;
     f2 \<leftarrow> marshal_to_table f1;
     (rc, f3) \<leftarrow> im_step I f2 point step_size;
     f4 \<leftarrow> marshal_from_table f3;
     Some (status_of rc, f4\<lparr>signals_reset := False\<rparr>) }"

subsection \<open>What the scalar loops compute\<close>

definition double_at :: "'m clib \<Rightarrow> 'm \<Rightarrow> string \<Rightarrow> dloc option" where
  "double_at L m k = (case hm_get L m k of Some (PDouble p) \<Rightarrow> Some p | _ \<Rightarrow> None)"

definition input_loc :: "'m clib \<Rightarrow> ('m, 'd) fmu \<Rightarrow> u32 \<Rightarrow> dloc option" where
  "input_loc L f v = double_at L (scalar_input f) (vr_key v)"

definition get_loc :: "'m clib \<Rightarrow> ('m, 'd) fmu \<Rightarrow> u32 \<Rightarrow> dloc option" where
  "get_loc L f v = (case double_at L (scalar_output f) (vr_key v) of Some p \<Rightarrow> Some p | None \<Rightarrow> input_loc L f v)"

definition real_value :: "'m clib \<Rightarrow> ('m, 'd) fmu \<Rightarrow> u32 \<Rightarrow> f64 option" where
  "real_value L f v = do { p \<leftarrow> get_loc L f v; load f p }"

text \<open>The abstract effect of a write: the location of each known input takes its value, in order.\<close>

definition assign_inputs :: "'m clib \<Rightarrow> ('m, 'd) fmu \<Rightarrow> (u32 \<times> f64) list \<Rightarrow> (dloc \<Rightarrow> f64 option) \<Rightarrow> dloc \<Rightarrow> f64 option" where
  "assign_inputs L f vxs st = foldl (\<lambda>st (v, x). case input_loc L f v of None \<Rightarrow> st | Some p \<Rightarrow> st(p := Some x)) st vxs"

lemma get_double_ok:
  assumes "scalar_map_ok L ms md m"
  shows "get_double L m k = Some (double_at L m k)" and "double_at L m k = Some p \<Longrightarrow> dloc_ok ms md p"
proof -
  have "hm_get L m k = None \<or> (\<exists>p. hm_get L m k = Some (PDouble p) \<and> dloc_ok ms md p)"
    using assms by (cases "hm_get L m k") (auto simp: scalar_map_ok_def)
  then show "get_double L m k = Some (double_at L m k)" "double_at L m k = Some p \<Longrightarrow> dloc_ok ms md p"
    by (auto simp: get_double_def double_at_def)
qed

lemma fmu_wf_maps:
  assumes "fmu_wf L f"
  shows "scalar_map_ok L (mem_sv f) (mem_dbl f) (scalar_input f)" "scalar_map_ok L (mem_sv f) (mem_dbl f) (scalar_output f)"
    "binary_map_ok L (mem_sv f) (binary_rx f)" "binary_map_ok L (mem_sv f) (binary_tx f)" "mem_wf (mem_sv f)"
    "func_map_ok L PEncode (encode_func f)" "func_map_ok L PDecode (decode_func f)"
  using assms by (simp_all add: fmu_wf_def)

lemma get_signal_run: "fmu_wf L f \<Longrightarrow> get_signal L f (vr_key v) = Some (get_loc L f v)"
  by (auto simp: get_signal_def get_loc_def input_loc_def get_double_ok(1) [OF fmu_wf_maps(1)]
      get_double_ok(1) [OF fmu_wf_maps(2)] split: option.split)

lemma input_loc_ok: "fmu_wf L f \<Longrightarrow> input_loc L f v = Some p \<Longrightarrow> dloc_ok (mem_sv f) (mem_dbl f) p"
  unfolding input_loc_def by (rule get_double_ok(2) [OF fmu_wf_maps(1)])

lemma get_loc_ok: "fmu_wf L f \<Longrightarrow> get_loc L f v = Some p \<Longrightarrow> dloc_ok (mem_sv f) (mem_dbl f) p"
  unfolding get_loc_def
  by (cases "double_at L (scalar_output f) (vr_key v)")
    (auto intro: input_loc_ok get_double_ok(2) [OF fmu_wf_maps(2)])

lemma get_real_one_run:
  assumes "fmu_wf L f" "di_map f = None" "i < length vr" "length vals = length vr"
  shows "get_real_one lg L vr (f, vals) i =
    Some (f, case real_value L f (vr ! i) of None \<Rightarrow> vals | Some x \<Rightarrow> vals[i := x])"
proof (cases "get_loc L f (vr ! i)")
  case None
  with assms show ?thesis by (simp add: get_real_one_def get_signal_run real_value_def)
next
  case (Some p)
  then obtain x where "load f p = Some x" using get_loc_ok [OF assms(1)] load_ok [of f p] by auto
  with Some assms show ?thesis by (simp add: get_real_one_def get_signal_run real_value_def)
qed

lemma get_reals_run:
  assumes "fmu_wf L f" "di_map f = None" "length vals = length vr"
  shows "get_reals lg L f vr vals = Some (FmiOK, f,
    map (\<lambda>(v, old). case real_value L f v of None \<Rightarrow> old | Some x \<Rightarrow> x) (zip vr vals))"
proof -
  let ?new = "map (\<lambda>(v, old). case real_value L f v of None \<Rightarrow> old | Some x \<Rightarrow> x) (zip vr vals)"
  have "n \<le> length vr \<Longrightarrow> foldM (get_real_one lg L vr) (f, vals) [0..<n] = Some (f, take n ?new @ drop n vals)" for n
  proof (induction n)
    case 0
    show ?case by simp
  next
    case (Suc n)
    then have n: "n < length vr" by simp
    let ?v = "take n ?new @ drop n vals"
    have l: "length ?v = length vr" using assms(3) by simp
    have d: "drop n vals = vals ! n # drop (Suc n) vals" using n assms(3) by (simp add: Cons_nth_drop_Suc)
    have "(case real_value L f (vr ! n) of None \<Rightarrow> ?v | Some x \<Rightarrow> ?v[n := x]) = take (Suc n) ?new @ drop (Suc n) vals"
      using n assms(3) by (auto simp: take_Suc_conv_app_nth d list_update_append split: option.splits)
    with Suc.IH n get_real_one_run [OF assms(1,2) n l, of lg] show ?case by (simp add: foldM_append)
  qed
  from this [of "length vr"] assms(3) show ?thesis by (simp add: get_reals_def)
qed

text \<open>A store changes scalars only.\<close>

definition scalars_only :: "('m, 'd) fmu \<Rightarrow> ('m, 'd) fmu \<Rightarrow> bool" where
  "scalars_only f g \<longleftrightarrow> (\<exists>ms md. g = f\<lparr>mem_sv := ms, mem_dbl := md\<rparr> \<and>
     mem_shape ms = mem_shape (mem_sv f) \<and> (\<forall>r i. get_bin ms r i = get_bin (mem_sv f) r i))"

lemma scalars_only_refl [simp]: "scalars_only f f"
  unfolding scalars_only_def by (rule exI [of _ "mem_sv f"], rule exI [of _ "mem_dbl f"]) simp

lemma scalars_only_trans: "scalars_only f g \<Longrightarrow> scalars_only g h \<Longrightarrow> scalars_only f h"
proof -
  assume "scalars_only f g" "scalars_only g h"
  then obtain ms md where "h = f\<lparr>mem_sv := ms, mem_dbl := md\<rparr>" "mem_shape ms = mem_shape (mem_sv f)"
    "\<forall>r i. get_bin ms r i = get_bin (mem_sv f) r i"
    by (auto simp: scalars_only_def)
  then show ?thesis unfolding scalars_only_def by blast
qed

lemma store_get_bin:
  assumes "store f p v = Some g"
  shows "get_bin (mem_sv g) r i = get_bin (mem_sv f) r i"
proof (cases p)
  case (DScalar r' i')
  with assms obtain xs where "mem_sv g = (mem_sv f)[r' := (mem_sv f ! r')\<lparr>sv_scalar := Some (xs[i' := v])\<rparr>]"
    by (auto simp: bind_eq_Some_conv store_sv_Some)
  then show ?thesis by (auto simp: get_bin_def nth_opt_def nth_update_if)
qed (use assms in \<open>auto simp: bind_eq_Some_conv\<close>)

lemma store_scalars_only: "store f p v = Some g \<Longrightarrow> scalars_only f g"
  unfolding scalars_only_def using store_frame [of f p v g] store_get_bin [of f p v g] by blast

lemma load_store_fun: "store f p v = Some g \<Longrightarrow> load g = (load f)(p := Some v)"
  by (rule ext) (simp add: load_store)

lemma input_loc_frame: "scalars_only f g \<Longrightarrow> input_loc L g v = input_loc L f v"
  by (auto simp: scalars_only_def input_loc_def)

lemma get_loc_frame: "scalars_only f g \<Longrightarrow> get_loc L g v = get_loc L f v"
  by (auto simp: scalars_only_def get_loc_def input_loc_def split: option.split)

lemma set_real_one_run:
  assumes "fmu_wf L f" "di_map f = None" "i < length vr" "length vals = length vr"
  shows "\<exists>g. set_real_one lg L vr vals f i = Some g \<and> fmu_wf L g \<and> scalars_only f g \<and>
    load g = (case input_loc L f (vr ! i) of None \<Rightarrow> load f | Some p \<Rightarrow> (load f)(p := Some (vals ! i)))"
proof (cases "input_loc L f (vr ! i)")
  case None
  have "get_double L (scalar_input f) (vr_key (vr ! i)) = Some None"
    using get_double_ok(1) [OF fmu_wf_maps(1) [OF assms(1)]] None by (simp add: input_loc_def)
  with assms None show ?thesis by (simp add: set_real_one_def)
next
  case (Some p)
  have "get_double L (scalar_input f) (vr_key (vr ! i)) = Some (Some p)"
    using get_double_ok(1) [OF fmu_wf_maps(1) [OF assms(1)]] Some by (simp add: input_loc_def)
  moreover obtain g where g: "store f p (vals ! i) = Some g"
    using input_loc_ok [OF assms(1) Some] store_ok [of f p "vals ! i"] by auto
  ultimately show ?thesis
    using assms Some store_wf [OF g assms(1)] store_scalars_only [OF g] load_store_fun [OF g]
    by (simp add: set_real_one_def)
qed

lemma set_reals_run:
  assumes "fmu_wf L f" "di_map f = None" "length vals = length vr"
  shows "\<exists>g. set_reals lg L f vr vals = Some (FmiOK, g) \<and> fmu_wf L g \<and> scalars_only f g \<and>
    load g = assign_inputs L f (zip vr vals) (load f)"
proof -
  have "n \<le> length vr \<Longrightarrow> \<exists>g. foldM (set_real_one lg L vr vals) f [0..<n] = Some g \<and> fmu_wf L g \<and> scalars_only f g \<and>
      load g = assign_inputs L f (take n (zip vr vals)) (load f)" for n
  proof (induction n)
    case 0
    show ?case using assms(1) by (simp add: assign_inputs_def)
  next
    case (Suc n)
    then obtain g where g: "foldM (set_real_one lg L vr vals) f [0..<n] = Some g" "fmu_wf L g" "scalars_only f g"
      "load g = assign_inputs L f (take n (zip vr vals)) (load f)" by auto
    have n: "n < length vr" "n < length (zip vr vals)" using Suc.prems assms(3) by simp_all
    have "di_map g = None" using g(3) assms(2) by (auto simp: scalars_only_def)
    from set_real_one_run [OF g(2) this n(1) assms(3), of lg] obtain h where h:
      "set_real_one lg L vr vals g n = Some h" "fmu_wf L h" "scalars_only g h"
      "load h = (case input_loc L g (vr ! n) of None \<Rightarrow> load g | Some p \<Rightarrow> (load g)(p := Some (vals ! n)))"
      by blast
    have "take (Suc n) (zip vr vals) = take n (zip vr vals) @ [(vr ! n, vals ! n)]"
      using n assms(3) by (simp add: take_Suc_conv_app_nth)
    then have "load h = assign_inputs L f (take (Suc n) (zip vr vals)) (load f)"
      using h(4) g(4) input_loc_frame [OF g(3), of L "vr ! n"]
      by (cases "input_loc L f (vr ! n)") (simp_all add: assign_inputs_def)
    with g(1) h(1,2) scalars_only_trans [OF g(3) h(3)] show ?case by (simp add: foldM_append)
  qed
  from this [of "length vr"] assms(3) show ?thesis by (auto simp: set_reals_def)
qed

subsection \<open>The copies around a step\<close>

definition table_copy :: "(dloc \<Rightarrow> f64 option) \<Rightarrow> marshal_item list \<Rightarrow> (u64 \<Rightarrow> f64) \<Rightarrow> u64 \<Rightarrow> f64" where
  "table_copy st ms t = foldl (\<lambda>t mi. table_put t (mi_variable mi) (the (st (mi_signal mi)))) t ms"

definition signal_copy :: "(u64 \<Rightarrow> f64) \<Rightarrow> marshal_item list \<Rightarrow> (dloc \<Rightarrow> f64 option) \<Rightarrow> dloc \<Rightarrow> f64 option" where
  "signal_copy t ms st = foldl (\<lambda>st mi. st(mi_signal mi := Some (t (mi_variable mi)))) st ms"

lemma load_vt_table [simp]: "load (f\<lparr>vt_table := t\<rparr>) = load f"
  by (rule ext) (simp add: load.simps)

lemma marshal_to_run:
  assumes "\<forall>mi \<in> set ms. dloc_ok (mem_sv f) (mem_dbl f) (mi_signal mi)" "vt_table f = Some t"
  shows "foldM to_table f ms = Some (f\<lparr>vt_table := Some (table_copy (load f) ms t)\<rparr>)"
  using assms
proof (induction ms arbitrary: f t)
  case Nil
  then show ?case by (simp add: table_copy_def)
next
  case (Cons mi ms)
  then obtain x where x: "load f (mi_signal mi) = Some x" using load_ok [of f "mi_signal mi"] by auto
  let ?t = "table_put t (mi_variable mi) x"
  have "foldM to_table (f\<lparr>vt_table := Some ?t\<rparr>) ms = Some (f\<lparr>vt_table := Some (table_copy (load f) ms ?t)\<rparr>)"
    using Cons.IH [of "f\<lparr>vt_table := Some ?t\<rparr>" ?t] Cons.prems by simp
  moreover have "to_table f mi = Some (f\<lparr>vt_table := Some ?t\<rparr>)"
    using x Cons.prems(2) by (simp add: to_table_def)
  ultimately show ?case by (simp add: table_copy_def x)
qed

lemma marshal_to_table_run:
  assumes "fmu_wf L f"
  shows "marshal_to_table f = Some (if vt_marshal_list f = [] then f
     else f\<lparr>vt_table := Some (table_copy (load f) (vt_marshal_list f) (the (vt_table f)))\<rparr>)"
proof (cases "vt_marshal_list f = []")
  case False
  then obtain t where "vt_table f = Some t" using assms by (auto simp: fmu_wf_def)
  with marshal_to_run [of "vt_marshal_list f" f t] assms False show ?thesis
    by (simp add: marshal_to_table_def fmu_wf_def)
qed (simp add: marshal_to_table_def)

lemma marshal_from_run:
  assumes "fmu_wf L f" "\<forall>mi \<in> set ms. dloc_ok (mem_sv f) (mem_dbl f) (mi_signal mi)" "vt_table f = Some t"
  shows "\<exists>g. foldM from_table f ms = Some g \<and>
    fmu_wf L g \<and> scalars_only f g \<and> load g = signal_copy t ms (load f)"
  using assms
proof (induction ms arbitrary: f)
  case Nil
  then show ?case by (simp add: signal_copy_def)
next
  case (Cons mi ms)
  then obtain g where g: "store f (mi_signal mi) (t (mi_variable mi)) = Some g"
    using store_ok [of f "mi_signal mi" "t (mi_variable mi)"] by auto
  note s = store_scalars_only [OF g]
  have t: "vt_table g = Some t" using s Cons.prems(3) by (auto simp: scalars_only_def)
  have "dloc_ok (mem_sv g) (mem_dbl g) p = dloc_ok (mem_sv f) (mem_dbl f) p" for p
    using store_frame(2,3) [OF g] by (rule dloc_ok_shape)
  with Cons.IH [OF store_wf [OF g Cons.prems(1)] _ t] Cons.prems(2) obtain h where
    "foldM from_table g ms = Some h"
    "fmu_wf L h" "scalars_only g h" "load h = signal_copy t ms (load g)" by auto
  moreover have "from_table f mi = Some g" using Cons.prems(3) g by (simp add: from_table_def)
  ultimately show ?case
    using scalars_only_trans [OF s] load_store_fun [OF g] by (auto simp: signal_copy_def)
qed

lemma marshal_from_table_run:
  assumes "fmu_wf L f"
  shows "\<exists>g. marshal_from_table f = Some g \<and> fmu_wf L g \<and> scalars_only f g \<and>
    load g = signal_copy (the (vt_table f)) (vt_marshal_list f) (load f)"
proof (cases "vt_marshal_list f = []")
  case True
  with assms show ?thesis by (simp add: marshal_from_table_def signal_copy_def)
next
  case False
  then obtain t where "vt_table f = Some t" using assms by (auto simp: fmu_wf_def)
  with marshal_from_run [OF assms, of "vt_marshal_list f" t] assms show ?thesis
    by (auto simp: marshal_from_table_def fmu_wf_def)
qed

subsection \<open>Appending to a binary signal\<close>

type_synonym signal_loc = "nat \<times> nat"

definition loc_of :: "svi \<Rightarrow> signal_loc" where
  "loc_of x = (svi_sv x, unat (svi_vi x))"

definition content :: "('m, 'd) fmu \<Rightarrow> signal_loc \<Rightarrow> bytes option" where
  "content f s = map_option bin_content (get_bin (mem_sv f) (fst s) (snd s))"

definition bin_size :: "('m, 'd) fmu \<Rightarrow> signal_loc \<Rightarrow> nat" where
  "bin_size f s = (case get_bin (mem_sv f) (fst s) (snd s) of None \<Rightarrow> 0 | Some b \<Rightarrow> unat (b_len b))"

definition index_at :: "'m clib \<Rightarrow> 'm \<Rightarrow> string \<Rightarrow> svi option" where
  "index_at L m k = (case hm_get L m k of Some (PIndex x) \<Rightarrow> Some x | _ \<Rightarrow> None)"

text \<open>What appending may change: the store of vectors (not its shape), the string map and the log.\<close>

definition binary_only :: "('m, 'd) fmu \<Rightarrow> ('m, 'd) fmu \<Rightarrow> bool" where
  "binary_only f g \<longleftrightarrow> (\<exists>ms si es. g = f\<lparr>mem_sv := ms, string_input := si, log_out := es\<rparr> \<and>
     mem_shape ms = mem_shape (mem_sv f) \<and> map sv_scalar ms = map sv_scalar (mem_sv f))"

lemma binary_only_refl [simp]: "binary_only f f"
  unfolding binary_only_def
  by (rule exI [of _ "mem_sv f"], rule exI [of _ "string_input f"], rule exI [of _ "log_out f"]) simp

lemma binary_only_trans: "binary_only f g \<Longrightarrow> binary_only g h \<Longrightarrow> binary_only f h"
proof -
  assume "binary_only f g" "binary_only g h"
  then obtain ms si es where "h = f\<lparr>mem_sv := ms, string_input := si, log_out := es\<rparr>"
    "mem_shape ms = mem_shape (mem_sv f)" "map sv_scalar ms = map sv_scalar (mem_sv f)"
    by (auto simp: binary_only_def)
  then show ?thesis unfolding binary_only_def by blast
qed

lemma get_index_ok:
  assumes "binary_map_ok L ms m"
  shows "get_index L m k = Some (index_at L m k)" and "index_at L m k = Some x \<Longrightarrow> svi_ok ms x"
proof -
  have "hm_get L m k = None \<or> (\<exists>x. hm_get L m k = Some (PIndex x) \<and> svi_ok ms x)"
    using assms by (cases "hm_get L m k") (auto simp: binary_map_ok_def)
  then show "get_index L m k = Some (index_at L m k)" "index_at L m k = Some x \<Longrightarrow> svi_ok ms x"
    by (auto simp: get_index_def index_at_def)
qed

lemma has_func_ok: "func_map_ok L w m \<Longrightarrow> has_func L m k w = Some (hm_get L m k = Some w)"
  by (cases "hm_get L m k") (auto simp: has_func_def func_map_ok_def)

lemma content_length: "fmu_wf L f \<Longrightarrow> content f s = Some xs \<Longrightarrow> length xs = bin_size f s"
  using bin_content_length [OF get_bin_wf [OF _ fmu_wf_maps(5)]] by (auto simp: content_def bin_size_def)

lemma append_signal_run:
  assumes "buffer_ok L" "fmu_wf L f" "svi_ok (mem_sv f) x" "bin_size f (loc_of x) + length data < 2 ^ 32"
  shows "\<exists>ms. append_signal L f x data = Some (f\<lparr>mem_sv := ms\<rparr>) \<and> fmu_wf L (f\<lparr>mem_sv := ms\<rparr>) \<and>
    binary_only f (f\<lparr>mem_sv := ms\<rparr>) \<and>
    (\<forall>s. content (f\<lparr>mem_sv := ms\<rparr>) s = (if s = loc_of x then map_option (\<lambda>c. c @ data) (content f s) else content f s)) \<and>
    bin_size (f\<lparr>mem_sv := ms\<rparr>) (loc_of x) = bin_size f (loc_of x) + length data"
proof -
  obtain b where b: "get_bin (mem_sv f) (svi_sv x) (unat (svi_vi x)) = Some b"
    using svi_ok_get [OF assms(3)] by blast
  have wf: "bin_wf b" using get_bin_wf [OF b] assms(2) by (simp add: fmu_wf_def)
  have n: "unat (b_len b) + length data < 2 ^ 32" using assms(4) b by (simp add: bin_size_def loc_of_def)
  note a = buffer_okD [OF assms(1) wf n] buffer_append_len [OF assms(1) wf n]
  obtain ms where ms: "put_bin (mem_sv f) (svi_sv x) (unat (svi_vi x)) (buffer_append L b data) = Some ms"
    using put_bin_ok [of "mem_sv f" "svi_sv x" "unat (svi_vi x)"] b by fastforce
  let ?g = "f\<lparr>mem_sv := ms\<rparr>"
  have w: "mem_wf ms" using put_bin_wf [OF ms _ a(1)] assms(2) by (simp add: fmu_wf_def)
  have "fmu_wf L ?g"
    by (rule fmu_wf_update [OF assms(2)]) (use w put_bin_shape [OF ms] in simp_all)
  moreover have "binary_only f ?g"
  proof -
    have "?g = f\<lparr>mem_sv := ms, string_input := string_input f, log_out := log_out f\<rparr>" by simp
    with put_bin_shape [OF ms] put_bin_fields [OF ms] show ?thesis unfolding binary_only_def by blast
  qed
  moreover have "append_signal L f x data = Some ?g" using b ms by (simp add: append_signal_def)
  moreover have "content ?g s = (if s = loc_of x then map_option (\<lambda>c. c @ data) (content f s) else content f s)" for s
    using b a(2) by (cases s) (auto simp: content_def get_put_bin [OF ms] loc_of_def)
  moreover have "bin_size ?g (loc_of x) = bin_size f (loc_of x) + length data"
    using b a(3) by (simp add: bin_size_def loc_of_def get_put_bin [OF ms])
  ultimately show ?thesis by blast
qed

end
