(* ===== verification/Fmi2Fmu.thy ===== *)
theory Fmi2Fmu
  imports FmiAccess
begin

section \<open>The FMI 2 interface of an FMU (dse/fmu/fmi2fmu.c) and the default user FMU (dse/fmu/fmu.c)\<close>

text \<open>
  Every FMI 2 function of the adapter as a function on the instance: it returns \<open>None\<close> when
  the C code faults (a failed \<open>assert\<close>, an invalid access) and otherwise the status and the
  new instance. The handler table, the user FMU and the library are arguments. Functions the
  adapter only carries for packaging return \<open>fmi2OK\<close> or \<open>fmi2Error\<close> as in the source.
\<close>

subsection \<open>The default user FMU\<close>

definition default_fmu_create :: "('m, 'd) fmu \<Rightarrow> (int \<times> ('m, 'd) fmu \<times> ('m, 'd) fmu created) option" where
  "default_fmu_create f = Some (0, f, CreatedSame)"

definition default_fmu_init :: "('m, 'd) fmu \<Rightarrow> (int \<times> ('m, 'd) fmu) option" where
  "default_fmu_init f = Some (0, f)"

definition default_fmu_step :: "('m, 'd) fmu \<Rightarrow> f64 \<Rightarrow> f64 \<Rightarrow> (int \<times> ('m, 'd) fmu) option" where
  "default_fmu_step f point step_size = Some (0, f)"

definition default_fmu_destroy :: "('m, 'd) fmu \<Rightarrow> (int \<times> ('m, 'd) fmu) option" where
  "default_fmu_destroy f = Some (0, f)"

definition default_fmu :: "('m, 'd) fmu_impl" where
  "default_fmu = \<lparr>im_create = default_fmu_create, im_init = default_fmu_init,
     im_step = default_fmu_step, im_destroy = default_fmu_destroy\<rparr>"

subsection \<open>Instantiate\<close>

text \<open>The callbacks: no table, a table without a logger, or one with a logger.\<close>

datatype fmi2_callbacks = NoCallbacks | NoLogger | WithLogger

definition logger_of :: "fmi2_callbacks \<Rightarrow> logger" where
  "logger_of cb = (case cb of WithLogger \<Rightarrow> UserLogger | _ \<Rightarrow> DefaultLogger)"

definition resource_offset :: "string \<Rightarrow> string \<Rightarrow> string \<Rightarrow> nat" where
  "resource_offset scheme short_scheme loc =
    (if strstr loc scheme then length scheme
     else if strstr loc short_scheme then length short_scheme else 0)"

text \<open>
  The part the adapters share, from the first log line to the end: the resource location is
  cut, the maps initialised, the signals set up and the user FMU created. An \<open>errno\<close> is
  logged; an extended instance replaces the first one (the log, that of the process, goes on).
\<close>

definition build_instance ::
  "('m, 'd) logf \<Rightarrow> 'm clib \<Rightarrow> ('m, 'd) signal_vtable \<Rightarrow> ('m, 'd) fmu_impl \<Rightarrow> string \<Rightarrow> string
     \<Rightarrow> ('m, 'd) fmu \<Rightarrow> ('m, 'd) fmu option" where
  "build_instance lg L H I scheme short_scheme f0 = do {
     let f1 = lg f0 0 (Some ''Debug'') ''FMU Model instantiated'';
     let loc = inst_resource_location f1;
     let f2 = f1\<lparr>inst_save_resource_location := loc,
                inst_resource_location := drop (resource_offset scheme short_scheme loc) loc\<rparr>;
     let f3 = lg f2 0 (Some ''Debug'') (''Resource location: '' @ inst_resource_location f2);
     let f4 = lg f3 0 (Some ''Debug'') ''Build indexes...'';
     let f5 = f4\<lparr>scalar_input := hm_init L, scalar_output := hm_init L, string_input := hm_init L,
                string_output := hm_init L, binary_rx := hm_init L, binary_tx := hm_init L,
                encode_func := hm_init L, decode_func := hm_init L\<rparr>;
     f6 \<leftarrow> call_handler (vt_setup H) f5;
     (err, f7, created) \<leftarrow> im_create I (f6\<lparr>free_list := []\<rparr>);
     let f8 = (if err \<noteq> 0 then lg f7 3 (Some ''Error'')
                 (''The FMU was not created correctly! (errro = '' @ show_int err @ '')'') else f7);
     let f9 = (case created of CreatedExtended g \<Rightarrow> g\<lparr>log_out := log_out f8\<rparr> | _ \<Rightarrow> f8);
     Some (if vt_table f9 = None then lg f9 0 (Some ''Debug'') ''FMU Var Table is not configured'' else f9) }"

definition fmi2Instantiate ::
  "'m clib \<Rightarrow> ('m, 'd) signal_vtable \<Rightarrow> ('m, 'd) fmu_impl \<Rightarrow> string \<Rightarrow> string \<Rightarrow> 'm \<Rightarrow> 'd
     \<Rightarrow> string \<Rightarrow> nat \<Rightarrow> string \<Rightarrow> string \<Rightarrow> fmi2_callbacks \<Rightarrow> bool \<Rightarrow> bool \<Rightarrow> ('m, 'd) fmu option" where
  "fmi2Instantiate L H I scheme short_scheme m0 d0 instance_name fmu_type guid location cb visible logging_on =
    build_instance fmu_log2 L H I scheme short_scheme
      ((zero_fmu m0 d0)\<lparr>inst_name := instance_name, inst_type := fmu_type,
         inst_resource_location := location, inst_guid := guid, inst_log_enabled := logging_on,
         inst_version := 2, inst_logger := logger_of cb,
         inst_log_categories := (if logging_on then or (or (or (category_flag ''Debug'') (category_flag ''Info''))
            (category_flag ''Error'')) (category_flag ''Fatal'') else 0)\<rparr>)"

definition fmi2ExitInitializationMode :: "('m, 'd) fmu_impl \<Rightarrow> ('m, 'd) fmu option \<Rightarrow> (fmi_status \<times> ('m, 'd) fmu) option" where
  "fmi2ExitInitializationMode I c = do { f \<leftarrow> c; exit_init I f }"

subsection \<open>Reals\<close>

definition fmi2GetReal ::
  "'m clib \<Rightarrow> ('m, 'd) fmu option \<Rightarrow> u32 list \<Rightarrow> f64 list \<Rightarrow> (fmi_status \<times> ('m, 'd) fmu \<times> f64 list) option" where
  "fmi2GetReal L c vr value = do { f \<leftarrow> c; get_reals fmu_log2 L f vr value }"

definition fmi2SetReal ::
  "'m clib \<Rightarrow> ('m, 'd) fmu option \<Rightarrow> u32 list \<Rightarrow> f64 list \<Rightarrow> (fmi_status \<times> ('m, 'd) fmu) option" where
  "fmi2SetReal L c vr value = do { f \<leftarrow> c; set_reals fmu_log2 L f vr value }"

subsection \<open>Strings\<close>

text \<open>\<open>strdup\<close> of a buffer reads to the first NUL; without one it runs past the buffer.\<close>

definition c_string :: "bytes \<Rightarrow> bytes option" where
  "c_string xs = (if 0 \<in> set xs then Some (takeWhile (\<lambda>x. x \<noteq> 0) xs) else None)"

definition get_string_one ::
  "'m clib \<Rightarrow> u32 list \<Rightarrow> ('m, 'd) fmu \<times> bytes option list \<Rightarrow> nat \<Rightarrow> (('m, 'd) fmu \<times> bytes option list) option" where
  "get_string_one L vr s i = (case s of (f, value) \<Rightarrow> do {
     value1 \<leftarrow> upd_opt value i None;
     v \<leftarrow> nth_opt vr i;
     idx \<leftarrow> get_index L (binary_tx f) (vr_key v);
     case idx of None \<Rightarrow> Some (f, value1)
     | Some x \<Rightarrow> do {
         b \<leftarrow> get_bin (mem_sv f) (svi_sv x) (unat (svi_vi x));
         case b_buf b of None \<Rightarrow> Some (f, value1)
         | Some buf \<Rightarrow>
             if b_len b = 0 then Some (f, value1)
             else do {
               f1 \<leftarrow> fmi2_log_binary_signal f (Some x) ''GetString'';
               ef \<leftarrow> has_func L (encode_func f1) (vr_key v) PEncode;
               text \<leftarrow> (if ef then Some (ascii85_encode L (take (unat (b_len b)) buf)) else c_string buf);
               value2 \<leftarrow> upd_opt value1 i (Some text);
               Some (f1\<lparr>free_list := free_list f1 @ [text]\<rparr>, value2) } } })"

definition fmi2GetString ::
  "'m clib \<Rightarrow> ('m, 'd) fmu option \<Rightarrow> u32 list \<Rightarrow> bytes option list \<Rightarrow> (fmi_status \<times> ('m, 'd) fmu \<times> bytes option list) option" where
  "fmi2GetString L c vr value = do {
     f \<leftarrow> c;
     (g, value') \<leftarrow> foldM (get_string_one L vr) (f\<lparr>free_list := []\<rparr>, value) [0..<length vr];
     Some (FmiOK, g, value') }"

text \<open>One value of \<open>fmi2SetString\<close>: a string for an unknown reference is stored as such.\<close>

definition set_string_one ::
  "'m clib \<Rightarrow> u32 list \<Rightarrow> bytes option list \<Rightarrow> ('m, 'd) fmu \<Rightarrow> nat \<Rightarrow> ('m, 'd) fmu option" where
  "set_string_one L vr value f i = do {
     item \<leftarrow> nth_opt value i;
     case item of None \<Rightarrow> Some f
     | Some text \<Rightarrow> do {
         v \<leftarrow> nth_opt vr i;
         idx \<leftarrow> get_index L (binary_rx f) (vr_key v);
         case idx of
           None \<Rightarrow> Some (f\<lparr>string_input := hm_set L (string_input f) (vr_key v) (PString text)\<rparr>)
         | Some x \<Rightarrow> do {
             df \<leftarrow> has_func L (decode_func f) (vr_key v) PDecode;
             let data = (if df then ascii85_decode L text else text);
             g \<leftarrow> append_signal L f x data;
             fmi2_log_binary_signal g (Some x) ''SetString'' } } }"

definition fmi2SetString ::
  "'m clib \<Rightarrow> ('m, 'd) signal_vtable \<Rightarrow> ('m, 'd) fmu option \<Rightarrow> u32 list \<Rightarrow> bytes option list \<Rightarrow> (fmi_status \<times> ('m, 'd) fmu) option" where
  "fmi2SetString L H c vr value = do {
     f \<leftarrow> c;
     f1 \<leftarrow> call_handler (vt_reset H) f;
     g \<leftarrow> foldM (set_string_one L vr value) f1 [0..<length vr];
     Some (FmiOK, g) }"

subsection \<open>Step and release\<close>

definition fmi2DoStep ::
  "('m, 'd) signal_vtable \<Rightarrow> ('m, 'd) fmu_impl \<Rightarrow> ('m, 'd) fmu option \<Rightarrow> f64 \<Rightarrow> f64 \<Rightarrow> bool \<Rightarrow> (fmi_status \<times> ('m, 'd) fmu) option" where
  "fmi2DoStep H I c point step_size noset = do { f \<leftarrow> c; do_step H I f point step_size }"

text \<open>The instance just before it is freed: its table, lists and maps are released.\<close>

definition release_instance ::
  "('m, 'd) logf \<Rightarrow> 'm clib \<Rightarrow> ('m, 'd) signal_vtable \<Rightarrow> ('m, 'd) fmu_impl \<Rightarrow> string \<Rightarrow> ('m, 'd) fmu \<Rightarrow> ('m, 'd) fmu option" where
  "release_instance lg L H I msg f = do {
     (rc, f1) \<leftarrow> im_destroy I f;
     let f2 = (if rc < 0 then lg f1 3 (Some ''Error'') msg else f1);
     f3 \<leftarrow> call_handler (vt_remove H) f2;
     let f4 = lg f3 0 (Some ''Debug'') ''Release var table'';
     let f5 = lg (f4\<lparr>vt_table := None, vt_marshal_list := [], vt_var_list := []\<rparr>) 0 (Some ''Debug'') ''Destroy the index'';
     let f6 = f5\<lparr>scalar_input := hm_init L, scalar_output := hm_init L, string_input := hm_init L,
                string_output := hm_init L, binary_rx := hm_init L, binary_tx := hm_init L,
                encode_func := hm_init L, decode_func := hm_init L, free_list := []\<rparr>;
     Some (lg f6 0 (Some ''Debug'') ''Release FMI instance resources'') }"

definition fmi2FreeInstance ::
  "'m clib \<Rightarrow> ('m, 'd) signal_vtable \<Rightarrow> ('m, 'd) fmu_impl \<Rightarrow> ('m, 'd) fmu option \<Rightarrow> ('m, 'd) fmu option" where
  "fmi2FreeInstance L H I c = do { f \<leftarrow> c; release_instance fmu_log2 L H I ''Could not release model'' f }"

subsection \<open>Functions carried for packaging only\<close>

datatype fmi2_stub =
    Fmi2SetupExperiment | Fmi2EnterInitializationMode
  | Fmi2GetInteger | Fmi2GetBoolean | Fmi2SetInteger | Fmi2SetBoolean
  | Fmi2GetStatus | Fmi2GetRealStatus | Fmi2GetIntegerStatus | Fmi2GetBooleanStatus | Fmi2GetStringStatus
  | Fmi2SetRealInputDerivatives | Fmi2GetRealOutputDerivatives | Fmi2CancelStep

datatype fmi2_state_stub =
    Fmi2GetFMUstate | Fmi2SetFMUstate | Fmi2FreeFMUstate
  | Fmi2SerializedFMUstateSize | Fmi2SerializeFMUstate | Fmi2DeSerializeFMUstate
  | Fmi2GetDirectionalDerivative | Fmi2Reset | Fmi2Terminate

definition fmi2_stub_call :: "fmi2_stub \<Rightarrow> ('m, 'd) fmu option \<Rightarrow> (fmi_status \<times> ('m, 'd) fmu) option" where
  "fmi2_stub_call s c = do { f \<leftarrow> c; Some (FmiOK, f) }"

definition fmi2_state_stub_call :: "fmi2_state_stub \<Rightarrow> ('m, 'd) fmu option \<Rightarrow> (fmi_status \<times> ('m, 'd) fmu) option" where
  "fmi2_state_stub_call s c = do { f \<leftarrow> c; Some (FmiOK, f) }"

subsection \<open>What \<open>fmi2SetString\<close> stores\<close>

text \<open>The bytes one value contributes to the signal \<open>s\<close>, and those of all values in order.\<close>

definition decoded :: "'m clib \<Rightarrow> ('m, 'd) fmu \<Rightarrow> string \<Rightarrow> bytes \<Rightarrow> bytes" where
  "decoded L f k text = (if hm_get L (decode_func f) k = Some PDecode then ascii85_decode L text else text)"

definition chunk_for :: "'m clib \<Rightarrow> ('m, 'd) fmu \<Rightarrow> signal_loc \<Rightarrow> u32 \<times> bytes option \<Rightarrow> bytes" where
  "chunk_for L f s p = (case snd p of None \<Rightarrow> [] | Some text \<Rightarrow>
     (case index_at L (binary_rx f) (vr_key (fst p)) of None \<Rightarrow> []
      | Some x \<Rightarrow> if loc_of x = s then decoded L f (vr_key (fst p)) text else []))"

definition addressed :: "'m clib \<Rightarrow> ('m, 'd) fmu \<Rightarrow> signal_loc \<Rightarrow> (u32 \<times> bytes option) list \<Rightarrow> bytes" where
  "addressed L f s items = concat (map (chunk_for L f s) items)"

lemma chunk_cong:
  "binary_rx g = binary_rx f \<Longrightarrow> decode_func g = decode_func f \<Longrightarrow> chunk_for L g s = chunk_for L f s"
  by (rule ext) (simp add: chunk_for_def decoded_def split: option.split)

lemma addressed_cong:
  "binary_rx g = binary_rx f \<Longrightarrow> decode_func g = decode_func f \<Longrightarrow> addressed L g s items = addressed L f s items"
  by (simp add: addressed_def chunk_cong [of g f])

lemma addressed_Nil [simp]: "addressed L f s [] = []"
  by (simp add: addressed_def)

lemma addressed_append [simp]: "addressed L f s (xs @ ys) = addressed L f s xs @ addressed L f s ys"
  by (simp add: addressed_def)

lemma addressed_take: "length (addressed L f s (take n items)) \<le> length (addressed L f s items)"
  by (metis addressed_append append_take_drop_id le_add1 length_append)

lemma binary_only_maps:
  "binary_only f g \<Longrightarrow> binary_rx g = binary_rx f \<and> decode_func g = decode_func f \<and>
     (\<forall>x. svi_ok (mem_sv g) x = svi_ok (mem_sv f) x)"
proof -
  assume "binary_only f g"
  then obtain ms si es where g: "g = f\<lparr>mem_sv := ms, string_input := si, log_out := es\<rparr>"
    "mem_shape ms = mem_shape (mem_sv f)" by (auto simp: binary_only_def)
  with svi_ok_shape [OF g(2)] show ?thesis by simp
qed

lemma decoded_frame: "binary_only f g \<Longrightarrow> decoded L g k text = decoded L f k text"
  using binary_only_maps [of f g] by (simp add: decoded_def)

lemma string_map_wf:
  "fmu_wf L f \<Longrightarrow> fmu_wf L (f\<lparr>string_input := m\<rparr>)" "fmu_wf L f \<Longrightarrow> fmu_wf L (f\<lparr>log_out := es\<rparr>)"
  by (simp_all add: fmu_wf_def)

lemma string_map_binary_only: "binary_only f (f\<lparr>string_input := m\<rparr>)" "binary_only f (f\<lparr>log_out := es\<rparr>)"
proof -
  have "f\<lparr>string_input := m\<rparr> = f\<lparr>mem_sv := mem_sv f, string_input := m, log_out := log_out f\<rparr>"
    "f\<lparr>log_out := es\<rparr> = f\<lparr>mem_sv := mem_sv f, string_input := string_input f, log_out := es\<rparr>" by simp_all
  then show "binary_only f (f\<lparr>string_input := m\<rparr>)" "binary_only f (f\<lparr>log_out := es\<rparr>)"
    unfolding binary_only_def by blast+
qed

lemma content_same_mem: "mem_sv g = mem_sv f \<Longrightarrow> content g s = content f s"
  by (simp add: content_def)

lemma set_string_one_run:
  assumes "buffer_ok L" "fmu_wf L f" "i < length vr" "length value = length vr"
    "\<And>x. index_at L (binary_rx f) (vr_key (vr ! i)) = Some x \<Longrightarrow>
       bin_size f (loc_of x) + length (chunk_for L f (loc_of x) (vr ! i, value ! i)) + 16 \<le> 2 ^ 32"
  shows "\<exists>g. set_string_one L vr value f i = Some g \<and> fmu_wf L g \<and> binary_only f g \<and>
    (\<forall>s. content g s = map_option (\<lambda>c. c @ chunk_for L f s (vr ! i, value ! i)) (content f s))"
proof (cases "value ! i")
  case None
  with assms show ?thesis by (simp add: set_string_one_def chunk_for_def option.map_ident)
next
  case (Some str)
  let ?k = "vr_key (vr ! i)"
  note gi = get_index_ok [OF fmu_wf_maps(3) [OF assms(2)], of ?k]
  show ?thesis
  proof (cases "index_at L (binary_rx f) ?k")
    case None
    let ?g = "f\<lparr>string_input := hm_set L (string_input f) ?k (PString str)\<rparr>"
    have "set_string_one L vr value f i = Some ?g"
      using assms(3,4) Some None gi(1) by (simp add: set_string_one_def)
    moreover have "content ?g s = map_option (\<lambda>c. c @ chunk_for L f s (vr ! i, value ! i)) (content f s)" for s
      using Some None by (simp add: chunk_for_def option.map_ident content_def)
    moreover note string_map_wf(1) [OF assms(2)] string_map_binary_only(1)
    ultimately show ?thesis by (intro exI [of _ ?g] conjI allI)
  next
    case x: (Some x)
    let ?d = "decoded L f ?k str"
    have sx: "svi_ok (mem_sv f) x" by (rule gi(2) [OF x])
    have ch: "chunk_for L f s (vr ! i, value ! i) = (if s = loc_of x then ?d else [])" for s
      using Some x by (auto simp: chunk_for_def)
    from assms(5) [OF x] have n: "bin_size f (loc_of x) + length ?d + 16 \<le> 2 ^ 32" by (simp add: ch)
    then obtain ms where a: "append_signal L f x ?d = Some (f\<lparr>mem_sv := ms\<rparr>)" "fmu_wf L (f\<lparr>mem_sv := ms\<rparr>)"
      "binary_only f (f\<lparr>mem_sv := ms\<rparr>)"
      "\<forall>s. content (f\<lparr>mem_sv := ms\<rparr>) s = (if s = loc_of x then map_option (\<lambda>c. c @ ?d) (content f s) else content f s)"
      "bin_size (f\<lparr>mem_sv := ms\<rparr>) (loc_of x) = bin_size f (loc_of x) + length ?d"
      using append_signal_run [OF assms(1,2) sx, of ?d] by auto
    let ?f1 = "f\<lparr>mem_sv := ms\<rparr>"
    have sx1: "svi_ok (mem_sv ?f1) x" using binary_only_maps [OF a(3)] sx by simp
    have "unat (b_len b) + 16 \<le> 2 ^ 32" if "get_bin (mem_sv ?f1) (svi_sv x) (unat (svi_vi x)) = Some b" for b
      using that a(5) n by (simp add: bin_size_def loc_of_def)
    from log2.log_binary_frame [OF fmu_wf_maps(5) [OF a(2)] sx1 this, of "''SetString''"] obtain es where
      l: "fmi2_log_binary_signal ?f1 (Some x) ''SetString'' = Some (?f1\<lparr>log_out := log_out ?f1 @ es\<rparr>)"
      by (auto simp: fmi2_log_binary_signal_def)
    let ?g = "?f1\<lparr>log_out := log_out ?f1 @ es\<rparr>"
    have "set_string_one L vr value f i = Some ?g"
      using assms(3,4) Some x gi(1) l a(1) has_func_ok [OF fmu_wf_maps(7) [OF assms(2)], of ?k]
      by (simp add: set_string_one_def decoded_def)
    moreover have "binary_only f ?g" by (rule binary_only_trans [OF a(3) string_map_binary_only(2)])
    moreover have "content ?g s = map_option (\<lambda>c. c @ chunk_for L f s (vr ! i, value ! i)) (content f s)" for s
      using a(4) [rule_format, of s] content_same_mem [of ?g ?f1 s] by (auto simp: ch option.map_ident)
    moreover note string_map_wf(2) [OF a(2)]
    ultimately show ?thesis by (intro exI [of _ ?g] conjI allI)
  qed
qed

lemma chunk_frame: "binary_only f g \<Longrightarrow> chunk_for L g s p = chunk_for L f s p"
  using binary_only_maps [of f g] decoded_frame [of f g L] by (simp add: chunk_for_def split: option.split)

definition room_for :: "'m clib \<Rightarrow> ('m, 'd) fmu \<Rightarrow> (u32 \<times> bytes option) list \<Rightarrow> bool" where
  "room_for L f items \<longleftrightarrow> (\<forall>s c. content f s = Some c \<longrightarrow> length c + length (addressed L f s items) + 16 \<le> 2 ^ 32)"

text \<open>
  A loop whose body appends the chunk of its item to the addressed signals: the bodies of
  \<open>fmi2SetString\<close> and \<open>fmi3SetBinary\<close>. \<open>st\<close> is the instance within the loop's state.
\<close>

lemma append_loop:
  fixes st :: "'x \<Rightarrow> ('m, 'd) fmu" and extra :: "'x \<Rightarrow> bool"
  assumes step: "\<And>u i. i < length items \<Longrightarrow> fmu_wf L (st u) \<Longrightarrow> binary_only f (st u) \<Longrightarrow> extra u \<Longrightarrow>
      (\<And>x. index_at L (binary_rx (st u)) (vr_key (fst (items ! i))) = Some x \<Longrightarrow>
         bin_size (st u) (loc_of x) + length (chunk_for L (st u) (loc_of x) (items ! i)) + 16 \<le> 2 ^ 32) \<Longrightarrow>
      \<exists>v. one u i = Some v \<and> extra v \<and> fmu_wf L (st v) \<and> binary_only (st u) (st v) \<and>
        (\<forall>s. content (st v) s = map_option (\<lambda>c. c @ chunk_for L (st u) s (items ! i)) (content (st u) s))"
    and start: "st init = f" "extra init" "fmu_wf L f" "room_for L f items"
  shows "\<exists>v. foldM one init [0..<length items] = Some v \<and> extra v \<and> fmu_wf L (st v) \<and> binary_only f (st v) \<and>
    (\<forall>s. content (st v) s = map_option (\<lambda>c. c @ addressed L f s items) (content f s))"
proof -
  have "n \<le> length items \<Longrightarrow> \<exists>v. foldM one init [0..<n] = Some v \<and> extra v \<and> fmu_wf L (st v) \<and> binary_only f (st v) \<and>
    (\<forall>s. content (st v) s = map_option (\<lambda>c. c @ addressed L f s (take n items)) (content f s))" for n
  proof (induction n)
    case 0
    show ?case using start by (simp add: option.map_ident)
  next
    case (Suc n)
    then obtain u where u: "foldM one init [0..<n] = Some u" "extra u" "fmu_wf L (st u)" "binary_only f (st u)"
      "\<And>s. content (st u) s = map_option (\<lambda>c. c @ addressed L f s (take n items)) (content f s)" by auto
    have n: "n < length items" using Suc.prems by simp
    have sp: "addressed L f s (take (Suc n) items) = addressed L f s (take n items) @ chunk_for L f s (items ! n)" for s
      using n by (simp add: take_Suc_conv_app_nth addressed_def)
    have "bin_size (st u) (loc_of x) + length (chunk_for L (st u) (loc_of x) (items ! n)) + 16 \<le> 2 ^ 32"
      if "index_at L (binary_rx (st u)) (vr_key (fst (items ! n))) = Some x" for x
    proof -
      from get_index_ok(2) [OF fmu_wf_maps(3) [OF u(3)] that] obtain b where
        "get_bin (mem_sv (st u)) (svi_sv x) (unat (svi_vi x)) = Some b" by (auto dest: svi_ok_get)
      then obtain d where d: "content (st u) (loc_of x) = Some d" by (simp add: content_def loc_of_def)
      then obtain c where c: "content f (loc_of x) = Some c" "d = c @ addressed L f (loc_of x) (take n items)"
        using u(5) by auto
      from start(4) c(1) have "length c + length (addressed L f (loc_of x) items) + 16 \<le> 2 ^ 32" unfolding room_for_def by blast
      moreover have "length (addressed L f (loc_of x) (take (Suc n) items)) \<le> length (addressed L f (loc_of x) items)"
        by (rule addressed_take)
      ultimately show ?thesis
        using content_length [OF u(3) d] c(2) chunk_frame [OF u(4)] by (simp add: sp)
    qed
    from step [OF n u(3,4,2) this] obtain v where v: "one u n = Some v" "extra v" "fmu_wf L (st v)" "binary_only (st u) (st v)"
      "\<And>s. content (st v) s = map_option (\<lambda>c. c @ chunk_for L (st u) s (items ! n)) (content (st u) s)" by blast
    have "content (st v) s = map_option (\<lambda>c. c @ addressed L f s (take (Suc n) items)) (content f s)" for s
      by (simp add: v(5) u(5) sp chunk_frame [OF u(4)] option.map_comp comp_def)
    with u(1) v(1-3) binary_only_trans [OF u(4) v(4)] show ?case by (simp add: foldM_append)
  qed
  from this [of "length items"] show ?thesis by simp
qed

lemma set_string_loop:
  assumes "buffer_ok L" "fmu_wf L f" "length value = length vr" "room_for L f (zip vr value)"
  shows "\<exists>g. foldM (set_string_one L vr value) f [0..<length vr] = Some g \<and> fmu_wf L g \<and> binary_only f g \<and>
    (\<forall>s. content g s = map_option (\<lambda>c. c @ addressed L f s (zip vr value)) (content f s))"
proof -
  have "\<exists>v. foldM (set_string_one L vr value) f [0..<length (zip vr value)] = Some v \<and> True \<and> fmu_wf L (id v) \<and>
      binary_only f (id v) \<and> (\<forall>s. content (id v) s = map_option (\<lambda>c. c @ addressed L f s (zip vr value)) (content f s))"
  proof (rule append_loop [where extra = "\<lambda>_. True"])
    fix u :: "('a, 'b) fmu" and i
    let ?p = "zip vr value ! i"
    assume a: "i < length (zip vr value)" "fmu_wf L (id u)"
      and b: "\<And>x. index_at L (binary_rx (id u)) (vr_key (fst ?p)) = Some x \<Longrightarrow>
        bin_size (id u) (loc_of x) + length (chunk_for L (id u) (loc_of x) ?p) + 16 \<le> 2 ^ 32"
    have i: "i < length vr" and p: "?p = (vr ! i, value ! i)" using a(1) by simp_all
    have "bin_size u (loc_of x) + length (chunk_for L u (loc_of x) (vr ! i, value ! i)) + 16 \<le> 2 ^ 32"
      if "index_at L (binary_rx u) (vr_key (vr ! i)) = Some x" for x
      using b [of x] that unfolding p by simp
    from set_string_one_run [OF assms(1) _ i assms(3) this] a(2)
    show "\<exists>v. set_string_one L vr value u i = Some v \<and> True \<and> fmu_wf L (id v) \<and> binary_only (id u) (id v) \<and>
      (\<forall>s. content (id v) s = map_option (\<lambda>c. c @ chunk_for L (id u) s ?p) (content (id u) s))"
      unfolding p by simp
  qed (use assms in simp_all)
  then show ?thesis using assms(3) by simp
qed

context signal_handlers begin

lemma content_emptied:
  assumes "emptied f g"
  shows "content g s = map_option (\<lambda>_. []) (content f s)"
  using assms by (cases s) (auto simp: emptied_def content_def option.map_comp comp_def)

lemma reset_content:
  assumes "inv f" "call_handler (vt_reset H) f = Some g"
  shows "content g s = (if signals_reset f then content f s else map_option (\<lambda>_. []) (content f s))"
  using reset_run [OF assms(1)] assms(2) content_emptied [of f g s] by auto

lemma inv_binary_only: "inv f \<Longrightarrow> binary_only f g \<Longrightarrow> fmu_wf L g \<Longrightarrow> inv g"
proof -
  assume i: "inv f" and b: "binary_only f g" and w: "fmu_wf L g"
  from b obtain ms si es where "g = f\<lparr>mem_sv := ms, string_input := si, log_out := es\<rparr>"
    "mem_shape ms = mem_shape (mem_sv f)" by (auto simp: binary_only_def)
  then show "inv g" by (intro inv_frame [OF i w]) simp_all
qed

lemma reset_frame:
  assumes "inv f"
  shows "\<exists>g. call_handler (vt_reset H) f = Some g \<and> inv g \<and> signals_reset g \<and>
    binary_rx g = binary_rx f \<and> decode_func g = decode_func f"
proof -
  from reset_run [OF assms] obtain g where r: "call_handler (vt_reset H) f = Some g" "inv g"
    "if signals_reset f then g = f else emptied f g" by blast
  then have "g = f \<and> signals_reset f \<or> g = f\<lparr>mem_sv := mem_sv g, nc_heap := nc_heap g, signals_reset := True\<rparr>"
    by (simp add: emptied_def split: if_splits)
  then obtain ms h where "g = f \<and> signals_reset f \<or> g = f\<lparr>mem_sv := ms, nc_heap := h, signals_reset := True\<rparr>" by blast
  with r(1,2) show ?thesis by (intro exI [of _ g]) auto
qed

lemma set_string_run:
  assumes "buffer_ok L" "inv f" "length value = length vr"
    "\<And>g. call_handler (vt_reset H) f = Some g \<Longrightarrow> room_for L g (zip vr value)"
  shows "\<exists>g. fmi2SetString L H (Some f) vr value = Some (FmiOK, g) \<and> inv g \<and> signals_reset g \<and>
    (\<forall>s. content g s = map_option (\<lambda>c. (if signals_reset f then c else []) @ addressed L f s (zip vr value)) (content f s))"
proof -
  from reset_frame [OF assms(2)] obtain f1 where r: "call_handler (vt_reset H) f = Some f1" "inv f1" "signals_reset f1"
    "binary_rx f1 = binary_rx f" "decode_func f1 = decode_func f" by blast
  from set_string_loop [OF assms(1) inv_wf [OF r(2)] assms(3) assms(4) [OF r(1)]] obtain g where
    g: "foldM (set_string_one L vr value) f1 [0..<length vr] = Some g" "fmu_wf L g" "binary_only f1 g"
      "\<And>s. content g s = map_option (\<lambda>c. c @ addressed L f1 s (zip vr value)) (content f1 s)"
    using assms(3) by auto
  have "content g s = map_option (\<lambda>c. (if signals_reset f then c else []) @ addressed L f s (zip vr value)) (content f s)" for s
    by (simp add: g(4) addressed_cong [OF r(4,5)] reset_content [OF assms(2) r(1)] option.map_comp comp_def)
  moreover have "signals_reset g" using g(3) r(3) by (auto simp: binary_only_def)
  moreover have "fmi2SetString L H (Some f) vr value = Some (FmiOK, g)"
    using r(1) g(1) by (simp add: fmi2SetString_def)
  moreover note inv_binary_only [OF r(2) g(3,2)]
  ultimately show ?thesis by blast
qed

end

subsection \<open>What \<open>fmi2GetString\<close> returns\<close>

text \<open>
  The string of a reference: none for an unknown or empty signal, the encoded content with an
  encoder, else the text up to the first NUL of the buffer.
\<close>

definition buf_of :: "bin \<Rightarrow> bytes" where
  "buf_of b = (case b_buf b of None \<Rightarrow> [] | Some buf \<Rightarrow> buf)"

definition string_value :: "'m clib \<Rightarrow> ('m, 'd) fmu \<Rightarrow> u32 \<Rightarrow> bytes option" where
  "string_value L f v = do {
     x \<leftarrow> index_at L (binary_tx f) (vr_key v);
     b \<leftarrow> get_bin (mem_sv f) (svi_sv x) (unat (svi_vi x));
     if b_len b = 0 then None
     else if hm_get L (encode_func f) (vr_key v) = Some PEncode then Some (ascii85_encode L (bin_content b))
     else c_string (buf_of b) }"

definition string_readable :: "'m clib \<Rightarrow> ('m, 'd) fmu \<Rightarrow> u32 \<Rightarrow> bool" where
  "string_readable L f v \<longleftrightarrow> (\<forall>x b. index_at L (binary_tx f) (vr_key v) = Some x \<longrightarrow>
     get_bin (mem_sv f) (svi_sv x) (unat (svi_vi x)) = Some b \<longrightarrow> b_len b \<noteq> 0 \<longrightarrow>
       unat (b_len b) + 16 \<le> 2 ^ 32 \<and>
       (hm_get L (encode_func f) (vr_key v) = Some PEncode \<or> (\<exists>buf. b_buf b = Some buf \<and> 0 \<in> set buf)))"

lemma get_string_one_run:
  assumes "fmu_wf L f" "i < length vr" "length value = length vr" "string_readable L f (vr ! i)"
  shows "\<exists>es. get_string_one L vr (f, value) i = Some (f\<lparr>log_out := log_out f @ es,
      free_list := free_list f @ (case string_value L f (vr ! i) of None \<Rightarrow> [] | Some s \<Rightarrow> [s])\<rparr>,
    value[i := string_value L f (vr ! i)])"
proof -
  let ?k = "vr_key (vr ! i)"
  note gi = get_index_ok [OF fmu_wf_maps(4) [OF assms(1)], of ?k]
  have same: "f\<lparr>log_out := log_out f @ [], free_list := free_list f @ []\<rparr> = f" by simp
  show ?thesis
  proof (cases "index_at L (binary_tx f) ?k")
    case None
    then have "get_string_one L vr (f, value) i = Some (f, value[i := None])" "string_value L f (vr ! i) = None"
      using assms(2,3) gi(1) by (simp_all add: get_string_one_def string_value_def)
    then show ?thesis by (intro exI [of _ "[]"]) simp
  next
    case x: (Some x)
    obtain b where b: "get_bin (mem_sv f) (svi_sv x) (unat (svi_vi x)) = Some b"
      using svi_ok_get [OF gi(2) [OF x]] by blast
    have wf: "bin_wf b" using get_bin_wf [OF b fmu_wf_maps(5) [OF assms(1)]] .
    show ?thesis
    proof (cases "b_len b = 0")
      case True
      then have "get_string_one L vr (f, value) i = Some (f, value[i := None])" "string_value L f (vr ! i) = None"
        using assms(2,3) gi(1) x b by (simp_all add: get_string_one_def string_value_def split: option.split)
      then show ?thesis by (intro exI [of _ "[]"]) simp
    next
      case False
      with wf obtain buf where buf: "b_buf b = Some buf" by (cases "b_buf b") (auto simp: bin_wf_def)
      from assms(4) x b False have rd: "unat (b_len b) + 16 \<le> 2 ^ 32"
        "hm_get L (encode_func f) ?k = Some PEncode \<or> 0 \<in> set buf"
        using buf by (auto simp: string_readable_def)
      have "\<And>c. get_bin (mem_sv f) (svi_sv x) (unat (svi_vi x)) = Some c \<Longrightarrow> unat (b_len c) + 16 \<le> 2 ^ 32"
        using b rd(1) by simp
      from log2.log_binary_frame [OF fmu_wf_maps(5) [OF assms(1)] gi(2) [OF x] this, of "''GetString''"] obtain es where
        l: "fmi2_log_binary_signal f (Some x) ''GetString'' = Some (f\<lparr>log_out := log_out f @ es\<rparr>)"
        by (auto simp: fmi2_log_binary_signal_def)
      obtain s where s: "string_value L f (vr ! i) = Some s"
        "(if hm_get L (encode_func f) ?k = Some PEncode then Some (ascii85_encode L (take (unat (b_len b)) buf)) else c_string buf) = Some s"
        using rd(2) x b False buf
        by (cases "hm_get L (encode_func f) ?k = Some PEncode")
          (auto simp: string_value_def c_string_def bin_content_def buf_of_def)
      have hf: "has_func L (encode_func (f\<lparr>log_out := log_out f @ es\<rparr>)) ?k PEncode = Some (hm_get L (encode_func f) ?k = Some PEncode)"
        using has_func_ok [OF fmu_wf_maps(6) [OF assms(1)]] by simp
      have "get_string_one L vr (f, value) i = Some (f\<lparr>log_out := log_out f @ es, free_list := free_list f @ [s]\<rparr>, value[i := Some s])"
        using assms(2,3) gi(1) x b buf False l s(2) hf by (simp add: get_string_one_def)
      then show ?thesis by (intro exI [of _ es]) (simp add: s(1))
    qed
  qed
qed

lemma get_string_loop:
  assumes "fmu_wf L f" "length value = length vr" "\<forall>v \<in> set vr. string_readable L f v"
  shows "n \<le> length vr \<Longrightarrow> \<exists>es. foldM (get_string_one L vr) (f, value) [0..<n] = Some (f\<lparr>log_out := log_out f @ es,
      free_list := free_list f @ List.map_filter (string_value L f) (take n vr)\<rparr>,
    map (string_value L f) (take n vr) @ drop n value)"
proof (induction n)
  case 0
  show ?case by (intro exI [of _ "[]"]) (simp add: map_filter_def)
next
  case (Suc n)
  then obtain es where es: "foldM (get_string_one L vr) (f, value) [0..<n] = Some (f\<lparr>log_out := log_out f @ es,
      free_list := free_list f @ List.map_filter (string_value L f) (take n vr)\<rparr>,
    map (string_value L f) (take n vr) @ drop n value)" by auto
  let ?g = "f\<lparr>log_out := log_out f @ es, free_list := free_list f @ List.map_filter (string_value L f) (take n vr)\<rparr>"
  let ?val = "map (string_value L f) (take n vr) @ drop n value"
  have n: "n < length vr" using Suc.prems by simp
  have wf: "fmu_wf L ?g" using assms(1) by (simp add: fmu_wf_def)
  have sv: "string_value L ?g v = string_value L f v" "string_readable L ?g v = string_readable L f v" for v
    by (simp_all add: string_value_def string_readable_def cong: if_cong)
  have d: "drop n value = value ! n # drop (Suc n) value" using n assms(2) by (simp add: Cons_nth_drop_Suc)
  have t: "take (Suc n) vr = take n vr @ [vr ! n]" using n by (simp add: take_Suc_conv_app_nth)
  obtain es' where "get_string_one L vr (?g, ?val) n = Some (?g\<lparr>log_out := log_out ?g @ es',
      free_list := free_list ?g @ (case string_value L f (vr ! n) of None \<Rightarrow> [] | Some s \<Rightarrow> [s])\<rparr>,
    ?val[n := string_value L f (vr ! n)])"
    using get_string_one_run [OF wf n, of ?val] assms(2,3) n sv by auto
  then show ?case
    by (intro exI [of _ "es @ es'"])
      (use es n in \<open>simp add: foldM_append t d list_update_append map_filter_def split: option.split\<close>)
qed

end
