(* ===== verification/FmuModel.thy ===== *)
theory FmuModel
  imports Fmi2Fmu
begin

section \<open>The contract of a user FMU (dse/fmu/fmu.h)\<close>

text \<open>
  What the adapters rely on when they call the FMU behind them: its initialisation and its
  step return and keep the instance valid. The step of the adapters is proved once under this
  contract; the default FMU of dse/fmu/fmu.c satisfies it.
\<close>

locale fmu_model = signal_handlers L inv H
  for L :: "'m clib" and inv :: "('m, 'd) fmu \<Rightarrow> bool" and H :: "('m, 'd) signal_vtable" +
  fixes I :: "('m, 'd) fmu_impl"
  assumes init_run: "inv f \<Longrightarrow> \<exists>rc g. im_init I f = Some (rc, g) \<and> inv g"
    and step_run: "inv f \<Longrightarrow> \<exists>rc g. im_step I f point step_size = Some (rc, g) \<and> inv g"
begin

lemma inv_update:
  "inv f \<Longrightarrow> inv (f\<lparr>signals_reset := b\<rparr>)"
  "inv f \<Longrightarrow> inv (f\<lparr>vt_table := Some t\<rparr>)"
  "inv f \<Longrightarrow> inv (f\<lparr>log_out := es, free_list := fl\<rparr>)"
  "inv f \<Longrightarrow> inv (f\<lparr>log_out := es\<rparr>)"
  "inv f \<Longrightarrow> inv (f\<lparr>inst_log_categories := w, inst_log_enabled := on\<rparr>)"
  by (rule inv_frame, assumption, insert inv_wf [of f], simp_all add: fmu_wf_def)+

lemma inv_scalars_only: "inv f \<Longrightarrow> scalars_only f g \<Longrightarrow> fmu_wf L g \<Longrightarrow> inv g"
proof -
  assume i: "inv f" and s: "scalars_only f g" and w: "fmu_wf L g"
  from s obtain ms md where "g = f\<lparr>mem_sv := ms, mem_dbl := md\<rparr>" "mem_shape ms = mem_shape (mem_sv f)"
    by (auto simp: scalars_only_def)
  then show "inv g" by (intro inv_frame [OF i w]) simp_all
qed

lemma exit_init_run: "inv f \<Longrightarrow> \<exists>rc g. exit_init I f = Some (status_of rc, g) \<and> inv g"
  using init_run [of f] by (auto simp: exit_init_def)

lemma do_step_run:
  assumes "inv f"
  shows "\<exists>f1 t rc f3 g. call_handler (vt_reset H) f = Some f1 \<and> inv f1 \<and>
    im_step I (if vt_marshal_list f1 = [] then f1 else f1\<lparr>vt_table := Some t\<rparr>) point step_size = Some (rc, f3) \<and> inv f3 \<and>
    t = table_copy (load f1) (vt_marshal_list f1) (the (vt_table f1)) \<and>
    do_step H I f point step_size = Some (status_of rc, g) \<and> inv g \<and> \<not> signals_reset g \<and>
    (\<forall>s. content g s = content f3 s) \<and>
    load g = signal_copy (the (vt_table f3)) (vt_marshal_list f3) (load f3)"
proof -
  from reset_run [OF assms] obtain f1 where 1: "call_handler (vt_reset H) f = Some f1" "inv f1" by blast
  let ?t = "table_copy (load f1) (vt_marshal_list f1) (the (vt_table f1))"
  let ?f2 = "if vt_marshal_list f1 = [] then f1 else f1\<lparr>vt_table := Some ?t\<rparr>"
  have 2: "marshal_to_table f1 = Some ?f2" using marshal_to_table_run [OF inv_wf [OF 1(2)]] by simp
  have "inv ?f2" using inv_update(2) [OF 1(2)] 1(2) by simp
  from step_run [OF this] obtain rc f3 where 3: "im_step I ?f2 point step_size = Some (rc, f3)" "inv f3" by blast
  from marshal_from_table_run [OF inv_wf [OF 3(2)]] obtain f4 where 4: "marshal_from_table f3 = Some f4"
    "fmu_wf L f4" "scalars_only f3 f4" "load f4 = signal_copy (the (vt_table f3)) (vt_marshal_list f3) (load f3)" by blast
  let ?g = "f4\<lparr>signals_reset := False\<rparr>"
  have "do_step H I f point step_size = Some (status_of rc, ?g)"
    using 1(1) 2 3(1) 4(1) by (simp add: do_step_def)
  moreover have "inv ?g" by (rule inv_update(1) [OF inv_scalars_only [OF 3(2) 4(3,2)]])
  moreover have "content ?g s = content f3 s" for s using 4(3) by (auto simp: scalars_only_def content_def)
  moreover have "load ?g = load f4" by (rule ext) (simp add: load.simps)
  ultimately show ?thesis using 1 3 4(4)
    by (intro exI [of _ f1] exI [of _ ?t] exI [of _ rc] exI [of _ f3] exI [of _ ?g]) simp
qed

end

interpretation dm: fmu_model L "\<lambda>f. default_inv L f \<and> truncate_ok NL" "fmu_load_signal_handlers L NL env xp parse" default_fmu
  for L NL env xp parse
  by unfold_locales (simp_all add: default_fmu_def default_fmu_init_def default_fmu_step_def)

end
