(* ===== verification/CounterFmu.thy ===== *)
theory CounterFmu
  imports FmuModel
begin

section \<open>The counter example (dse/examples/fmu/counter/counter.c)\<close>

text \<open>
  The user FMU of the documentation: it registers one output with the variable table and
  increments it in every step. The increment of a double is the parameter \<open>inc\<close>.
\<close>

definition counter_create :: "'m clib \<Rightarrow> ('m, 'd) fmu \<Rightarrow> (int \<times> ('m, 'd) fmu \<times> ('m, 'd) fmu created) option" where
  "counter_create L f = do {
     (start, g) \<leftarrow> fmu_register_var L f 1 False 0;
     Some (0, fmu_register_var_table g (\<lambda>a. if a = 0 then start else 0), CreatedSame) }"

definition counter_init :: "('m, 'd) fmu \<Rightarrow> (int \<times> ('m, 'd) fmu) option" where
  "counter_init f = Some (0, f)"

definition counter_step :: "(f64 \<Rightarrow> f64) \<Rightarrow> ('m, 'd) fmu \<Rightarrow> f64 \<Rightarrow> f64 \<Rightarrow> (int \<times> ('m, 'd) fmu) option" where
  "counter_step inc f point step_size = do {
     t \<leftarrow> fmu_var_table f;
     Some (0, f\<lparr>vt_table := Some (table_put t 0 (inc (t 0)))\<rparr>) }"

definition counter_destroy :: "('m, 'd) fmu \<Rightarrow> (int \<times> ('m, 'd) fmu) option" where
  "counter_destroy f = Some (0, f)"

definition counter_fmu :: "'m clib \<Rightarrow> (f64 \<Rightarrow> f64) \<Rightarrow> ('m, 'd) fmu_impl" where
  "counter_fmu L inc = \<lparr>im_create = counter_create L, im_init = counter_init,
     im_step = counter_step inc, im_destroy = counter_destroy\<rparr>"

text \<open>A counter's instance always has a table, on top of the handlers' invariant.\<close>

definition counter_inv :: "'m clib \<Rightarrow> 'm nclib \<Rightarrow> 'm default_fmu \<Rightarrow> bool" where
  "counter_inv L NL f \<longleftrightarrow> default_inv L f \<and> truncate_ok NL \<and> vt_table f \<noteq> None"

lemma default_inv_table: "default_inv L f \<Longrightarrow> default_inv L (f\<lparr>vt_table := Some t\<rparr>)"
  by (simp add: default_inv_def fmu_wf_def codecs_ok_def sv_refs_def)

interpretation ch: signal_handlers L "counter_inv L NL" "fmu_load_signal_handlers L NL env xp parse"
  for L NL env xp parse
proof
  fix f :: "'a default_fmu" assume i: "counter_inv L NL f"
  then have d: "default_inv L f \<and> truncate_ok NL" by (simp add: counter_inv_def)
  then show "fmu_wf L f" by (rule dh.inv_wf)
  from dh.reset_run [OF d] obtain g where g: "call_handler (vt_reset (fmu_load_signal_handlers L NL env xp parse)) f = Some g"
    "default_inv L g" "if signals_reset f then g = f else emptied f g" by blast
  then have "vt_table g = vt_table f"
    by (auto simp: emptied_def split: if_splits dest: arg_cong [where f = vt_table])
  with i g show "\<exists>g. call_handler (vt_reset (fmu_load_signal_handlers L NL env xp parse)) f = Some g \<and>
      counter_inv L NL g \<and> (if signals_reset f then g = f else emptied f g)"
    by (auto simp: counter_inv_def)
next
  fix f g :: "'a default_fmu"
  assume "counter_inv L NL f" and fr: "fmu_wf L g" "mem_shape (mem_sv g) = mem_shape (mem_sv f)"
    "nc_heap g = nc_heap f" "fmu_data g = fmu_data f" "vt_table f \<noteq> None \<longrightarrow> vt_table g \<noteq> None"
  then have "default_inv L f \<and> truncate_ok NL" "vt_table f \<noteq> None" by (simp_all add: counter_inv_def)
  with dh.inv_frame [OF _ fr] fr(5) show "counter_inv L NL g" by (auto simp: counter_inv_def)
qed

interpretation cm: fmu_model L "counter_inv L NL" "fmu_load_signal_handlers L NL env xp parse" "counter_fmu L inc"
  for L NL env xp parse inc
proof
  fix f :: "'a default_fmu" and point step_size assume i: "counter_inv L NL f"
  then show "\<exists>rc g. im_init (counter_fmu L inc) f = Some (rc, g) \<and> counter_inv L NL g"
    by (simp add: counter_fmu_def counter_init_def)
  from i obtain t where "vt_table f = Some t" by (auto simp: counter_inv_def)
  with i default_inv_table show "\<exists>rc g. im_step (counter_fmu L inc) f point step_size = Some (rc, g) \<and> counter_inv L NL g"
    by (auto simp: counter_fmu_def counter_step_def fmu_var_table_def counter_inv_def)
qed

end
