(* ===== verification/Fmi2Session.thy ===== *)
theory Fmi2Session
  imports CounterFmu
begin

section \<open>Sessions of FMI 2 calls\<close>

text \<open>
  The sequences of calls an importer makes on one instance: every call that respects the caller's side (arrays as long as the references, room in the binary
  buffers) runs to its end and keeps the instance valid.
\<close>

subsection \<open>Calls\<close>

datatype fmi2_call =
    CallExitInit
  | CallGetReal "u32 list" "f64 list"
  | CallSetReal "u32 list" "f64 list"
  | CallGetString "u32 list" "bytes option list"
  | CallSetString "u32 list" "bytes option list"
  | CallDoStep f64 f64
  | CallSetDebugLogging bool "string list"
  | CallStub fmi2_stub
  | CallStateStub fmi2_state_stub

fun run_call ::
  "'m clib \<Rightarrow> ('m, 'd) signal_vtable \<Rightarrow> ('m, 'd) fmu_impl \<Rightarrow> ('m, 'd) fmu \<Rightarrow> fmi2_call \<Rightarrow> (fmi_status \<times> ('m, 'd) fmu) option" where
  "run_call L H I f CallExitInit = fmi2ExitInitializationMode I (Some f)"
| "run_call L H I f (CallGetReal vr value) = map_option (\<lambda>(st, g, _). (st, g)) (fmi2GetReal L (Some f) vr value)"
| "run_call L H I f (CallSetReal vr value) = fmi2SetReal L (Some f) vr value"
| "run_call L H I f (CallGetString vr value) = map_option (\<lambda>(st, g, _). (st, g)) (fmi2GetString L (Some f) vr value)"
| "run_call L H I f (CallSetString vr value) = fmi2SetString L H (Some f) vr value"
| "run_call L H I f (CallDoStep point step_size) = fmi2DoStep H I (Some f) point step_size True"
| "run_call L H I f (CallSetDebugLogging on cats) = (case fmi2SetDebugLogging f on cats of (g, st) \<Rightarrow> Some (st, g))"
| "run_call L H I f (CallStub s) = fmi2_stub_call s (Some f)"
| "run_call L H I f (CallStateStub s) = fmi2_state_stub_call s (Some f)"

text \<open>The caller's side of each call.\<close>

fun call_ok :: "'m clib \<Rightarrow> ('m, 'd) signal_vtable \<Rightarrow> ('m, 'd) fmu \<Rightarrow> fmi2_call \<Rightarrow> bool" where
  "call_ok L H f (CallGetReal vr value) \<longleftrightarrow> di_map f = None \<and> length value = length vr"
| "call_ok L H f (CallSetReal vr value) \<longleftrightarrow> di_map f = None \<and> length value = length vr"
| "call_ok L H f (CallGetString vr value) \<longleftrightarrow> length value = length vr \<and> (\<forall>v \<in> set vr. string_readable L f v)"
| "call_ok L H f (CallSetString vr value) \<longleftrightarrow> length value = length vr \<and>
     (\<forall>g. call_handler (vt_reset H) f = Some g \<longrightarrow> room_for L g (zip vr value))"
| "call_ok L H f _ \<longleftrightarrow> True"

inductive session ::
  "'m clib \<Rightarrow> ('m, 'd) signal_vtable \<Rightarrow> ('m, 'd) fmu_impl \<Rightarrow> ('m, 'd) fmu \<Rightarrow> ('m, 'd) fmu \<Rightarrow> bool"
  for L H I f where
  start: "session L H I f f"
| call: "session L H I f g \<Longrightarrow> call_ok L H g c \<Longrightarrow> run_call L H I g c = Some (st, h) \<Longrightarrow> session L H I f h"

inductive_cases session_lastE: "session L H I f g"

context fmu_model begin

lemma call_run:
  assumes "buffer_ok L" "inv f" "call_ok L H f c"
  shows "\<exists>st g. run_call L H I f c = Some (st, g) \<and> inv g \<and> (st = FmiOK \<or> st = FmiError)"
proof (cases c)
  case CallExitInit
  from exit_init_run [OF assms(2)] show ?thesis
    by (auto simp: CallExitInit fmi2ExitInitializationMode_def status_of_def)
next
  case (CallGetReal vr vals)
  with assms get_reals_run [OF inv_wf [OF assms(2)], of vals vr fmu_log2] show ?thesis
    by (simp add: fmi2GetReal_def)
next
  case (CallSetReal vr vals)
  with assms set_reals_run [OF inv_wf [OF assms(2)], of vals vr fmu_log2] inv_scalars_only [OF assms(2)] show ?thesis
    by (auto simp: fmi2SetReal_def)
next
  case (CallGetString vr vals)
  let ?f = "f\<lparr>free_list := []\<rparr>"
  have "inv ?f" using inv_update(3) [OF assms(2), where es = "log_out f" and fl = "[]"] by simp
  moreover have "\<forall>v \<in> set vr. string_readable L ?f v"
    using assms(3) CallGetString by (simp add: string_readable_def)
  ultimately obtain es where "foldM (get_string_one L vr) (?f, vals) [0..<length vr] = Some (?f\<lparr>log_out := log_out ?f @ es,
      free_list := free_list ?f @ List.map_filter (string_value L ?f) vr\<rparr>, map (string_value L ?f) vr @ drop (length vr) vals)"
    using get_string_loop [OF inv_wf, of ?f vals vr "length vr"] assms(3) CallGetString by auto
  moreover have "inv (?f\<lparr>log_out := log_out ?f @ es, free_list := free_list ?f @ List.map_filter (string_value L ?f) vr\<rparr>)"
    using inv_update(3) [OF \<open>inv ?f\<close>] .
  ultimately show ?thesis by (simp add: CallGetString fmi2GetString_def)
next
  case (CallSetString vr vals)
  with assms set_string_run [OF assms(1,2), of vals vr] show ?thesis by auto
next
  case (CallDoStep point step_size)
  from do_step_run [OF assms(2), of point step_size] obtain rc g where
    "do_step H I f point step_size = Some (status_of rc, g)" "inv g" by blast
  then show ?thesis by (simp add: CallDoStep fmi2DoStep_def status_of_def)
next
  case (CallSetDebugLogging on cats)
  from set_debug_logging_fields [of f on cats] obtain w where
    "fst (fmi2SetDebugLogging f on cats) = f\<lparr>inst_log_categories := w, inst_log_enabled := on\<rparr>"
    "snd (fmi2SetDebugLogging f on cats) = FmiOK" by blast
  with inv_update(5) [OF assms(2)] show ?thesis by (simp add: CallSetDebugLogging split_beta)
next
  case (CallStub s)
  with assms(2) show ?thesis by (simp add: fmi2_stub_call_def)
next
  case (CallStateStub s)
  with assms(2) show ?thesis by (simp add: fmi2_state_stub_call_def)
qed

lemma session_inv: "session L H I f g \<Longrightarrow> buffer_ok L \<Longrightarrow> inv f \<Longrightarrow> inv g"
proof (induction rule: session.induct)
  case (call g c st h)
  with call_run [of g c] show ?case by auto
qed

lemma session_never_stuck:
  "session L H I f g \<Longrightarrow> buffer_ok L \<Longrightarrow> inv f \<Longrightarrow> call_ok L H g c \<Longrightarrow>
     \<exists>st h. run_call L H I g c = Some (st, h) \<and> inv h \<and> (st = FmiOK \<or> st = FmiError)"
  using call_run session_inv by blast

end

subsection \<open>Reading back what was written\<close>

lemma assign_inputs_other:
  "\<forall>(v, x) \<in> set vxs. input_loc L f v \<noteq> Some p \<Longrightarrow> assign_inputs L f vxs st p = st p"
  unfolding assign_inputs_def
  by (induction vxs arbitrary: st) (auto split: option.split)

lemma assign_inputs_at:
  assumes "distinct (map (input_loc L f) vr)" "length vals = length vr" "i < length vr" "input_loc L f (vr ! i) = Some p"
  shows "assign_inputs L f (zip vr vals) st p = Some (vals ! i)"
  using assms
proof (induction vr arbitrary: vals i st)
  case (Cons v vr)
  then obtain x xs where vals: "vals = x # xs" "length xs = length vr" by (cases vals) auto
  show ?case
  proof (cases i)
    case 0
    have "\<forall>(w, y) \<in> set (zip vr xs). input_loc L f w \<noteq> Some p"
      using Cons.prems(1,4) 0 by (force dest: set_zip_leftD)
    from assign_inputs_other [OF this] Cons.prems(4) 0 vals show ?thesis by (simp add: assign_inputs_def)
  next
    case (Suc j)
    with Cons.IH [of xs j] Cons.prems vals show ?thesis by (simp add: assign_inputs_def)
  qed
qed simp

lemma real_value_after:
  "scalars_only f g \<Longrightarrow> real_value L g v = do { p \<leftarrow> get_loc L f v; load g p }"
  using get_loc_frame [of f g L v] by (simp add: real_value_def)

text \<open>
  C5: Values written with \<open>fmi2SetReal\<close> are read back by \<open>fmi2GetReal\<close>: with distinct input
  variables (none shadowed by an output of the same reference) the values come back in the
  caller's array unchanged, with \<open>fmi2OK\<close> from both calls.
\<close>

theorem fmi2_real_roundtrip:
  assumes "fmu_wf L f" "di_map f = None" "length vals = length vr" "length old = length vr"
    "distinct (map (input_loc L f) vr)" "\<forall>v \<in> set vr. input_loc L f v \<noteq> None \<and> get_loc L f v = input_loc L f v"
  shows "\<exists>g. fmi2SetReal L (Some f) vr vals = Some (FmiOK, g) \<and> fmi2GetReal L (Some g) vr old = Some (FmiOK, g, vals)"
proof -
  from set_reals_run [OF assms(1-3), of fmu_log2] obtain g where g: "set_reals fmu_log2 L f vr vals = Some (FmiOK, g)"
    "fmu_wf L g" "scalars_only f g" "load g = assign_inputs L f (zip vr vals) (load f)" by blast
  have d: "di_map g = None" using g(3) assms(2) by (auto simp: scalars_only_def)
  have "real_value L g (vr ! i) = Some (vals ! i)" if "i < length vr" for i
  proof -
    from assms(6) that obtain p where p: "input_loc L f (vr ! i) = Some p" "get_loc L f (vr ! i) = Some p" by fastforce
    from assign_inputs_at [OF assms(5,3) that p(1)] show ?thesis
      by (simp add: real_value_after [OF g(3)] p(2) g(4))
  qed
  then have "map (\<lambda>(v, old). case real_value L g v of None \<Rightarrow> old | Some x \<Rightarrow> x) (zip vr old) = vals"
    using assms(3,4) by (intro nth_equalityI) simp_all
  with get_reals_run [OF g(2) d assms(4), of fmu_log2] g(1) show ?thesis
    by (simp add: fmi2SetReal_def fmi2GetReal_def)
qed

text \<open>An instance with two inputs and one output, for the witnesses.\<close>

definition demo_scalar_sv :: signal_vector where
  "demo_scalar_sv = \<lparr>sv_count = 3, sv_signal = [Some ''a'', Some ''b'', Some ''c''], sv_scalar = Some [0, 0, 7],
     sv_binary = None, sv_length = [], sv_buffer_size = [], sv_mime_type = [], sv_ncodec = []\<rparr>"

definition demo_fmu :: "((string \<times> vptr) list) default_fmu" where
  "demo_fmu = (zero_fmu [] (Some [0, 1]))\<lparr>mem_sv := [demo_scalar_sv, demo_bin_sv\<lparr>sv_ncodec := [None]\<rparr>],
     scalar_input := [(''1'', PDouble (DScalar 0 0)), (''2'', PDouble (DScalar 0 1))],
     scalar_output := [(''3'', PDouble (DScalar 0 2))],
     binary_rx := [(''4'', PIndex \<lparr>svi_sv = 1, svi_vi = 0\<rparr>)],
     binary_tx := [(''5'', PIndex \<lparr>svi_sv = 1, svi_vi = 0\<rparr>)],
     encode_func := [(''5'', PEncode)], decode_func := [(''4'', PDecode)]\<rparr>"

lemma demo_keys: "vr_key 1 = ''1''" "vr_key 2 = ''2''" "vr_key 3 = ''3''" "vr_key 4 = ''4''" "vr_key 5 = ''5''"
  by (simp_all add: vr_key_def fmt_i_def snprintf_def VREF_KEY_LEN_def show_int_def show_nat.simps digit_char_def
      char_of_def bit_iff_odd)

lemma demo_fmu_wf: "fmu_wf ref_clib demo_fmu"
  by (auto simp: fmu_wf_def demo_fmu_def zero_fmu_def mem_wf_def sv_wf_def demo_scalar_sv_def demo_bin_sv_def bin_wf_def
      scalar_map_ok_def binary_map_ok_def func_map_ok_def ref_clib_def dloc_ok_simps svi_ok_iff nth_Cons'
      split: if_splits)

lemma demo_fmu_inv: "default_inv ref_clib demo_fmu"
  using demo_fmu_wf
  by (auto simp: default_inv_def codecs_ok_def sv_refs_def demo_fmu_def zero_fmu_def demo_scalar_sv_def demo_bin_sv_def nth_Cons' upt_rec)

lemma demo_locs:
  "input_loc ref_clib demo_fmu 1 = Some (DScalar 0 0)" "input_loc ref_clib demo_fmu 2 = Some (DScalar 0 1)"
  "get_loc ref_clib demo_fmu 1 = Some (DScalar 0 0)" "get_loc ref_clib demo_fmu 2 = Some (DScalar 0 1)"
  by (simp_all add: input_loc_def get_loc_def double_at_def demo_keys ref_clib_def demo_fmu_def)

theorem fmi2_real_roundtrip_witness:
  "\<exists>g. fmi2SetReal ref_clib (Some demo_fmu) [2, 1] [5, 6] = Some (FmiOK, g) \<and>
     fmi2GetReal ref_clib (Some g) [2, 1] [0, 0] = Some (FmiOK, g, [5, 6])"
proof -
  have d: "di_map demo_fmu = None" by (simp add: demo_fmu_def zero_fmu_def)
  show ?thesis by (rule fmi2_real_roundtrip [OF demo_fmu_wf d]) (simp_all add: demo_locs)
qed

text \<open>
  A variable whose value reference is 2^31 or more is never found, although its model
  description key is in the index: \<open>fmi2SetReal\<close> drops the value and \<open>fmi2GetReal\<close> leaves the
  caller's array as it was, both with \<open>fmi2OK\<close>.
\<close>

theorem fmi2_large_reference_ignored:
  assumes "fmu_wf L f" "di_map f = None" "2 ^ 31 \<le> unat v"
    "\<forall>k. hm_get L (scalar_input f) k \<noteq> None \<or> hm_get L (scalar_output f) k \<noteq> None \<longrightarrow> (\<exists>n. k = show_nat n)"
  shows "fmi2SetReal L (Some f) [v] [x] = Some (FmiOK, f) \<and> fmi2GetReal L (Some f) [v] [x] = Some (FmiOK, f, [x])"
proof -
  have "hm_get L (scalar_input f) (vr_key v) = None \<and> hm_get L (scalar_output f) (vr_key v) = None"
    using assms(4) vr_key_not_decimal [OF assms(3)] by blast
  with assms(2) show ?thesis
    by (simp add: fmi2SetReal_def set_reals_def set_real_one_def fmi2GetReal_def get_reals_def get_real_one_def
        get_signal_def get_double_def)
qed

theorem fmi2_large_reference_ignored_witness:
  "fmi2GetReal ref_clib (Some demo_fmu) [0x80000001] [9] = Some (FmiOK, demo_fmu, [9])"
proof -
  have d: "di_map demo_fmu = None" by (simp add: demo_fmu_def zero_fmu_def)
  have n: "show_nat 1 = ''1''" "show_nat 2 = ''2''" "show_nat 3 = ''3''"
    by (simp_all add: show_nat.simps digit_char_def char_of_def bit_iff_odd)
  have "\<forall>k. hm_get ref_clib (scalar_input demo_fmu) k \<noteq> None \<or> hm_get ref_clib (scalar_output demo_fmu) k \<noteq> None \<longrightarrow> (\<exists>n. k = show_nat n)"
    using n by (auto simp: ref_clib_def demo_fmu_def split: if_splits) metis+
  from fmi2_large_reference_ignored [OF demo_fmu_wf d _ this, of "0x80000001" 9] show ?thesis by simp
qed

subsection \<open>Binary data over the steps\<close>

text \<open>
  C3: Binary inputs accumulate within a step and start afresh in the next one: after
  \<open>fmi2SetString\<close> the content of every binary signal is, with the default handlers, the
  content it had (nothing, if no reset happened since the last step) followed by the decoded
  values addressed to it, in the order of the caller's arrays; no call faults, and signals no
  value addresses keep theirs.
\<close>

theorem fmi2_set_string_accumulates:
  assumes "buffer_ok L" "truncate_ok NL" "default_inv L f" "length value = length vr"
    "\<forall>g. fmu_default_signals_reset NL f = Some g \<longrightarrow> room_for L g (zip vr value)"
  shows "\<exists>g. fmi2SetString L (fmu_load_signal_handlers L NL env xp parse) (Some f) vr value = Some (FmiOK, g) \<and>
    default_inv L g \<and> signals_reset g \<and>
    (\<forall>s. content g s = map_option (\<lambda>c. (if signals_reset f then c else []) @ addressed L f s (zip vr value)) (content f s))"
proof -
  have i: "default_inv L f \<and> truncate_ok NL" using assms(2,3) by simp
  have r: "\<And>g. call_handler (vt_reset (fmu_load_signal_handlers L NL env xp parse)) f = Some g \<Longrightarrow> room_for L g (zip vr value)"
    using assms(5) by (simp add: call_handler_def fmu_load_signal_handlers_def)
  from dh.set_string_run [OF assms(1) i assms(4) r] show ?thesis by blast
qed

lemma demo_reset:
  "fmu_default_signals_reset (ref_nclib (\<lambda>_. ''x'')) demo_fmu =
     Some (demo_fmu\<lparr>mem_sv := [demo_scalar_sv, demo_bin_sv\<lparr>sv_ncodec := [None], sv_length := [0]\<rparr>], signals_reset := True\<rparr>)"
  by (simp add: fmu_default_signals_reset_def demo_fmu_def zero_fmu_def sv_refs_def reset_vector_def nth_opt_def
      demo_scalar_sv_def demo_bin_sv_def reset_signal_def upd_opt_def)

lemma demo_content: "content demo_fmu (1, 0) = Some [9, 9]"
  by (simp add: content_def get_bin_def nth_opt_def demo_fmu_def demo_bin_sv_def bin_content_def)

lemma content_only:
  assumes "mem_sv f = [demo_scalar_sv, demo_bin_sv\<lparr>sv_ncodec := [None], sv_length := [n]\<rparr>]" "content f s = Some c"
  shows "s = (1, 0)"
proof -
  obtain r i where s: "s = (r, i)" by fastforce
  from assms(2) obtain b where "get_bin (mem_sv f) r i = Some b" by (auto simp: content_def s)
  then show ?thesis
    by (auto simp: get_bin_Some assms(1) s demo_scalar_sv_def demo_bin_sv_def nth_Cons' less_Suc_eq split: if_splits)
qed

theorem fmi2_set_string_accumulates_witness:
  "\<exists>g. fmi2SetString ref_clib (fmu_load_signal_handlers ref_clib (ref_nclib (\<lambda>_. ''x'')) (\<lambda>_. None) demo_xpath (\<lambda>_. None))
     (Some demo_fmu) [4, 7, 4] [Some [1, 2], Some [3], Some [4, 5]] = Some (FmiOK, g) \<and>
   content g (1, 0) = Some [1, 0x34]"
proof -
  let ?z = "zip [4, 7, 4] [Some [1, 2], Some [3], Some [4, 5]] :: (u32 \<times> bytes option) list"
  have a: "addressed ref_clib demo_fmu (1, 0) ?z = [1, 0x34]"
    by (simp add: addressed_def chunk_for_def index_at_def decoded_def ref_clib_def demo_keys demo_fmu_def loc_of_def
        vr_key_def fmt_i_def snprintf_def VREF_KEY_LEN_def show_int_def show_nat.simps digit_char_def char_of_def bit_iff_odd)
  let ?r = "demo_fmu\<lparr>mem_sv := [demo_scalar_sv, demo_bin_sv\<lparr>sv_ncodec := [None], sv_length := [0]\<rparr>], signals_reset := True\<rparr>"
  have ar: "addressed ref_clib ?r (1, 0) ?z = [1, 0x34]"
    using a addressed_cong [of ?r demo_fmu ref_clib "(1, 0)" ?z] by simp
  have cr: "content ?r (1, 0) = Some []"
    by (simp add: content_def get_bin_def nth_opt_def demo_bin_sv_def bin_content_def)
  have "room_for ref_clib ?r ?z"
    unfolding room_for_def
  proof (intro allI impI)
    fix s c assume c: "content ?r s = Some c"
    then have "s = (1, 0)" using content_only [of ?r 0 s c] by simp
    with c cr ar show "length c + length (addressed ref_clib ?r s ?z) + 16 \<le> 2 ^ 32" by simp
  qed
  then have "\<forall>g. fmu_default_signals_reset (ref_nclib (\<lambda>_. ''x'')) demo_fmu = Some g \<longrightarrow> room_for ref_clib g ?z"
    by (simp only: demo_reset option.inject) simp
  from fmi2_set_string_accumulates [where env = "\<lambda>_. None" and xp = demo_xpath and parse = "\<lambda>_. None",
      OF ref_buffer_ok ref_truncate_ok demo_fmu_inv _ this]
  show ?thesis
    using a demo_content by (auto simp: demo_fmu_def zero_fmu_def)
qed



subsection \<open>The variable table around a step\<close>

lemma table_copy_at:
  assumes "distinct (map mi_variable ms)" "mi \<in> set ms"
  shows "table_copy st ms t (mi_variable mi) = the (st (mi_signal mi))"
proof -
  have other: "a \<notin> set (map mi_variable ms) \<Longrightarrow> table_copy st ms t a = t a" for ms a t
    by (induction ms arbitrary: t) (simp_all add: table_copy_def table_put_def)
  from assms show ?thesis
  proof (induction ms arbitrary: t)
    case (Cons m ms)
    have step: "table_copy st (m # ms) t = table_copy st ms (table_put t (mi_variable m) (the (st (mi_signal m))))"
      by (simp add: table_copy_def)
    show ?case
    proof (cases "mi = m")
      case True
      with Cons.prems(1) show ?thesis by (simp add: step other table_put_def)
    next
      case False
      with Cons.IH Cons.prems show ?thesis by (simp add: step)
    qed
  qed simp
qed

lemma signal_copy_at:
  assumes "distinct (map mi_signal ms)" "mi \<in> set ms"
  shows "signal_copy t ms st (mi_signal mi) = Some (t (mi_variable mi))"
proof -
  have other: "p \<notin> set (map mi_signal ms) \<Longrightarrow> signal_copy t ms st p = st p" for ms p st
    by (induction ms arbitrary: st) (simp_all add: signal_copy_def)
  from assms show ?thesis
  proof (induction ms arbitrary: st)
    case (Cons m ms)
    have step: "signal_copy t (m # ms) st = signal_copy t ms (st(mi_signal m := Some (t (mi_variable m))))"
      by (simp add: signal_copy_def)
    show ?case
    proof (cases "mi = m")
      case True
      with Cons.prems(1) show ?thesis by (simp add: step other)
    next
      case False
      with Cons.IH Cons.prems show ?thesis by (simp add: step)
    qed
  qed simp
qed

text \<open>
  C4: \<open>fmi2DoStep\<close> hands a user FMU its variables and takes its results: the user's step runs
  on a table in which every registered variable holds the value its signal has, and after the
  step every registered signal holds the value of its variable; the status is \<open>fmi2OK\<close>
  exactly when the user's step returned 0, and the next step will reset the binary signals.
\<close>

theorem fmi2_do_step_marshals:
  assumes "truncate_ok NL" "default_inv L f"
    "\<forall>g. default_inv L g \<longrightarrow> (\<exists>rc h. im_init I g = Some (rc, h) \<and> default_inv L h)"
    "\<forall>g p s. default_inv L g \<longrightarrow> (\<exists>rc h. im_step I g p s = Some (rc, h) \<and> default_inv L h)"
  shows "\<exists>f1 f2 rc f3 g. fmu_default_signals_reset NL f = Some f1 \<and> im_step I f2 point step_size = Some (rc, f3) \<and>
    fmi2DoStep (fmu_load_signal_handlers L NL env xp parse) I (Some f) point step_size b =
      Some (if rc = 0 then FmiOK else FmiError, g) \<and> default_inv L g \<and> \<not> signals_reset g \<and>
    mem_sv f2 = mem_sv f1 \<and>
    (distinct (map mi_variable (vt_marshal_list f1)) \<longrightarrow>
       (\<forall>mi \<in> set (vt_marshal_list f1). \<exists>t. vt_table f2 = Some t \<and> load f1 (mi_signal mi) = Some (t (mi_variable mi)))) \<and>
    (distinct (map mi_signal (vt_marshal_list f3)) \<longrightarrow>
       (\<forall>mi \<in> set (vt_marshal_list f3). load g (mi_signal mi) = Some (the (vt_table f3) (mi_variable mi))))"
proof -
  let ?H = "fmu_load_signal_handlers L NL env xp parse"
  let ?inv = "\<lambda>f. default_inv L f \<and> truncate_ok NL"
  have "fmu_model L ?inv ?H I"
    by (intro fmu_model.intro dh.signal_handlers_axioms fmu_model_axioms.intro) (use assms(1,3,4) in auto)
  from fmu_model.do_step_run [OF this, of f point step_size] assms(1,2) obtain f1 t rc f3 g where
    r: "call_handler (vt_reset ?H) f = Some f1" "default_inv L f1"
    "im_step I (if vt_marshal_list f1 = [] then f1 else f1\<lparr>vt_table := Some t\<rparr>) point step_size = Some (rc, f3)"
    "t = table_copy (load f1) (vt_marshal_list f1) (the (vt_table f1))"
    "do_step ?H I f point step_size = Some (status_of rc, g)" "default_inv L g" "\<not> signals_reset g"
    "load g = signal_copy (the (vt_table f3)) (vt_marshal_list f3) (load f3)" by auto
  let ?f2 = "if vt_marshal_list f1 = [] then f1 else f1\<lparr>vt_table := Some t\<rparr>"
  have "load f1 (mi_signal mi) = Some (t (mi_variable mi))"
    if "distinct (map mi_variable (vt_marshal_list f1))" "mi \<in> set (vt_marshal_list f1)" for mi
  proof -
    have "dloc_ok (mem_sv f1) (mem_dbl f1) (mi_signal mi)"
      using r(2) that(2) by (simp add: default_inv_def fmu_wf_def)
    then obtain x where "load f1 (mi_signal mi) = Some x" using load_ok [of f1 "mi_signal mi"] by auto
    with table_copy_at [OF that, of "load f1" "the (vt_table f1)"] show ?thesis by (simp add: r(4))
  qed
  moreover have "load g (mi_signal mi) = Some (the (vt_table f3) (mi_variable mi))"
    if "distinct (map mi_signal (vt_marshal_list f3))" "mi \<in> set (vt_marshal_list f3)" for mi
    using signal_copy_at [OF that] by (simp add: r(8))
  moreover have "fmu_default_signals_reset NL f = Some f1"
    using r(1) by (simp add: call_handler_def fmu_load_signal_handlers_def)
  ultimately show ?thesis
    using r(3,5-7)
    by (intro exI [of _ f1] exI [of _ ?f2] exI [of _ rc] exI [of _ f3] exI [of _ g])
      (auto simp: fmi2DoStep_def status_of_def)
qed

definition demo_table_fmu :: "((string \<times> vptr) list) default_fmu" where
  "demo_table_fmu = demo_fmu\<lparr>vt_table := Some (\<lambda>_. 0),
     vt_marshal_list := [\<lparr>mi_variable = 0, mi_signal = DScalar 0 0\<rparr>, \<lparr>mi_variable = 8, mi_signal = DScalar 0 2\<rparr>]\<rparr>"

lemma demo_table_inv: "default_inv ref_clib demo_table_fmu"
  using demo_fmu_inv unfolding default_inv_def fmu_wf_def
  by (simp add: demo_table_fmu_def codecs_ok_def sv_refs_def dloc_ok_simps)
    (simp add: demo_fmu_def demo_scalar_sv_def)

theorem fmi2_do_step_marshals_witness:
  "\<exists>f1 f2 rc f3 g. fmu_default_signals_reset (ref_nclib (\<lambda>_. ''x'')) demo_table_fmu = Some f1 \<and>
     im_step default_fmu f2 5 1 = Some (rc, f3) \<and>
     fmi2DoStep (fmu_load_signal_handlers ref_clib (ref_nclib (\<lambda>_. ''x'')) (\<lambda>_. None) demo_xpath (\<lambda>_. None)) default_fmu
       (Some demo_table_fmu) 5 1 True = Some (if rc = 0 then FmiOK else FmiError, g) \<and>
     default_inv ref_clib g \<and> \<not> signals_reset g"
  using fmi2_do_step_marshals [where I = default_fmu and env = "\<lambda>_. None" and xp = demo_xpath and parse = "\<lambda>_. None"
      and point = 5 and step_size = 1 and b = True, OF ref_truncate_ok [of "\<lambda>_. ''x''"] demo_table_inv]
  by (auto simp: default_fmu_def default_fmu_init_def default_fmu_step_def)

subsection \<open>Direct access through the value bypass map\<close>

definition apart :: "u32 list \<Rightarrow> bool" where
  "apart vr \<longleftrightarrow> (\<forall>i j. i < j \<longrightarrow> j < length vr \<longrightarrow> unat (vr ! i) + 8 \<le> unat (vr ! j) \<or> unat (vr ! j) + 8 \<le> unat (vr ! i))"

lemma direct_set_loop:
  assumes "di_map f = Some m" "length m = unat (di_size f)" "length vals = length vr" "apart vr"
    "\<forall>v \<in> set vr. unat v + 8 \<le> unat (di_size f)"
  shows "n \<le> length vr \<Longrightarrow> \<exists>m'. foldM (set_real_one lg L vr vals) f [0..<n] = Some (f\<lparr>di_map := Some m'\<rparr>) \<and>
    length m' = length m \<and> (\<forall>i < n. read_f64 m' (unat (vr ! i)) = Some (vals ! i))"
proof (induction n)
  case 0
  have "f = f\<lparr>di_map := Some m\<rparr>" using assms(1) by simp
  then show ?case by auto
next
  case (Suc n)
  then obtain m1 where m1: "foldM (set_real_one lg L vr vals) f [0..<n] = Some (f\<lparr>di_map := Some m1\<rparr>)"
    "length m1 = length m" "\<forall>i < n. read_f64 m1 (unat (vr ! i)) = Some (vals ! i)" by auto
  have n: "n < length vr" using Suc.prems by simp
  have b: "unat (vr ! n) + 8 \<le> unat (di_size f)" using assms(5) n by simp
  then have "unat (vr ! n) + 8 \<le> length m1" using m1(2) assms(2) by simp
  then obtain m2 where m2: "write_f64 m1 (unat (vr ! n)) (vals ! n) = Some m2" by (simp add: write_f64_def)
  have g: "\<not> di_size f < vr ! n" using b by (simp add: word_less_nat_alt)
  have "read_f64 m2 (unat (vr ! i)) = Some (vals ! i)" if "i < Suc n" for i
  proof (cases "i = n")
    case True
    with read_write_f64 [OF m2] show ?thesis by simp
  next
    case False
    with that have i: "i < n" by simp
    with assms(4) n have "unat (vr ! i) + 8 \<le> unat (vr ! n) \<or> unat (vr ! n) + 8 \<le> unat (vr ! i)" by (simp add: apart_def)
    with read_write_f64_other [OF m2] m1(3) i show ?thesis by auto
  qed
  moreover have "set_real_one lg L vr vals (f\<lparr>di_map := Some m1\<rparr>) n = Some (f\<lparr>di_map := Some m2\<rparr>)"
    using n g m2 assms(3) by (simp add: set_real_one_def)
  ultimately show ?case
    using m1 write_f64_length [OF m2] by (intro exI [of _ m2]) (simp add: foldM_append)
qed

lemma direct_get_loop:
  assumes "di_map f = Some m" "\<forall>i < length vr. \<not> di_size f < vr ! i \<and> read_f64 m (unat (vr ! i)) = Some (vals ! i)"
    "length old = length vr" "length vals = length vr"
  shows "n \<le> length vr \<Longrightarrow> foldM (get_real_one lg L vr) (f, old) [0..<n] = Some (f, take n vals @ drop n old)"
proof (induction n)
  case (Suc n)
  then have n: "n < length vr" by simp
  have d: "drop n old = old ! n # drop (Suc n) old" using n assms(3) by (simp add: Cons_nth_drop_Suc)
  have "get_real_one lg L vr (f, take n vals @ drop n old) n = Some (f, take (Suc n) vals @ drop (Suc n) old)"
    using assms n by (simp add: get_real_one_def d take_Suc_conv_app_nth list_update_append)
  with Suc n show ?case by (simp add: foldM_append)
qed simp

text \<open>
  C11: With a value bypass map the reals are stored at their offsets in little endian bytes:
  values written at offsets that keep eight bytes inside the map, and at least eight apart,
  are read back unchanged and nothing is logged.
\<close>

theorem fmi2_direct_roundtrip:
  assumes "di_map f = Some m" "length m = unat (di_size f)" "length vals = length vr" "length old = length vr"
    "apart vr" "\<forall>v \<in> set vr. unat v + 8 \<le> unat (di_size f)"
  shows "\<exists>m'. fmi2SetReal L (Some f) vr vals = Some (FmiOK, f\<lparr>di_map := Some m'\<rparr>) \<and>
    fmi2GetReal L (Some (f\<lparr>di_map := Some m'\<rparr>)) vr old = Some (FmiOK, f\<lparr>di_map := Some m'\<rparr>, vals)"
proof -
  from direct_set_loop [OF assms(1-3,5,6), of "length vr" fmu_log2 L] obtain m' where
    m': "foldM (set_real_one fmu_log2 L vr vals) f [0..<length vr] = Some (f\<lparr>di_map := Some m'\<rparr>)"
    "length m' = length m" "\<forall>i < length vr. read_f64 m' (unat (vr ! i)) = Some (vals ! i)" by auto
  let ?g = "f\<lparr>di_map := Some m'\<rparr>"
  have "\<not> di_size ?g < v" if "v \<in> set vr" for v
    using assms(6) that by (auto simp: word_less_nat_alt)
  then have "\<forall>i < length vr. \<not> di_size ?g < vr ! i \<and> read_f64 m' (unat (vr ! i)) = Some (vals ! i)"
    using m'(3) by simp
  from direct_get_loop [OF _ this assms(4,3), of "length vr" fmu_log2 L] m'(1) assms(3,4) show ?thesis
    by (intro exI [of _ m']) (simp add: fmi2SetReal_def fmi2GetReal_def set_reals_def get_reals_def)
qed

theorem fmi2_direct_roundtrip_witness:
  "\<exists>m'. fmi2SetReal ref_clib (Some (demo_fmu\<lparr>di_map := Some (replicate 24 0), di_size := 24\<rparr>)) [16, 0] [5, 6] =
      Some (FmiOK, demo_fmu\<lparr>di_map := Some (replicate 24 0), di_size := 24\<rparr>\<lparr>di_map := Some m'\<rparr>)"
  using fmi2_direct_roundtrip [of "demo_fmu\<lparr>di_map := Some (replicate 24 0), di_size := 24\<rparr>" "replicate 24 0" "[5, 6]" "[16, 0]" "[0, 0]" ref_clib]
  by (auto simp: apart_def less_Suc_eq)

text \<open>
  C12: The guard of the direct access does not protect the last seven bytes of the map: a
  reference equal to the size of the map passes \<open>vr > size\<close> and the eight bytes read there
  lie outside it, in the read as in the write.
\<close>

theorem fmi2_direct_guard_gap:
  assumes "di_map f = Some m" "length m = unat (di_size f)" "unat (di_size f) < unat v + 8" "v \<le> di_size f"
  shows "fmi2GetReal L (Some f) [v] [x] = None \<and> fmi2SetReal L (Some f) [v] [x] = None"
  using assms by (simp_all add: fmi2GetReal_def fmi2SetReal_def get_reals_def set_reals_def get_real_one_def
      set_real_one_def read_f64_def write_f64_def not_less [symmetric])

theorem fmi2_direct_guard_gap_witness:
  "fmi2GetReal ref_clib (Some (demo_fmu\<lparr>di_map := Some (replicate 24 0), di_size := 24\<rparr>)) [24] [0] = None"
  using fmi2_direct_guard_gap [of "demo_fmu\<lparr>di_map := Some (replicate 24 0), di_size := 24\<rparr>" "replicate 24 0" 24 ref_clib 0]
  by simp

subsection \<open>Binary data between two instances\<close>

text \<open>
  C2: An importer moves binary data between instances as text: what \<open>fmi2GetString\<close> returns
  for an output with the ascii85 encoding, given to \<open>fmi2SetString\<close> for an input with the same
  encoding of another instance, appends exactly the bytes of the output signal there.
\<close>

theorem fmi2_binary_transport:
  assumes "ascii85_ok L" "buffer_ok L" "truncate_ok NL" "fmu_wf L f" "default_inv L f'"
    "index_at L (binary_tx f) (vr_key v) = Some x" "hm_get L (encode_func f) (vr_key v) = Some PEncode"
    "content f (loc_of x) = Some c" "c \<noteq> []" "length c + 16 \<le> 2 ^ 32"
    "index_at L (binary_rx f') (vr_key w) = Some y" "hm_get L (decode_func f') (vr_key w) = Some PDecode"
    "content f' (loc_of y) = Some d"
    "\<forall>g. fmu_default_signals_reset NL f' = Some g \<longrightarrow> room_for L g [(w, Some (ascii85_encode L c))]"
  shows "\<exists>g s h. fmi2GetString L (Some f) [v] [None] = Some (FmiOK, g, [Some s]) \<and>
    fmi2SetString L (fmu_load_signal_handlers L NL env xp parse) (Some f') [w] [Some s] = Some (FmiOK, h) \<and>
    content h (loc_of y) = Some ((if signals_reset f' then d else []) @ c)"
proof -
  obtain b where b: "get_bin (mem_sv f) (svi_sv x) (unat (svi_vi x)) = Some b" "c = bin_content b"
    using assms(8) by (auto simp: content_def loc_of_def)
  have l: "length c = unat (b_len b)"
    unfolding b(2) by (rule bin_content_length [OF get_bin_wf [OF b(1) fmu_wf_maps(5) [OF assms(4)]]])
  with assms(9) have nz: "b_len b \<noteq> 0" by auto
  let ?f = "f\<lparr>free_list := []\<rparr>"
  have wf: "fmu_wf L ?f" using assms(4) by (simp add: fmu_wf_def)
  have sv: "string_value L ?f v = Some (ascii85_encode L c)"
    using assms(6,7) b nz by (simp add: string_value_def)
  have "string_readable L ?f v" using assms(6,7,10) b(1) l by (auto simp: string_readable_def)
  with get_string_one_run [OF wf, of 0 "[v]" "[None]"] sv obtain es where
    "get_string_one L [v] (?f, [None]) 0 = Some (?f\<lparr>log_out := log_out ?f @ es, free_list := free_list ?f @ [ascii85_encode L c]\<rparr>,
       [Some (ascii85_encode L c)])" by auto
  then have get: "\<exists>g. fmi2GetString L (Some f) [v] [None] = Some (FmiOK, g, [Some (ascii85_encode L c)])"
    by (simp add: fmi2GetString_def)
  have room: "\<forall>g. fmu_default_signals_reset NL f' = Some g \<longrightarrow> room_for L g (zip [w] [Some (ascii85_encode L c)])"
    using assms(14) by simp
  have len: "length [Some (ascii85_encode L c)] = length [w]" by simp
  have i: "default_inv L f' \<and> truncate_ok NL" using assms(3,5) by simp
  have r: "\<And>g. call_handler (vt_reset (fmu_load_signal_handlers L NL env xp parse)) f' = Some g \<Longrightarrow>
      room_for L g (zip [w] [Some (ascii85_encode L c)])"
    using room by (simp add: call_handler_def fmu_load_signal_handlers_def)
  from dh.set_string_run [OF assms(2) i len r] obtain h where
    h: "fmi2SetString L (fmu_load_signal_handlers L NL env xp parse) (Some f') [w] [Some (ascii85_encode L c)] = Some (FmiOK, h)"
    "\<And>s. content h s = map_option (\<lambda>c'. (if signals_reset f' then c' else []) @
       addressed L f' s (zip [w] [Some (ascii85_encode L c)])) (content f' s)" by blast
  have "addressed L f' (loc_of y) (zip [w] [Some (ascii85_encode L c)]) = c"
    using assms(11,12) ascii85_okD(1) [OF assms(1)] by (simp add: addressed_def chunk_for_def decoded_def)
  with h(2) [of "loc_of y"] assms(13) have "content h (loc_of y) = Some ((if signals_reset f' then d else []) @ c)" by simp
  with get h(1) show ?thesis by blast
qed

theorem fmi2_binary_transport_witness:
  "\<exists>g s h. fmi2GetString ref_clib (Some demo_fmu) [5] [None] = Some (FmiOK, g, [Some s]) \<and>
    fmi2SetString ref_clib (fmu_load_signal_handlers ref_clib (ref_nclib (\<lambda>_. ''x'')) (\<lambda>_. None) demo_xpath (\<lambda>_. None))
      (Some demo_fmu) [4] [Some s] = Some (FmiOK, h) \<and>
    content h (1, 0) = Some [9, 9]"
proof -
  let ?x = "\<lparr>svi_sv = 1, svi_vi = 0\<rparr>"
  let ?r = "demo_fmu\<lparr>mem_sv := [demo_scalar_sv, demo_bin_sv\<lparr>sv_ncodec := [None], sv_length := [0]\<rparr>], signals_reset := True\<rparr>"
  have m: "index_at ref_clib (binary_tx demo_fmu) (vr_key 5) = Some ?x" "hm_get ref_clib (encode_func demo_fmu) (vr_key 5) = Some PEncode"
    "index_at ref_clib (binary_rx demo_fmu) (vr_key 4) = Some ?x" "hm_get ref_clib (decode_func demo_fmu) (vr_key 4) = Some PDecode"
    by (simp_all add: index_at_def demo_keys ref_clib_def demo_fmu_def)
  have c: "content demo_fmu (loc_of ?x) = Some [9, 9]" using demo_content by (simp add: loc_of_def)
  have room: "room_for ref_clib ?r [(4, Some (ascii85_encode ref_clib [9, 9]))]"
    unfolding room_for_def
  proof (intro allI impI)
    fix s c assume c: "content ?r s = Some c"
    then have s: "s = (1, 0)" using content_only [of ?r 0 s c] by simp
    have "content ?r (1, 0) = Some []"
      by (simp add: content_def get_bin_def nth_opt_def demo_bin_sv_def bin_content_def)
    with c s show "length c + length (addressed ref_clib ?r s [(4, Some (ascii85_encode ref_clib [9, 9]))]) + 16 \<le> 2 ^ 32"
      using m(3,4) by (simp add: addressed_def chunk_for_def decoded_def loc_of_def ref_clib_def ref_encode_def)
  qed
  then have "\<forall>g. fmu_default_signals_reset (ref_nclib (\<lambda>_. ''x'')) demo_fmu = Some g \<longrightarrow>
      room_for ref_clib g [(4, Some (ascii85_encode ref_clib [9, 9]))]"
    by (simp only: demo_reset option.inject) simp
  from fmi2_binary_transport [where env = "\<lambda>_. None" and xp = demo_xpath and parse = "\<lambda>_. None",
      OF ref_ascii85_ok ref_buffer_ok ref_truncate_ok demo_fmu_wf demo_fmu_inv m(1,2) c _ _ m(3,4) c this]
  show ?thesis by (simp add: loc_of_def) (simp add: demo_fmu_def zero_fmu_def)
qed

end
