(* ===== verification/CounterRun.thy ===== *)
theory CounterRun
  imports Fmi2Session
begin

section \<open>The counter example over the FMI 2 interface\<close>

text \<open>
  The counter FMU end to end: created on an instance with its output, it counts the steps of
  the importer, and \<open>fmi2GetReal\<close> reads the count.
\<close>

definition run_steps ::
  "('m, 'd) signal_vtable \<Rightarrow> ('m, 'd) fmu_impl \<Rightarrow> ('m, 'd) fmu \<Rightarrow> (f64 \<times> f64) list \<Rightarrow> ('m, 'd) fmu option" where
  "run_steps H I = foldM (\<lambda>f (point, step_size). do {
     (st, g) \<leftarrow> fmi2DoStep H I (Some f) point step_size True;
     if st = FmiOK then Some g else None })"

text \<open>A counter whose output \<open>p\<close> holds \<open>x\<close>.\<close>

definition counts :: "'m clib \<Rightarrow> 'm nclib \<Rightarrow> 'm \<Rightarrow> dloc \<Rightarrow> f64 \<Rightarrow> 'm default_fmu \<Rightarrow> bool" where
  "counts L NL out p x f \<longleftrightarrow> counter_inv L NL f \<and> vt_marshal_list f = [\<lparr>mi_variable = 0, mi_signal = p\<rparr>] \<and>
     scalar_output f = out \<and> di_map f = None \<and> load f p = Some x"

lemma load_d_scalars:
  assumes "map sv_scalar ms = map sv_scalar ms'"
  shows "load_d ms md p = load_d ms' md p"
proof -
  have l: "length ms = length ms'" using assms by (metis length_map)
  have "sv_scalar (ms ! r) = sv_scalar (ms' ! r)" if "r < length ms" for r
    using assms that l by (metis nth_map)
  with l show ?thesis by (cases p) (auto simp: nth_opt_def)
qed

lemma emptied_fields:
  assumes "emptied f g"
  shows "load g = load f" "vt_marshal_list g = vt_marshal_list f" "scalar_output g = scalar_output f" "di_map g = di_map f"
proof -
  have g: "g = f\<lparr>mem_sv := mem_sv g, nc_heap := nc_heap g, signals_reset := True\<rparr>" "map sv_scalar (mem_sv g) = map sv_scalar (mem_sv f)"
    using assms by (simp_all add: emptied_def)
  then show "vt_marshal_list g = vt_marshal_list f" "scalar_output g = scalar_output f" "di_map g = di_map f"
    by (auto dest: arg_cong [where f = vt_marshal_list] arg_cong [where f = scalar_output] arg_cong [where f = di_map])
  have "mem_dbl g = mem_dbl f" using g(1) by (auto dest: arg_cong [where f = mem_dbl])
  with load_d_scalars [OF g(2)] show "load g = load f" by (intro ext) (simp add: load.simps)
qed

lemma counts_reset:
  assumes "counts L NL out p x f"
  shows "\<exists>g. call_handler (vt_reset (fmu_load_signal_handlers L NL env xp parse)) f = Some g \<and> counts L NL out p x g"
proof -
  have i: "counter_inv L NL f" using assms by (simp add: counts_def)
  from ch.reset_run [OF this] obtain g where
    g: "call_handler (vt_reset (fmu_load_signal_handlers L NL env xp parse)) f = Some g" "counter_inv L NL g"
      "if signals_reset f then g = f else emptied f g" by blast
  then have "g = f \<or> emptied f g" by (simp split: if_splits)
  then have "vt_marshal_list g = vt_marshal_list f \<and> scalar_output g = scalar_output f \<and> di_map g = di_map f \<and> load g = load f"
    using emptied_fields [of f g] by auto
  with g(1,2) assms show ?thesis by (auto simp: counts_def)
qed

lemma counts_step:
  assumes "counts L NL out p x f"
  shows "\<exists>g. fmi2DoStep (fmu_load_signal_handlers L NL env xp parse) (counter_fmu L inc) (Some f) point step_size b = Some (FmiOK, g) \<and>
    counts L NL out p (inc x) g"
proof -
  from counts_reset [OF assms, of env xp parse] obtain f1 where
    1: "call_handler (vt_reset (fmu_load_signal_handlers L NL env xp parse)) f = Some f1" "counts L NL out p x f1" by blast
  then have i: "counter_inv L NL f1" and m: "vt_marshal_list f1 = [\<lparr>mi_variable = 0, mi_signal = p\<rparr>]" and x: "load f1 p = Some x"
    by (simp_all add: counts_def)
  from i obtain t where t: "vt_table f1 = Some t" by (auto simp: counter_inv_def)
  let ?f3 = "f1\<lparr>vt_table := Some (table_put (table_put t 0 x) 0 (inc x))\<rparr>"
  have 2: "marshal_to_table f1 = Some (f1\<lparr>vt_table := Some (table_put t 0 x)\<rparr>)"
    by (simp add: marshal_to_table_def m to_table_def x t)
  have 3: "im_step (counter_fmu L inc) (f1\<lparr>vt_table := Some (table_put t 0 x)\<rparr>) point step_size = Some (0, ?f3)"
    by (simp add: counter_fmu_def counter_step_def fmu_var_table_def table_put_def)
  have i3: "counter_inv L NL ?f3"
    using i default_inv_table [of L f1 "table_put (table_put t 0 x) 0 (inc x)"] unfolding counter_inv_def by simp
  then have wf: "fmu_wf L ?f3" by (rule ch.inv_wf)
  have "load ?f3 p = Some x" using x by simp
  then obtain g where g: "store ?f3 p (inc x) = Some g" using load_ok [of ?f3 p] store_ok [of ?f3 p] by auto
  have 4: "marshal_from_table ?f3 = Some g"
    using g by (simp add: marshal_from_table_def m from_table_def table_put_def)
  let ?g = "g\<lparr>signals_reset := False\<rparr>"
  have "do_step (fmu_load_signal_handlers L NL env xp parse) (counter_fmu L inc) f point step_size = Some (FmiOK, ?g)"
    by (simp add: do_step_def 1(1) 2 3 4 status_of_def)
  moreover have "counter_inv L NL ?g"
    by (rule cm.inv_update(1) [OF cm.inv_scalars_only [OF i3 store_scalars_only [OF g] store_wf [OF g wf]]])
  moreover have "load ?g p = Some (inc x)" using load_store [OF g, of p] by (simp add: load.simps)
  moreover have "vt_marshal_list g = vt_marshal_list f1 \<and> scalar_output g = scalar_output f1 \<and> di_map g = di_map f1"
    using store_scalars_only [OF g] by (auto simp: scalars_only_def)
  ultimately show ?thesis using 1(2) by (intro exI [of _ ?g]) (simp add: fmi2DoStep_def counts_def)
qed

lemma counts_steps:
  "counts L NL out p x f \<Longrightarrow> \<exists>g. run_steps (fmu_load_signal_handlers L NL env xp parse) (counter_fmu L inc) f ps = Some g \<and>
     counts L NL out p ((inc ^^ length ps) x) g"
proof (induction ps arbitrary: f x)
  case Nil
  then show ?case by (simp add: run_steps_def)
next
  case (Cons s ps)
  obtain point step_size where s: "s = (point, step_size)" by fastforce
  from counts_step [OF Cons.prems, of env xp parse inc point step_size True] obtain g where
    g: "fmi2DoStep (fmu_load_signal_handlers L NL env xp parse) (counter_fmu L inc) (Some f) point step_size True = Some (FmiOK, g)"
      "counts L NL out p (inc x) g" by blast
  from Cons.IH [OF g(2)] g(1) show ?case by (simp add: run_steps_def s funpow_swap1)
qed

lemma fmt_one: "fmt_i 1 = ''1''"
  by (simp add: fmt_i_def show_int_def show_nat.simps digit_char_def char_of_def bit_iff_odd)

lemma counter_created:
  assumes "truncate_ok NL" "default_inv L f" "vt_var_list f = []" "di_map f = None" "1 < hashlist_key_len L"
    "hm_get L (scalar_output f) ''1'' = Some (PDouble p)" "load f p = Some x" "counter_create L f = Some (0, f1, CreatedSame)"
  shows "counts L NL (scalar_output f) p x f1"
proof -
  let ?t = "\<lambda>a. if a = 0 then 0 else 0 :: f64"
  let ?f1 = "f\<lparr>vt_table := Some ?t, vt_marshal_list := [\<lparr>mi_variable = 0, mi_signal = p\<rparr>], vt_var_list := []\<rparr>"
  have k': "snprintf (hashlist_key_len L) ''1'' = ''1''" using assms(5) by (simp add: snprintf_def)
  have f1: "f1 = ?f1"
    using assms(3,6,8) by (simp add: counter_create_def fmu_register_var_def fmt_one k' get_double_def fmu_register_var_table_def)
  have ok: "dloc_ok (mem_sv f) (mem_dbl f) p" using assms(7) load_ok [of f p] by simp
  have "default_inv L ?f1" using assms(2) ok by (simp add: default_inv_def fmu_wf_def codecs_ok_def sv_refs_def)
  then show ?thesis using assms(1,4,7) by (simp add: f1 counts_def counter_inv_def load.simps)
qed

lemma counts_value:
  assumes "counts L NL out p x f" "hm_get L out ''1'' = Some (PDouble p)"
  shows "fmi2GetReal L (Some f) [1] [old] = Some (FmiOK, f, [x])"
proof -
  have wf: "fmu_wf L f" and d: "di_map f = None" and o: "scalar_output f = out" and x: "load f p = Some x"
    using assms(1) by (auto simp: counts_def counter_inv_def default_inv_def)
  have "vr_key 1 = ''1''" by (simp add: vr_key_def fmt_one snprintf_def VREF_KEY_LEN_def)
  then have "real_value L f 1 = Some x" using assms(2) x by (simp add: real_value_def get_loc_def double_at_def o)
  with get_reals_run [OF wf d, of "[old]" "[1]" fmu_log2] show ?thesis by (simp add: fmi2GetReal_def)
qed

text \<open>
  C15: The counter counts: created on an instance of the default handlers whose model
  description has the output, it holds the number of steps taken since: after any steps of
  the importer (all \<open>fmi2OK\<close>), \<open>fmi2GetReal\<close> reads the start value incremented once per step.
\<close>

theorem counter_counts:
  assumes "truncate_ok NL" "default_inv L f" "vt_var_list f = []" "di_map f = None" "1 < hashlist_key_len L"
    "hm_get L (scalar_output f) ''1'' = Some (PDouble p)" "load f p = Some x"
  shows "\<exists>f1 g. counter_create L f = Some (0, f1, CreatedSame) \<and>
    run_steps (fmu_load_signal_handlers L NL env xp parse) (counter_fmu L inc) f1 steps = Some g \<and>
    fmi2GetReal L (Some g) [1] [old] = Some (FmiOK, g, [(inc ^^ length steps) x])"
proof -
  have k': "snprintf (hashlist_key_len L) ''1'' = ''1''" using assms(5) by (simp add: snprintf_def)
  obtain f1 where c: "counter_create L f = Some (0, f1, CreatedSame)"
    using assms(3,6) by (simp add: counter_create_def fmu_register_var_def fmt_one k' get_double_def fmu_register_var_table_def)
  from counts_steps [OF counter_created [OF assms c], of env xp parse inc steps] obtain g where
    "run_steps (fmu_load_signal_handlers L NL env xp parse) (counter_fmu L inc) f1 steps = Some g"
    "counts L NL (scalar_output f) p ((inc ^^ length steps) x) g" by blast
  with c counts_value [OF _ assms(6)] show ?thesis by blast
qed

definition demo_counter :: "((string \<times> vptr) list) default_fmu" where
  "demo_counter = demo_fmu\<lparr>scalar_output := [(''1'', PDouble (DScalar 0 2))]\<rparr>"

lemma demo_counter_inv: "default_inv ref_clib demo_counter"
  using demo_fmu_inv unfolding default_inv_def fmu_wf_def
  by (simp add: demo_counter_def codecs_ok_def sv_refs_def scalar_map_ok_def ref_clib_def dloc_ok_simps)
    (simp add: demo_fmu_def demo_scalar_sv_def)

theorem counter_counts_witness:
  "\<exists>f1 g. counter_create ref_clib demo_counter = Some (0, f1, CreatedSame) \<and>
    run_steps (fmu_load_signal_handlers ref_clib (ref_nclib (\<lambda>_. ''x'')) (\<lambda>_. None) demo_xpath (\<lambda>_. None))
      (counter_fmu ref_clib (\<lambda>x. x + 1)) f1 [(0, 1), (1, 1), (2, 1)] = Some g \<and>
    fmi2GetReal ref_clib (Some g) [1] [0] = Some (FmiOK, g, [10])"
proof -
  have p: "vt_var_list demo_counter = []" "di_map demo_counter = None" "1 < hashlist_key_len ref_clib"
    "hm_get ref_clib (scalar_output demo_counter) ''1'' = Some (PDouble (DScalar 0 2))" "load demo_counter (DScalar 0 2) = Some 7"
    by (simp_all add: demo_counter_def demo_fmu_def zero_fmu_def ref_clib_def load.simps demo_scalar_sv_def nth_opt_def)
  from counter_counts [where env = "\<lambda>_. None" and xp = demo_xpath and parse = "\<lambda>_. None" and inc = "\<lambda>x. x + 1"
      and steps = "[(0, 1), (1, 1), (2, 1)]" and old = 0, OF ref_truncate_ok demo_counter_inv p]
  show ?thesis by (simp add: numeral_3_eq_3)
qed

end
