(* ===== verification/LinearFmu.thy ===== *)
theory LinearFmu
  imports CounterRun
begin

section \<open>The linear example (dse/examples/fmu/linear/linear.c)\<close>

text \<open>
  A user FMU with three inputs and an output, \<open>y = m * x + c\<close>. The product and the sum of doubles
  are parameters. The table has its fields at the offsets 0 (input), 8 (factor), 16 (offset) and
  24 (output); its initialisers are taken in the order of the source.
\<close>

record linear_ops =
  lin_mul :: "f64 \<Rightarrow> f64 \<Rightarrow> f64"
  lin_add :: "f64 \<Rightarrow> f64 \<Rightarrow> f64"

definition linear_create :: "'m clib \<Rightarrow> ('m, 'd) fmu \<Rightarrow> (int \<times> ('m, 'd) fmu \<times> ('m, 'd) fmu created) option" where
  "linear_create L f = do {
     (input, f1) \<leftarrow> fmu_register_var L f 1 True 0;
     (factor, f2) \<leftarrow> fmu_register_var L f1 2 True 8;
     (offset, f3) \<leftarrow> fmu_register_var L f2 3 True 16;
     (output, f4) \<leftarrow> fmu_register_var L f3 4 False 24;
     Some (0, fmu_register_var_table f4 (\<lambda>a. if a = 0 then input else if a = 8 then factor else if a = 16 then offset
       else if a = 24 then output else 0), CreatedSame) }"

definition linear_init :: "('m, 'd) fmu \<Rightarrow> (int \<times> ('m, 'd) fmu) option" where
  "linear_init f = Some (0, f)"

definition linear_step :: "linear_ops \<Rightarrow> ('m, 'd) fmu \<Rightarrow> f64 \<Rightarrow> f64 \<Rightarrow> (int \<times> ('m, 'd) fmu) option" where
  "linear_step D f point step_size = do {
     t \<leftarrow> fmu_var_table f;
     Some (0, f\<lparr>vt_table := Some (table_put t 24 (lin_add D (lin_mul D (t 0) (t 8)) (t 16)))\<rparr>) }"

definition linear_destroy :: "('m, 'd) fmu \<Rightarrow> (int \<times> ('m, 'd) fmu) option" where
  "linear_destroy f = Some (0, f)"

definition linear_fmu :: "'m clib \<Rightarrow> linear_ops \<Rightarrow> ('m, 'd) fmu_impl" where
  "linear_fmu L D = \<lparr>im_create = linear_create L, im_init = linear_init,
     im_step = linear_step D, im_destroy = linear_destroy\<rparr>"

interpretation lm: fmu_model L "counter_inv L NL" "fmu_load_signal_handlers L NL env xp parse" "linear_fmu L D"
  for L NL env xp parse D
proof
  fix f :: "'a default_fmu" and point step_size assume i: "counter_inv L NL f"
  then show "\<exists>rc g. im_init (linear_fmu L D) f = Some (rc, g) \<and> counter_inv L NL g"
    by (simp add: linear_fmu_def linear_init_def)
  from i obtain t where "vt_table f = Some t" by (auto simp: counter_inv_def)
  with i default_inv_table show "\<exists>rc g. im_step (linear_fmu L D) f point step_size = Some (rc, g) \<and> counter_inv L NL g"
    by (auto simp: linear_fmu_def linear_step_def fmu_var_table_def counter_inv_def)
qed

subsection \<open>What it computes\<close>

definition linear_items :: "dloc list \<Rightarrow> marshal_item list" where
  "linear_items ps = map (\<lambda>(a, p). \<lparr>mi_variable = a, mi_signal = p\<rparr>) (zip [0, 8, 16, 24] ps)"

lemma linear_keys: "fmt_i 1 = ''1''" "fmt_i 2 = ''2''" "fmt_i 3 = ''3''" "fmt_i 4 = ''4''"
  by (simp_all add: fmt_i_def show_int_def show_nat.simps digit_char_def char_of_def bit_iff_odd)

text \<open>The variables of the model description, and where their signals are.\<close>

definition linear_signals :: "'m clib \<Rightarrow> ('m, 'd) fmu \<Rightarrow> dloc \<Rightarrow> dloc \<Rightarrow> dloc \<Rightarrow> dloc \<Rightarrow> bool" where
  "linear_signals L f p1 p2 p3 p4 \<longleftrightarrow> hm_get L (scalar_input f) ''1'' = Some (PDouble p1) \<and>
     hm_get L (scalar_input f) ''2'' = Some (PDouble p2) \<and> hm_get L (scalar_input f) ''3'' = Some (PDouble p3) \<and>
     hm_get L (scalar_output f) ''4'' = Some (PDouble p4)"

lemma linear_created:
  assumes "truncate_ok NL" "default_inv L f" "vt_var_list f = []" "1 < hashlist_key_len L" "linear_signals L f p1 p2 p3 p4"
  shows "\<exists>f1. linear_create L f = Some (0, f1, CreatedSame) \<and> counter_inv L NL f1 \<and> vt_marshal_list f1 = linear_items [p1, p2, p3, p4] \<and>
    scalar_input f1 = scalar_input f \<and> scalar_output f1 = scalar_output f \<and> di_map f1 = di_map f \<and> load f1 = load f"
proof -
  have k: "snprintf (hashlist_key_len L) [c] = [c]" for c using assms(4) by (simp add: snprintf_def)
  let ?f1 = "f\<lparr>vt_table := Some (\<lambda>a. 0), vt_marshal_list := linear_items [p1, p2, p3, p4], vt_var_list := []\<rparr>"
  have z: "(\<lambda>a :: u64. if a = 0 then 0 else if a = 8 then 0 else if a = 16 then 0 else if a = 24 then 0 else 0 :: f64) = (\<lambda>a. 0)"
    by (rule ext) simp
  have "linear_create L f = Some (0, ?f1, CreatedSame)"
    using assms(3,5) by (simp add: linear_create_def fmu_register_var_def linear_keys k get_double_def fmu_register_var_table_def
        linear_signals_def linear_items_def z)
  moreover have "fmu_wf L f" using assms(2) by (simp add: default_inv_def)
  then have "dloc_ok (mem_sv f) (mem_dbl f) p1" "dloc_ok (mem_sv f) (mem_dbl f) p2" "dloc_ok (mem_sv f) (mem_dbl f) p3"
    "dloc_ok (mem_sv f) (mem_dbl f) p4"
    using assms(5) by (auto simp: fmu_wf_def scalar_map_ok_def linear_signals_def)
  then have "default_inv L ?f1"
    using assms(2) by (simp add: default_inv_def fmu_wf_def codecs_ok_def sv_refs_def linear_items_def)
  ultimately show ?thesis using assms(1) by (auto simp: counter_inv_def load.simps intro!: ext)
qed

lemma linear_reset:
  assumes "counter_inv L NL f"
  shows "\<exists>g. call_handler (vt_reset (fmu_load_signal_handlers L NL env xp parse)) f = Some g \<and> counter_inv L NL g \<and>
    vt_marshal_list g = vt_marshal_list f \<and> scalar_output g = scalar_output f \<and> di_map g = di_map f \<and> load g = load f"
proof -
  from ch.reset_run [OF assms] obtain g where
    g: "call_handler (vt_reset (fmu_load_signal_handlers L NL env xp parse)) f = Some g" "counter_inv L NL g"
      "if signals_reset f then g = f else emptied f g" by blast
  then have "g = f \<or> emptied f g" by (simp split: if_splits)
  with emptied_fields [of f g] g(1,2) show ?thesis by auto
qed

lemma linear_step_run:
  assumes "counter_inv L NL f" "vt_marshal_list f = linear_items [p1, p2, p3, p4]"
    "load f p1 = Some x" "load f p2 = Some m" "load f p3 = Some c"
  shows "\<exists>g. fmi2DoStep (fmu_load_signal_handlers L NL env xp parse) (linear_fmu L D) (Some f) point step_size b = Some (FmiOK, g) \<and>
    counter_inv L NL g \<and> scalar_output g = scalar_output f \<and> di_map g = di_map f \<and>
    load g p4 = Some (lin_add D (lin_mul D x m) c)"
proof -
  from linear_reset [OF assms(1), of env xp parse] obtain f1 where
    1: "call_handler (vt_reset (fmu_load_signal_handlers L NL env xp parse)) f = Some f1" "counter_inv L NL f1"
      "vt_marshal_list f1 = linear_items [p1, p2, p3, p4]" "scalar_output f1 = scalar_output f" "di_map f1 = di_map f" "load f1 = load f"
    using assms(2) by auto
  let ?y = "lin_add D (lin_mul D x m) c"
  let ?t = "table_copy (load f) (linear_items [p1, p2, p3, p4]) (the (vt_table f1))"
  have t: "?t 0 = x" "?t 8 = m" "?t 16 = c"
    using assms(3-5) by (simp_all add: table_copy_def linear_items_def table_put_def)
  have 2: "marshal_to_table f1 = Some (f1\<lparr>vt_table := Some ?t\<rparr>)"
    using marshal_to_table_run [OF ch.inv_wf [OF 1(2)]] 1(3,6) by (simp add: linear_items_def)
  let ?f3 = "f1\<lparr>vt_table := Some (table_put ?t 24 ?y)\<rparr>"
  have 3: "im_step (linear_fmu L D) (f1\<lparr>vt_table := Some ?t\<rparr>) point step_size = Some (0, ?f3)"
    by (simp add: linear_fmu_def linear_step_def fmu_var_table_def t)
  have i3: "counter_inv L NL ?f3"
    using 1(2) default_inv_table [of L f1 "table_put ?t 24 ?y"] unfolding counter_inv_def by simp
  from marshal_from_table_run [OF ch.inv_wf [OF i3]] obtain f4 where
    4: "marshal_from_table ?f3 = Some f4" "fmu_wf L f4" "scalars_only ?f3 f4"
      "load f4 = signal_copy (the (vt_table ?f3)) (vt_marshal_list ?f3) (load ?f3)" by blast
  let ?g = "f4\<lparr>signals_reset := False\<rparr>"
  have "load f4 p4 = Some ?y" unfolding 4(4) by (simp add: 1(3) signal_copy_def linear_items_def table_put_def)
  then have "load ?g p4 = Some ?y" by (simp add: load.simps)
  moreover have "counter_inv L NL ?g" by (rule lm.inv_update(1) [OF lm.inv_scalars_only [OF i3 4(3,2)]])
  moreover have "scalar_output ?g = scalar_output f" "di_map ?g = di_map f" using 4(3) 1(4,5) by (auto simp: scalars_only_def)
  moreover have "fmi2DoStep (fmu_load_signal_handlers L NL env xp parse) (linear_fmu L D) (Some f) point step_size b = Some (FmiOK, ?g)"
    by (simp add: fmi2DoStep_def do_step_def 1(1) 2 3 4(1) status_of_def)
  ultimately show ?thesis by blast
qed

text \<open>
  C16: The linear FMU computes \<open>y = m * x + c\<close> for its importer: created over signals for its four
  variables, after \<open>fmi2SetReal\<close> of the inputs and a step, \<open>fmi2GetReal\<close> of the output reads the
  value for these inputs.
\<close>

theorem linear_computes:
  assumes "truncate_ok NL" "default_inv L f" "vt_var_list f = []" "di_map f = None" "1 < hashlist_key_len L"
    "linear_signals L f p1 p2 p3 p4" "distinct [p1, p2, p3]"
  shows "\<exists>f1 f2 f3. linear_create L f = Some (0, f1, CreatedSame) \<and>
    fmi2SetReal L (Some f1) [1, 2, 3] [x, m, c] = Some (FmiOK, f2) \<and>
    fmi2DoStep (fmu_load_signal_handlers L NL env xp parse) (linear_fmu L D) (Some f2) point step_size b = Some (FmiOK, f3) \<and>
    fmi2GetReal L (Some f3) [4] [old] = Some (FmiOK, f3, [lin_add D (lin_mul D x m) c])"
proof -
  from linear_created [OF assms(1-3,5,6)] obtain f1 where
    1: "linear_create L f = Some (0, f1, CreatedSame)" "counter_inv L NL f1" "vt_marshal_list f1 = linear_items [p1, p2, p3, p4]"
      "scalar_input f1 = scalar_input f" "scalar_output f1 = scalar_output f" "di_map f1 = None" using assms(4) by metis
  from set_reals_run [OF ch.inv_wf [OF 1(2)] 1(6), of "[x, m, c]" "[1, 2, 3]" fmu_log2] obtain f2 where
    2: "set_reals fmu_log2 L f1 [1, 2, 3] [x, m, c] = Some (FmiOK, f2)" "fmu_wf L f2" "scalars_only f1 f2"
      "load f2 = assign_inputs L f1 [(1, x), (2, m), (3, c)] (load f1)" by auto
  have "input_loc L f1 1 = Some p1" "input_loc L f1 2 = Some p2" "input_loc L f1 3 = Some p3"
    using assms(6) by (simp_all add: input_loc_def double_at_def demo_keys 1(4) linear_signals_def)
  then have l: "load f2 p1 = Some x" "load f2 p2 = Some m" "load f2 p3 = Some c"
    using assms(7) by (simp_all add: 2(4) assign_inputs_def)
  have k: "vt_marshal_list f2 = linear_items [p1, p2, p3, p4]" "scalar_output f2 = scalar_output f" "di_map f2 = None"
    using 2(3) 1(3,5,6) by (auto simp: scalars_only_def)
  from linear_step_run [OF lm.inv_scalars_only [OF 1(2) 2(3,2)] k(1) l, of env xp parse D point step_size b] k(2,3) obtain f3 where
    3: "fmi2DoStep (fmu_load_signal_handlers L NL env xp parse) (linear_fmu L D) (Some f2) point step_size b = Some (FmiOK, f3)"
      "counter_inv L NL f3" "scalar_output f3 = scalar_output f" "di_map f3 = None" "load f3 p4 = Some (lin_add D (lin_mul D x m) c)" by metis
  have "real_value L f3 4 = Some (lin_add D (lin_mul D x m) c)"
    using assms(6) by (simp add: real_value_def get_loc_def double_at_def demo_keys 3(3,5) linear_signals_def)
  with get_reals_run [OF ch.inv_wf [OF 3(2)] 3(4), of "[old]" "[4]" fmu_log2]
  have "fmi2GetReal L (Some f3) [4] [old] = Some (FmiOK, f3, [lin_add D (lin_mul D x m) c])" by (simp add: fmi2GetReal_def)
  with 1(1) 2(1) 3(1) show ?thesis by (auto simp: fmi2SetReal_def)
qed

text \<open>Four signals in one vector.\<close>

definition demo_linear_sv :: signal_vector where
  "demo_linear_sv = demo_scalar_sv\<lparr>sv_count := 4, sv_signal := [None, None, None, None], sv_scalar := Some [0, 0, 0, 0]\<rparr>"

definition demo_linear :: "((string \<times> vptr) list) default_fmu" where
  "demo_linear = (zero_fmu [] (Some [0]))\<lparr>mem_sv := [demo_linear_sv],
     scalar_input := [(''1'', PDouble (DScalar 0 0)), (''2'', PDouble (DScalar 0 1)), (''3'', PDouble (DScalar 0 2))],
     scalar_output := [(''4'', PDouble (DScalar 0 3))]\<rparr>"

lemma demo_linear_inv: "default_inv ref_clib demo_linear"
proof -
  have "fmu_wf ref_clib demo_linear"
    by (auto simp: fmu_wf_def demo_linear_def zero_fmu_def mem_wf_def sv_wf_def demo_linear_sv_def demo_scalar_sv_def
        scalar_map_ok_def binary_map_ok_def func_map_ok_def ref_clib_def dloc_ok_simps nth_Cons')
  then show ?thesis
    by (simp add: default_inv_def codecs_ok_def sv_refs_def demo_linear_def zero_fmu_def demo_linear_sv_def demo_scalar_sv_def)
qed

theorem linear_computes_witness:
  "\<exists>f1 f2 f3. linear_create ref_clib demo_linear = Some (0, f1, CreatedSame) \<and>
    fmi2SetReal ref_clib (Some f1) [1, 2, 3] [5, 3, 1] = Some (FmiOK, f2) \<and>
    fmi2DoStep (fmu_load_signal_handlers ref_clib (ref_nclib (\<lambda>_. ''x'')) (\<lambda>_. None) demo_xpath (\<lambda>_. None))
      (linear_fmu ref_clib \<lparr>lin_mul = (\<lambda>x y. x * y), lin_add = (+)\<rparr>) (Some f2) 0 1 True = Some (FmiOK, f3) \<and>
    fmi2GetReal ref_clib (Some f3) [4] [0] = Some (FmiOK, f3, [16])"
proof -
  have p: "vt_var_list demo_linear = []" "di_map demo_linear = None" "1 < hashlist_key_len ref_clib"
    "linear_signals ref_clib demo_linear (DScalar 0 0) (DScalar 0 1) (DScalar 0 2) (DScalar 0 3)"
    "distinct [DScalar 0 0, DScalar 0 1, DScalar 0 2]"
    by (simp_all add: demo_linear_def zero_fmu_def ref_clib_def linear_signals_def)
  from linear_computes [where D = "\<lparr>lin_mul = (\<lambda>x y. x * y), lin_add = (+)\<rparr>" and x = 5 and m = 3 and c = 1 and old = 0 and point = 0 and step_size = 1
      and b = True and env = "\<lambda>_. None" and xp = demo_xpath and parse = "\<lambda>_. None", OF ref_truncate_ok demo_linear_inv p]
  show ?thesis by simp
qed

end
