(* ===== verification/Fmi3Fmu.thy ===== *)
theory Fmi3Fmu
  imports FmuModel
begin

section \<open>The FMI 3 interface of an FMU (dse/fmu/fmi3fmu.c)\<close>

text \<open>
  The FMI 3 adapter over the same instance: the Float64 and step functions are the shared
  loops with its own \<open>fmu_log\<close>, binary variables carry explicit sizes, and strings are kept
  apart from them. \<open>None\<close> is a fault, as in the FMI 2 adapter; a null \<open>fmi3Instance\<close> fails the
  \<open>assert\<close>. Functions carried for packaging return \<open>fmi3OK\<close>.
\<close>

subsection \<open>Instances\<close>

definition fmi3InstantiateModelExchange :: "string \<Rightarrow> string \<Rightarrow> string \<Rightarrow> bool \<Rightarrow> bool \<Rightarrow> ('m, 'd) fmu option" where
  "fmi3InstantiateModelExchange name token path visible logging_on = None"

definition fmi3InstantiateScheduledExecution :: "string \<Rightarrow> string \<Rightarrow> string \<Rightarrow> bool \<Rightarrow> bool \<Rightarrow> ('m, 'd) fmu option" where
  "fmi3InstantiateScheduledExecution name token path visible logging_on = None"

definition fmi3InstantiateCoSimulation ::
  "'m clib \<Rightarrow> ('m, 'd) signal_vtable \<Rightarrow> ('m, 'd) fmu_impl \<Rightarrow> string \<Rightarrow> string \<Rightarrow> 'm \<Rightarrow> 'd
     \<Rightarrow> string \<Rightarrow> string \<Rightarrow> string \<Rightarrow> bool \<Rightarrow> bool \<Rightarrow> ('m, 'd) fmu option" where
  "fmi3InstantiateCoSimulation L H I scheme short_scheme m0 d0 name token path logging_on has_logger =
    build_instance fmu_log3 L H I scheme short_scheme
      ((zero_fmu m0 d0)\<lparr>inst_name := name, inst_resource_location := path, inst_guid := token,
         inst_log_enabled := logging_on, inst_version := 3,
         inst_logger := (if has_logger then UserLogger else DefaultLogger)\<rparr>)"

definition fmi3FreeInstance ::
  "'m clib \<Rightarrow> ('m, 'd) signal_vtable \<Rightarrow> ('m, 'd) fmu_impl \<Rightarrow> ('m, 'd) fmu option \<Rightarrow> ('m, 'd) fmu option" where
  "fmi3FreeInstance L H I c = do { f \<leftarrow> c;
     release_instance fmu_log3 L H I ''Error while releasing the allocated specialised model.'' f }"

definition fmi3SetDebugLogging :: "('m, 'd) fmu option \<Rightarrow> bool \<Rightarrow> string list \<Rightarrow> (fmi_status \<times> ('m, 'd) fmu) option" where
  "fmi3SetDebugLogging c on cats = do { f \<leftarrow> c; Some (FmiOK, f) }"

definition fmi3ExitInitializationMode :: "('m, 'd) fmu_impl \<Rightarrow> ('m, 'd) fmu option \<Rightarrow> (fmi_status \<times> ('m, 'd) fmu) option" where
  "fmi3ExitInitializationMode I c = do { f \<leftarrow> c; exit_init I f }"

subsection \<open>Float64\<close>

definition fmi3GetFloat64 ::
  "'m clib \<Rightarrow> ('m, 'd) fmu option \<Rightarrow> u32 list \<Rightarrow> f64 list \<Rightarrow> (fmi_status \<times> ('m, 'd) fmu \<times> f64 list) option" where
  "fmi3GetFloat64 L c vr vals = do { f \<leftarrow> c; get_reals fmu_log3 L f vr vals }"

definition fmi3SetFloat64 ::
  "'m clib \<Rightarrow> ('m, 'd) fmu option \<Rightarrow> u32 list \<Rightarrow> f64 list \<Rightarrow> (fmi_status \<times> ('m, 'd) fmu) option" where
  "fmi3SetFloat64 L c vr vals = do { f \<leftarrow> c; set_reals fmu_log3 L f vr vals }"

subsection \<open>Binary\<close>

text \<open>\<open>valueSizes\<close> receives the length of the signal, also for an encoded value.\<close>

definition get_binary_one ::
  "'m clib \<Rightarrow> u32 list \<Rightarrow> ('m, 'd) fmu \<times> u64 list \<times> bytes option list \<Rightarrow> nat
     \<Rightarrow> (('m, 'd) fmu \<times> u64 list \<times> bytes option list) option" where
  "get_binary_one L vr s i = (case s of (f, sizes, vals) \<Rightarrow> do {
     vals1 \<leftarrow> upd_opt vals i None;
     v \<leftarrow> nth_opt vr i;
     idx \<leftarrow> get_index L (binary_tx f) (vr_key v);
     case idx of None \<Rightarrow> Some (f, sizes, vals1)
     | Some x \<Rightarrow> do {
         b \<leftarrow> get_bin (mem_sv f) (svi_sv x) (unat (svi_vi x));
         case b_buf b of None \<Rightarrow> Some (f, sizes, vals1)
         | Some buf \<Rightarrow>
             if b_len b = 0 then Some (f, sizes, vals1)
             else do {
               f1 \<leftarrow> fmi3_log_binary_signal f (Some x) ''GetBinary'';
               ef \<leftarrow> has_func L (encode_func f1) (vr_key v) PEncode;
               val \<leftarrow> (if ef then Some (ascii85_encode L (take (unat (b_len b)) buf))
                     else if unat (b_len b) \<le> length buf then Some (take (unat (b_len b)) buf) else None);
               vals2 \<leftarrow> upd_opt vals1 i (Some val);
               sizes1 \<leftarrow> upd_opt sizes i (ucast (b_len b));
               Some (f1\<lparr>free_list := free_list f1 @ [val]\<rparr>, sizes1, vals2) } } })"

definition fmi3GetBinary ::
  "'m clib \<Rightarrow> ('m, 'd) fmu option \<Rightarrow> u32 list \<Rightarrow> u64 list \<Rightarrow> bytes option list
     \<Rightarrow> (fmi_status \<times> ('m, 'd) fmu \<times> u64 list \<times> bytes option list) option" where
  "fmi3GetBinary L c vr sizes vals = do {
     f \<leftarrow> c;
     (g, sizes', vals') \<leftarrow> foldM (get_binary_one L vr) (f\<lparr>free_list := []\<rparr>, sizes, vals) [0..<length vr];
     Some (FmiOK, g, sizes', vals') }"

definition fmi3SetString ::
  "'m clib \<Rightarrow> ('m, 'd) fmu option \<Rightarrow> u32 list \<Rightarrow> bytes option list \<Rightarrow> (fmi_status \<times> ('m, 'd) fmu) option" where
  "fmi3SetString L c vr vals = do {
     f \<leftarrow> c;
     g \<leftarrow> foldM (\<lambda>f i. do {
        item \<leftarrow> nth_opt vals i;
        case item of None \<Rightarrow> Some f
        | Some str \<Rightarrow> do {
            v \<leftarrow> nth_opt vr i;
            Some (f\<lparr>string_input := hm_set L (string_input f) (vr_key v) (PString str)\<rparr>) } }) f [0..<length vr];
     Some (FmiOK, g) }"

text \<open>
  A value is the memory behind its pointer; without a decoder the caller's size says how much
  of it is read. A decoder stores the decoded size in the caller's (const) array.
\<close>

definition set_binary_one ::
  "'m clib \<Rightarrow> u32 list \<Rightarrow> bytes option list \<Rightarrow> ('m, 'd) fmu \<times> u64 list \<Rightarrow> nat \<Rightarrow> (('m, 'd) fmu \<times> u64 list) option" where
  "set_binary_one L vr vals s i = (case s of (f, sizes) \<Rightarrow> do {
     item \<leftarrow> nth_opt vals i;
     case item of None \<Rightarrow> Some (f, sizes)
     | Some val \<Rightarrow> do {
         v \<leftarrow> nth_opt vr i;
         idx \<leftarrow> get_index L (binary_rx f) (vr_key v);
         case idx of None \<Rightarrow> Some (f, sizes)
         | Some x \<Rightarrow> do {
             df \<leftarrow> has_func L (decode_func f) (vr_key v) PDecode;
             (data, sizes1) \<leftarrow>
               (if df then do {
                  let d = ascii85_decode L val;
                  sz \<leftarrow> upd_opt sizes i (word_of_nat (length d));
                  Some (d, sz) }
                else do {
                  n \<leftarrow> nth_opt sizes i;
                  if unat n \<le> length val then Some (take (unat n) val, sizes) else None });
             g \<leftarrow> append_signal L f x data;
             Some (g, sizes1) } } })"

definition fmi3SetBinary ::
  "'m clib \<Rightarrow> ('m, 'd) signal_vtable \<Rightarrow> ('m, 'd) fmu option \<Rightarrow> u32 list \<Rightarrow> u64 list \<Rightarrow> bytes option list
     \<Rightarrow> (fmi_status \<times> ('m, 'd) fmu \<times> u64 list) option" where
  "fmi3SetBinary L H c vr sizes vals = do {
     f \<leftarrow> c;
     f1 \<leftarrow> call_handler (vt_reset H) f;
     (g, sizes') \<leftarrow> foldM (set_binary_one L vr vals) (f1, sizes) [0..<length vr];
     Some (FmiOK, g, sizes') }"

definition fmi3DoStep ::
  "('m, 'd) signal_vtable \<Rightarrow> ('m, 'd) fmu_impl \<Rightarrow> ('m, 'd) fmu option \<Rightarrow> f64 \<Rightarrow> f64 \<Rightarrow> (fmi_status \<times> ('m, 'd) fmu) option" where
  "fmi3DoStep H I c point step_size = do { f \<leftarrow> c; do_step H I f point step_size }"

subsection \<open>Functions carried for packaging only\<close>

datatype fmi3_init_stub = Fmi3EnterInitializationMode

datatype fmi3_mode_stub =
    Fmi3EnterEventMode | Fmi3Terminate | Fmi3Reset | Fmi3GetFloat32

datatype fmi3_get_stub =
    Fmi3GetInt8 | Fmi3GetUInt8 | Fmi3GetInt16 | Fmi3GetUInt16 | Fmi3GetInt32 | Fmi3GetUInt32
  | Fmi3GetInt64 | Fmi3GetUInt64 | Fmi3GetBoolean | Fmi3GetString

datatype fmi3_clock_value_stub = Fmi3GetClock | Fmi3SetFloat32

datatype fmi3_set_stub =
    Fmi3SetInt8 | Fmi3SetUInt8 | Fmi3SetInt16 | Fmi3SetUInt16 | Fmi3SetInt32 | Fmi3SetUInt32
  | Fmi3SetInt64 | Fmi3SetUInt64 | Fmi3SetBoolean

datatype fmi3_state_stub =
    Fmi3SetClock | Fmi3GetNumberOfVariableDependencies | Fmi3GetVariableDependencies
  | Fmi3GetFMUState | Fmi3SetFMUState | Fmi3FreeFMUState | Fmi3SerializedFMUStateSize
  | Fmi3SerializeFMUState | Fmi3DeserializeFMUState | Fmi3GetDirectionalDerivative
  | Fmi3GetAdjointDerivative | Fmi3EnterConfigurationMode | Fmi3ExitConfigurationMode

datatype fmi3_clock_stub =
    Fmi3GetIntervalDecimal | Fmi3GetIntervalFraction | Fmi3GetShiftDecimal | Fmi3GetShiftFraction
  | Fmi3SetIntervalDecimal | Fmi3SetIntervalFraction | Fmi3SetShiftDecimal | Fmi3SetShiftFraction
  | Fmi3EvaluateDiscreteStates | Fmi3UpdateDiscreteStates

datatype fmi3_continuous_stub =
    Fmi3EnterContinuousTimeMode | Fmi3CompletedIntegratorStep | Fmi3SetTime | Fmi3SetContinuousStates
  | Fmi3GetContinuousStateDerivatives | Fmi3GetEventIndicators | Fmi3GetContinuousStates
  | Fmi3GetNominalsOfContinuousStates | Fmi3GetNumberOfEventIndicators
  | Fmi3GetNumberOfContinuousStates | Fmi3EnterStepMode | Fmi3GetOutputDerivatives

datatype fmi3_partition_stub = Fmi3ActivateModelPartition

definition fmi3_mode_stub_call :: "fmi3_mode_stub \<Rightarrow> ('m, 'd) fmu option \<Rightarrow> (fmi_status \<times> ('m, 'd) fmu) option" where
  "fmi3_mode_stub_call s c = do { f \<leftarrow> c; Some (FmiOK, f) }"

definition fmi3_get_stub_call :: "fmi3_get_stub \<Rightarrow> ('m, 'd) fmu option \<Rightarrow> (fmi_status \<times> ('m, 'd) fmu) option" where
  "fmi3_get_stub_call s c = do { f \<leftarrow> c; Some (FmiOK, f) }"

definition fmi3_set_stub_call :: "fmi3_set_stub \<Rightarrow> ('m, 'd) fmu option \<Rightarrow> (fmi_status \<times> ('m, 'd) fmu) option" where
  "fmi3_set_stub_call s c = do { f \<leftarrow> c; Some (FmiOK, f) }"

definition fmi3_state_stub_call :: "fmi3_state_stub \<Rightarrow> ('m, 'd) fmu option \<Rightarrow> (fmi_status \<times> ('m, 'd) fmu) option" where
  "fmi3_state_stub_call s c = do { f \<leftarrow> c; Some (FmiOK, f) }"

definition fmi3_clock_stub_call :: "fmi3_clock_stub \<Rightarrow> ('m, 'd) fmu option \<Rightarrow> (fmi_status \<times> ('m, 'd) fmu) option" where
  "fmi3_clock_stub_call s c = do { f \<leftarrow> c; Some (FmiOK, f) }"

definition fmi3_continuous_stub_call :: "fmi3_continuous_stub \<Rightarrow> ('m, 'd) fmu option \<Rightarrow> (fmi_status \<times> ('m, 'd) fmu) option" where
  "fmi3_continuous_stub_call s c = do { f \<leftarrow> c; Some (FmiOK, f) }"

definition fmi3_init_stub_call :: "fmi3_init_stub \<Rightarrow> ('m, 'd) fmu option \<Rightarrow> (fmi_status \<times> ('m, 'd) fmu) option" where
  "fmi3_init_stub_call s c = do { f \<leftarrow> c; Some (FmiOK, f) }"

definition fmi3_clock_value_stub_call :: "fmi3_clock_value_stub \<Rightarrow> ('m, 'd) fmu option \<Rightarrow> (fmi_status \<times> ('m, 'd) fmu) option" where
  "fmi3_clock_value_stub_call s c = do { f \<leftarrow> c; Some (FmiOK, f) }"

definition fmi3_partition_stub_call :: "fmi3_partition_stub \<Rightarrow> ('m, 'd) fmu option \<Rightarrow> (fmi_status \<times> ('m, 'd) fmu) option" where
  "fmi3_partition_stub_call s c = do { f \<leftarrow> c; Some (FmiOK, f) }"

end
