(* ===== verification/Fmi3Session.thy ===== *)
theory Fmi3Session
  imports Fmi3Fmu Fmi2Session
begin

section \<open>Sessions of FMI 3 calls\<close>

text \<open>
  Binary variables through \<open>fmi3GetBinary\<close> and \<open>fmi3SetBinary\<close>, the sequences of calls an
  importer makes on one FMI 3 instance, and binary data between two instances. The bodies of
  the loops are shared with the FMI 2 adapter: \<open>fmi3SetBinary\<close> runs \<open>append_loop\<close> with the
  caller's sizes in the loop's state.
\<close>

subsection \<open>What \<open>fmi3SetBinary\<close> stores\<close>

text \<open>What an item contributes: all of the text with a decoder, else as many bytes as the size says.\<close>

definition sized :: "'m clib \<Rightarrow> ('m, 'd) fmu \<Rightarrow> u32 \<Rightarrow> u64 \<Rightarrow> bytes option \<Rightarrow> bytes option" where
  "sized L f v n val = map_option (\<lambda>b. if hm_get L (decode_func f) (vr_key v) = Some PDecode then b else take (unat n) b) val"

definition sized_items :: "'m clib \<Rightarrow> ('m, 'd) fmu \<Rightarrow> u32 list \<Rightarrow> u64 list \<Rightarrow> bytes option list \<Rightarrow> (u32 \<times> bytes option) list" where
  "sized_items L f vr sizes vals = map (\<lambda>i. (vr ! i, sized L f (vr ! i) (sizes ! i) (vals ! i))) [0..<length vr]"

text \<open>The caller's sizes do not exceed the values, and are consulted only without a decoder.\<close>

definition sizes_ok :: "'m clib \<Rightarrow> ('m, 'd) fmu \<Rightarrow> u32 list \<Rightarrow> u64 list \<Rightarrow> bytes option list \<Rightarrow> bool" where
  "sizes_ok L f vr sizes vals \<longleftrightarrow> length sizes = length vr \<and> length vals = length vr \<and>
     (\<forall>i < length vr. \<forall>b. vals ! i = Some b \<longrightarrow> index_at L (binary_rx f) (vr_key (vr ! i)) \<noteq> None \<longrightarrow>
        hm_get L (decode_func f) (vr_key (vr ! i)) = Some PDecode \<or> unat (sizes ! i) \<le> length b)"

text \<open>The loop overwrites the size of a decoded value only.\<close>

definition sizes_kept :: "'m clib \<Rightarrow> ('m, 'd) fmu \<Rightarrow> u32 list \<Rightarrow> u64 list \<Rightarrow> u64 list \<Rightarrow> bool" where
  "sizes_kept L f vr sizes sizes' \<longleftrightarrow> length sizes' = length sizes \<and>
     (\<forall>i < length vr. hm_get L (decode_func f) (vr_key (vr ! i)) = Some PDecode \<or> sizes' ! i = sizes ! i)"

lemma sizes_kept_refl [simp]: "sizes_kept L f vr sizes sizes"
  by (simp add: sizes_kept_def)

lemma set_binary_one_run:
  assumes "buffer_ok L" "fmu_wf L f" "binary_only f0 f" "i < length vr" "sizes_ok L f0 vr sizes0 vals"
    "sizes_kept L f0 vr sizes0 sizes"
    "\<And>x. index_at L (binary_rx f) (vr_key (vr ! i)) = Some x \<Longrightarrow>
       bin_size f (loc_of x) + length (chunk_for L f (loc_of x) (sized_items L f0 vr sizes0 vals ! i)) + 16 \<le> 2 ^ 32"
  shows "\<exists>g sizes'. set_binary_one L vr vals (f, sizes) i = Some (g, sizes') \<and> sizes_kept L f0 vr sizes0 sizes' \<and>
    fmu_wf L g \<and> binary_only f g \<and>
    (\<forall>s. content g s = map_option (\<lambda>c. c @ chunk_for L f s (sized_items L f0 vr sizes0 vals ! i)) (content f s))"
proof -
  let ?v = "vr ! i"
  let ?k = "vr_key ?v"
  let ?dec = "hm_get L (decode_func f) ?k = Some PDecode"
  have maps: "binary_rx f0 = binary_rx f" "decode_func f0 = decode_func f"
    using binary_only_maps [OF assms(3)] by simp_all
  have item: "sized_items L f0 vr sizes0 vals ! i = (?v, sized L f ?v (sizes0 ! i) (vals ! i))"
    using assms(4) by (simp add: sized_items_def sized_def maps cong: if_cong)
  have len: "length sizes = length vr" "length vals = length vr"
    using assms(5,6) by (simp_all add: sizes_ok_def sizes_kept_def)
  note gi = get_index_ok [OF fmu_wf_maps(3) [OF assms(2)], of ?k]
  show ?thesis
  proof (cases "vals ! i = None \<or> index_at L (binary_rx f) ?k = None")
    case True
    then have "set_binary_one L vr vals (f, sizes) i = Some (f, sizes)"
      using assms(4) len gi(1) by (auto simp: set_binary_one_def split: option.split)
    moreover have "chunk_for L f s (?v, sized L f ?v (sizes0 ! i) (vals ! i)) = []" for s
      using True by (auto simp: chunk_for_def sized_def split: option.split)
    ultimately show ?thesis using assms(2,6)
      by (intro exI [of _ f] exI [of _ sizes]) (simp add: item option.map_ident)
  next
    case False
    then obtain val x where val: "vals ! i = Some val" and x: "index_at L (binary_rx f) ?k = Some x" by auto
    let ?d = "if ?dec then ascii85_decode L val else take (unat (sizes0 ! i)) val"
    let ?sz = "if ?dec then sizes[i := word_of_nat (length ?d)] else sizes"
    have ch: "chunk_for L f s (?v, sized L f ?v (sizes0 ! i) (vals ! i)) = (if s = loc_of x then ?d else [])" for s
      using val x by (auto simp: chunk_for_def sized_def decoded_def)
    have sx: "svi_ok (mem_sv f) x" by (rule gi(2) [OF x])
    from assms(7) [OF x] have "bin_size f (loc_of x) + length ?d < 2 ^ 32" by (simp add: item ch)
    from append_signal_run [OF assms(1,2) sx this] obtain ms where
      a: "append_signal L f x ?d = Some (f\<lparr>mem_sv := ms\<rparr>)" "fmu_wf L (f\<lparr>mem_sv := ms\<rparr>)" "binary_only f (f\<lparr>mem_sv := ms\<rparr>)"
      "\<And>s. content (f\<lparr>mem_sv := ms\<rparr>) s = (if s = loc_of x then map_option (\<lambda>c. c @ ?d) (content f s) else content f s)"
      by blast
    have n: "\<not> ?dec \<Longrightarrow> sizes ! i = sizes0 ! i \<and> unat (sizes0 ! i) \<le> length val"
      using assms(4-6) val x by (auto simp: sizes_ok_def sizes_kept_def maps)
    have "set_binary_one L vr vals (f, sizes) i = Some (f\<lparr>mem_sv := ms\<rparr>, ?sz)"
      using assms(4) len val gi(1) x a(1) n has_func_ok [OF fmu_wf_maps(7) [OF assms(2)], of ?k]
      by (cases ?dec) (simp_all add: set_binary_one_def Let_def)
    moreover have "sizes_kept L f0 vr sizes0 ?sz"
      using assms(6) by (auto simp: sizes_kept_def nth_update_if maps)
    moreover have "content (f\<lparr>mem_sv := ms\<rparr>) s = map_option (\<lambda>c. c @ chunk_for L f s (sized_items L f0 vr sizes0 vals ! i)) (content f s)" for s
      unfolding item ch a(4) by (simp add: option.map_ident)
    ultimately show ?thesis using a(2,3) by blast
  qed
qed

lemma set_binary_loop:
  assumes "buffer_ok L" "fmu_wf L f" "sizes_ok L f vr sizes vals" "room_for L f (sized_items L f vr sizes vals)"
  shows "\<exists>g sizes'. foldM (set_binary_one L vr vals) (f, sizes) [0..<length vr] = Some (g, sizes') \<and> fmu_wf L g \<and>
    binary_only f g \<and> sizes_kept L f vr sizes sizes' \<and>
    (\<forall>s. content g s = map_option (\<lambda>c. c @ addressed L f s (sized_items L f vr sizes vals)) (content f s))"
proof -
  let ?items = "sized_items L f vr sizes vals"
  have l: "length ?items = length vr" by (simp add: sized_items_def)
  have "\<exists>v. foldM (set_binary_one L vr vals) (f, sizes) [0..<length ?items] = Some v \<and> sizes_kept L f vr sizes (snd v) \<and>
      fmu_wf L (fst v) \<and> binary_only f (fst v) \<and> (\<forall>s. content (fst v) s = map_option (\<lambda>c. c @ addressed L f s ?items) (content f s))"
  proof (rule append_loop)
    fix u :: "('a, 'b) fmu \<times> u64 list" and i
    assume a: "i < length ?items" "fmu_wf L (fst u)" "binary_only f (fst u)" "sizes_kept L f vr sizes (snd u)"
      and b: "\<And>x. index_at L (binary_rx (fst u)) (vr_key (fst (?items ! i))) = Some x \<Longrightarrow>
        bin_size (fst u) (loc_of x) + length (chunk_for L (fst u) (loc_of x) (?items ! i)) + 16 \<le> 2 ^ 32"
    have i: "i < length vr" using a(1) l by simp
    then have k: "fst (?items ! i) = vr ! i" by (simp add: sized_items_def)
    from set_binary_one_run [OF assms(1) a(2,3) i assms(3) a(4) b [unfolded k]] obtain g sizes' where
      "set_binary_one L vr vals u i = Some (g, sizes')" "sizes_kept L f vr sizes sizes'" "fmu_wf L g" "binary_only (fst u) g"
      "\<And>s. content g s = map_option (\<lambda>c. c @ chunk_for L (fst u) s (?items ! i)) (content (fst u) s)" by auto
    then show "\<exists>v. set_binary_one L vr vals u i = Some v \<and> sizes_kept L f vr sizes (snd v) \<and> fmu_wf L (fst v) \<and>
      binary_only (fst u) (fst v) \<and>
      (\<forall>s. content (fst v) s = map_option (\<lambda>c. c @ chunk_for L (fst u) s (?items ! i)) (content (fst u) s))"
      by (intro exI [of _ "(g, sizes')"]) simp
  qed (use assms in simp_all)
  then show ?thesis unfolding l by auto
qed

subsection \<open>What \<open>fmi3GetBinary\<close> returns\<close>

text \<open>The value of a reference, and the size reported for it: the length of the signal in either case.\<close>

definition binary_at :: "'m clib \<Rightarrow> ('m, 'd) fmu \<Rightarrow> u32 \<Rightarrow> bytes option" where
  "binary_at L f v = do {
     x \<leftarrow> index_at L (binary_tx f) (vr_key v);
     c \<leftarrow> content f (loc_of x);
     if c = [] then None else Some c }"

definition binary_value :: "'m clib \<Rightarrow> ('m, 'd) fmu \<Rightarrow> u32 \<Rightarrow> bytes option" where
  "binary_value L f v = map_option
     (\<lambda>c. if hm_get L (encode_func f) (vr_key v) = Some PEncode then ascii85_encode L c else c) (binary_at L f v)"

definition binary_readable :: "'m clib \<Rightarrow> ('m, 'd) fmu \<Rightarrow> u32 \<Rightarrow> bool" where
  "binary_readable L f v \<longleftrightarrow> (\<forall>c. binary_at L f v = Some c \<longrightarrow> length c + 16 \<le> 2 ^ 32)"

lemma get_binary_one_run:
  assumes "fmu_wf L f" "i < length vr" "length sizes = length vr" "length vals = length vr" "binary_readable L f (vr ! i)"
  shows "\<exists>es. get_binary_one L vr (f, sizes, vals) i = Some (
      f\<lparr>log_out := log_out f @ es, free_list := free_list f @ (case binary_value L f (vr ! i) of None \<Rightarrow> [] | Some b \<Rightarrow> [b])\<rparr>,
      (case binary_at L f (vr ! i) of None \<Rightarrow> sizes | Some c \<Rightarrow> sizes[i := word_of_nat (length c)]),
      vals[i := binary_value L f (vr ! i)])"
proof -
  let ?k = "vr_key (vr ! i)"
  note gi = get_index_ok [OF fmu_wf_maps(4) [OF assms(1)], of ?k]
  show ?thesis
  proof (cases "index_at L (binary_tx f) ?k")
    case None
    then have "get_binary_one L vr (f, sizes, vals) i = Some (f, sizes, vals[i := None])" "binary_at L f (vr ! i) = None"
      using assms(2-4) gi(1) by (simp_all add: get_binary_one_def binary_at_def)
    then show ?thesis by (intro exI [of _ "[]"]) (simp add: binary_value_def)
  next
    case x: (Some x)
    obtain b where b: "get_bin (mem_sv f) (svi_sv x) (unat (svi_vi x)) = Some b"
      using svi_ok_get [OF gi(2) [OF x]] by blast
    have wf: "bin_wf b" using get_bin_wf [OF b fmu_wf_maps(5) [OF assms(1)]] .
    note len = bin_content_length [OF wf]
    have c: "content f (loc_of x) = Some (bin_content b)" using b by (simp add: content_def loc_of_def)
    show ?thesis
    proof (cases "b_len b = 0")
      case True
      with len have "bin_content b = []" by simp
      then have "binary_at L f (vr ! i) = None" using x c by (simp add: binary_at_def)
      moreover have "get_binary_one L vr (f, sizes, vals) i = Some (f, sizes, vals[i := None])"
        using True assms(2-4) gi(1) x b by (simp add: get_binary_one_def split: option.split)
      ultimately show ?thesis by (intro exI [of _ "[]"]) (simp add: binary_value_def)
    next
      case False
      then have ne: "bin_content b \<noteq> []" using len by (auto simp: unat_eq_0)
      then obtain buf where buf: "b_buf b = Some buf" by (cases "b_buf b") (auto simp: bin_content_def)
      have at: "binary_at L f (vr ! i) = Some (bin_content b)" using x c ne by (simp add: binary_at_def)
      with assms(5) len have "unat (b_len b) + 16 \<le> 2 ^ 32" by (simp add: binary_readable_def)
      with b have "\<And>d. get_bin (mem_sv f) (svi_sv x) (unat (svi_vi x)) = Some d \<Longrightarrow> unat (b_len d) + 16 \<le> 2 ^ 32" by simp
      from log3.log_binary_frame [OF fmu_wf_maps(5) [OF assms(1)] gi(2) [OF x] this, of "''GetBinary''"] obtain es where
        l: "fmi3_log_binary_signal f (Some x) ''GetBinary'' = Some (f\<lparr>log_out := log_out f @ es\<rparr>)"
        by (auto simp: fmi3_log_binary_signal_def)
      let ?enc = "hm_get L (encode_func f) ?k = Some PEncode"
      have hf: "has_func L (encode_func (f\<lparr>log_out := log_out f @ es\<rparr>)) ?k PEncode = Some ?enc"
        using has_func_ok [OF fmu_wf_maps(6) [OF assms(1)]] by simp
      have sz: "(word_of_nat (length (bin_content b)) :: u64) = ucast (b_len b)" by (simp add: len unsigned_ucast_eq)
      have rd: "unat (b_len b) \<le> length buf" "bin_content b = take (unat (b_len b)) buf"
        using wf buf by (auto simp: bin_wf_def bin_content_def word_le_nat_alt)
      have "get_binary_one L vr (f, sizes, vals) i =
          Some (f\<lparr>log_out := log_out f @ es, free_list := free_list f @ [if ?enc then ascii85_encode L (bin_content b) else bin_content b]\<rparr>,
            sizes[i := ucast (b_len b)], vals[i := Some (if ?enc then ascii85_encode L (bin_content b) else bin_content b)])"
        using assms(2-4) gi(1) x b buf False l hf rd(1) by (cases ?enc) (simp_all add: get_binary_one_def rd(2))
      then show ?thesis by (intro exI [of _ es]) (simp add: at binary_value_def sz)
    qed
  qed
qed

lemma get_binary_loop:
  assumes "fmu_wf L f" "length sizes = length vr" "length vals = length vr" "\<forall>v \<in> set vr. binary_readable L f v"
  shows "n \<le> length vr \<Longrightarrow> \<exists>es. foldM (get_binary_one L vr) (f, sizes, vals) [0..<n] = Some (
      f\<lparr>log_out := log_out f @ es, free_list := free_list f @ List.map_filter (binary_value L f) (take n vr)\<rparr>,
      map (\<lambda>(v, n). case binary_at L f v of None \<Rightarrow> n | Some c \<Rightarrow> word_of_nat (length c)) (take n (zip vr sizes)) @ drop n sizes,
      map (binary_value L f) (take n vr) @ drop n vals)"
proof (induction n)
  case 0
  show ?case by (intro exI [of _ "[]"]) (simp add: map_filter_def)
next
  case (Suc n)
  let ?sz = "\<lambda>n. map (\<lambda>(v, n). case binary_at L f v of None \<Rightarrow> n | Some c \<Rightarrow> word_of_nat (length c)) (take n (zip vr sizes)) @ drop n sizes"
  let ?val = "\<lambda>n. map (binary_value L f) (take n vr) @ drop n vals"
  obtain es where es: "foldM (get_binary_one L vr) (f, sizes, vals) [0..<n] = Some (
      f\<lparr>log_out := log_out f @ es, free_list := free_list f @ List.map_filter (binary_value L f) (take n vr)\<rparr>, ?sz n, ?val n)"
    using Suc by auto
  let ?g = "f\<lparr>log_out := log_out f @ es, free_list := free_list f @ List.map_filter (binary_value L f) (take n vr)\<rparr>"
  have n: "n < length vr" using Suc.prems by simp
  have wf: "fmu_wf L ?g" using assms(1) by (simp add: fmu_wf_def)
  have at: "binary_at L ?g v = binary_at L f v" "binary_value L ?g v = binary_value L f v"
    "binary_readable L ?g v = binary_readable L f v" for v
    by (simp_all add: binary_at_def binary_value_def binary_readable_def content_def cong: if_cong)
  have d: "drop n vals = vals ! n # drop (Suc n) vals" "drop n sizes = sizes ! n # drop (Suc n) sizes"
    using n assms(2,3) by (simp_all add: Cons_nth_drop_Suc)
  have t: "take (Suc n) vr = take n vr @ [vr ! n]" using n by (simp add: take_Suc_conv_app_nth)
  have z: "take (Suc n) (zip vr sizes) = take n (zip vr sizes) @ [(vr ! n, sizes ! n)]"
    using n assms(2) by (simp add: take_Suc_conv_app_nth)
  obtain es' where "get_binary_one L vr (?g, ?sz n, ?val n) n = Some (
      ?g\<lparr>log_out := log_out ?g @ es', free_list := free_list ?g @ (case binary_value L f (vr ! n) of None \<Rightarrow> [] | Some b \<Rightarrow> [b])\<rparr>,
      (case binary_at L f (vr ! n) of None \<Rightarrow> ?sz n | Some c \<Rightarrow> (?sz n)[n := word_of_nat (length c)]),
      (?val n)[n := binary_value L f (vr ! n)])"
    using get_binary_one_run [OF wf n, of "?sz n" "?val n"] assms(2-4) n at by auto
  then show ?case
    by (intro exI [of _ "es @ es'"])
      (use es n assms(2,3) in \<open>simp add: foldM_append t z d list_update_append map_filter_def split: option.split\<close>)
qed

lemma get_binary_run:
  assumes "fmu_wf L f" "length sizes = length vr" "length vals = length vr" "\<forall>v \<in> set vr. binary_readable L f v"
  shows "\<exists>es. fmi3GetBinary L (Some f) vr sizes vals = Some (FmiOK,
      f\<lparr>log_out := log_out f @ es, free_list := List.map_filter (binary_value L f) vr\<rparr>,
      map (\<lambda>(v, n). case binary_at L f v of None \<Rightarrow> n | Some c \<Rightarrow> word_of_nat (length c)) (zip vr sizes),
      map (binary_value L f) vr)"
proof -
  let ?f = "f\<lparr>free_list := []\<rparr>"
  have wf: "fmu_wf L ?f" using assms(1) by (simp add: fmu_wf_def)
  have at: "binary_at L ?f = binary_at L f"
    by (rule ext) (simp add: binary_at_def content_def cong: if_cong)
  then have val: "binary_value L ?f = binary_value L f" "binary_readable L ?f = binary_readable L f"
    by (simp_all add: fun_eq_iff binary_value_def binary_readable_def)
  from get_binary_loop [OF wf assms(2,3), of "length vr"] assms(2-4) obtain es where
    "foldM (get_binary_one L vr) (?f, sizes, vals) [0..<length vr] = Some (
      ?f\<lparr>log_out := log_out ?f @ es, free_list := free_list ?f @ List.map_filter (binary_value L f) vr\<rparr>,
      map (\<lambda>(v, n). case binary_at L f v of None \<Rightarrow> n | Some c \<Rightarrow> word_of_nat (length c)) (zip vr sizes),
      map (binary_value L f) vr)"
    unfolding at val by auto
  then show ?thesis by (intro exI [of _ es]) (simp add: fmi3GetBinary_def)
qed

subsection \<open>Binary values over the steps\<close>

context signal_handlers begin

lemma set_binary_run:
  assumes "buffer_ok L" "inv f" "sizes_ok L f vr sizes vals"
    "\<And>g. call_handler (vt_reset H) f = Some g \<Longrightarrow> room_for L g (sized_items L f vr sizes vals)"
  shows "\<exists>g sizes'. fmi3SetBinary L H (Some f) vr sizes vals = Some (FmiOK, g, sizes') \<and> inv g \<and> signals_reset g \<and>
    sizes_kept L f vr sizes sizes' \<and>
    (\<forall>s. content g s = map_option (\<lambda>c. (if signals_reset f then c else []) @ addressed L f s (sized_items L f vr sizes vals)) (content f s))"
proof -
  from reset_frame [OF assms(2)] obtain f1 where r: "call_handler (vt_reset H) f = Some f1" "inv f1" "signals_reset f1"
    "binary_rx f1 = binary_rx f" "decode_func f1 = decode_func f" by blast
  have m: "sized_items L f1 vr sizes vals = sized_items L f vr sizes vals" "sizes_ok L f1 = sizes_ok L f"
    "sizes_kept L f1 = sizes_kept L f"
    by (simp_all add: sized_items_def sized_def sizes_ok_def sizes_kept_def fun_eq_iff r(4,5))
  from set_binary_loop [OF assms(1) inv_wf [OF r(2)], of vr sizes vals] assms(3) assms(4) [OF r(1)] obtain g sizes' where
    g: "foldM (set_binary_one L vr vals) (f1, sizes) [0..<length vr] = Some (g, sizes')" "fmu_wf L g" "binary_only f1 g"
      "sizes_kept L f vr sizes sizes'"
      "\<And>s. content g s = map_option (\<lambda>c. c @ addressed L f1 s (sized_items L f vr sizes vals)) (content f1 s)"
    unfolding m by blast
  have "content g s = map_option (\<lambda>c. (if signals_reset f then c else []) @ addressed L f s (sized_items L f vr sizes vals)) (content f s)" for s
    by (simp add: g(5) addressed_cong [OF r(4,5)] reset_content [OF assms(2) r(1)] option.map_comp comp_def)
  moreover have "signals_reset g" using g(3) r(3) by (auto simp: binary_only_def)
  moreover have "fmi3SetBinary L H (Some f) vr sizes vals = Some (FmiOK, g, sizes')"
    using r(1) g(1) by (simp add: fmi3SetBinary_def)
  moreover note inv_binary_only [OF r(2) g(3,2)] g(4)
  ultimately show ?thesis by blast
qed

end

text \<open>
  C14: An importer moves binary data between FMI 3 instances: the value and the size that
  \<open>fmi3GetBinary\<close> returns for an output, given to \<open>fmi3SetBinary\<close> for an input of another
  instance (both with the ascii85 codec, or both without), append exactly the bytes of the
  output to the input signal.
\<close>

theorem fmi3_binary_transport:
  assumes "ascii85_ok L" "buffer_ok L" "truncate_ok NL" "fmu_wf L f" "default_inv L f'"
    "binary_at L f v = Some c" "length c + 16 \<le> 2 ^ 32"
    "index_at L (binary_rx f') (vr_key w) = Some y" "content f' (loc_of y) = Some d"
    "hm_get L (encode_func f) (vr_key v) = Some PEncode \<longleftrightarrow> hm_get L (decode_func f') (vr_key w) = Some PDecode"
    "\<forall>g. fmu_default_signals_reset NL f' = Some g \<longrightarrow> room_for L g [(w, binary_value L f v)]"
  shows "\<exists>g n val h sizes'. fmi3GetBinary L (Some f) [v] [n0] [None] = Some (FmiOK, g, [n], [val]) \<and>
    fmi3SetBinary L (fmu_load_signal_handlers L NL env xp parse) (Some f') [w] [n] [val] = Some (FmiOK, h, sizes') \<and>
    content h (loc_of y) = Some ((if signals_reset f' then d else []) @ c)"
proof -
  let ?H = "fmu_load_signal_handlers L NL env xp parse"
  let ?n = "word_of_nat (length c) :: u64"
  let ?dec = "hm_get L (decode_func f') (vr_key w) = Some PDecode"
  let ?text = "if ?dec then ascii85_encode L c else c"
  have val: "binary_value L f v = Some ?text" using assms(6,10) by (simp add: binary_value_def)
  have un: "unat ?n = length c" using assms(7) by (simp add: unat_of_nat take_bit_nat_eq_self)
  have "\<forall>u \<in> set [v]. binary_readable L f u" using assms(6,7) by (simp add: binary_readable_def)
  from get_binary_run [OF assms(4) _ _ this, of "[n0]" "[None]"] obtain g where
    get: "fmi3GetBinary L (Some f) [v] [n0] [None] = Some (FmiOK, g, [?n], [Some ?text])"
    using assms(6) val by auto
  have it: "sized_items L f' [w] [?n] [Some ?text] = [(w, Some ?text)]"
    by (cases ?dec) (simp_all add: sized_items_def sized_def un)
  have i: "default_inv L f' \<and> truncate_ok NL" using assms(3,5) by simp
  have so: "sizes_ok L f' [w] [?n] [Some ?text]" by (simp add: sizes_ok_def un)
  have room: "\<And>g. call_handler (vt_reset ?H) f' = Some g \<Longrightarrow> room_for L g (sized_items L f' [w] [?n] [Some ?text])"
    using assms(11) val by (simp add: it call_handler_def fmu_load_signal_handlers_def)
  from dh.set_binary_run [OF assms(2) i so room] obtain h sizes' where
    h: "fmi3SetBinary L ?H (Some f') [w] [?n] [Some ?text] = Some (FmiOK, h, sizes')"
    "content h (loc_of y) = map_option (\<lambda>c'. (if signals_reset f' then c' else []) @ addressed L f' (loc_of y) [(w, Some ?text)]) (content f' (loc_of y))"
    unfolding it by blast
  have "addressed L f' (loc_of y) [(w, Some ?text)] = c"
    using assms(8) ascii85_okD(1) [OF assms(1)] by (cases ?dec) (simp_all add: addressed_def chunk_for_def decoded_def)
  with h(2) assms(9) have "content h (loc_of y) = Some ((if signals_reset f' then d else []) @ c)" by simp
  with get h(1) show ?thesis by blast
qed

theorem fmi3_binary_transport_witness:
  "\<exists>g n val h sizes'. fmi3GetBinary ref_clib (Some demo_fmu) [5] [0] [None] = Some (FmiOK, g, [n], [val]) \<and>
    fmi3SetBinary ref_clib (fmu_load_signal_handlers ref_clib (ref_nclib (\<lambda>_. ''x'')) (\<lambda>_. None) demo_xpath (\<lambda>_. None))
      (Some demo_fmu) [4] [n] [val] = Some (FmiOK, h, sizes') \<and> content h (1, 0) = Some [9, 9]"
proof -
  let ?x = "\<lparr>svi_sv = 1, svi_vi = 0\<rparr>"
  let ?r = "demo_fmu\<lparr>mem_sv := [demo_scalar_sv, demo_bin_sv\<lparr>sv_ncodec := [None], sv_length := [0]\<rparr>], signals_reset := True\<rparr>"
  have m: "index_at ref_clib (binary_tx demo_fmu) (vr_key 5) = Some ?x" "index_at ref_clib (binary_rx demo_fmu) (vr_key 4) = Some ?x"
    "hm_get ref_clib (encode_func demo_fmu) (vr_key 5) = Some PEncode" "hm_get ref_clib (decode_func demo_fmu) (vr_key 4) = Some PDecode"
    by (simp_all add: index_at_def demo_keys ref_clib_def demo_fmu_def)
  have c: "content demo_fmu (loc_of ?x) = Some [9, 9]" using demo_content by (simp add: loc_of_def)
  have at: "binary_at ref_clib demo_fmu 5 = Some [9, 9]" using m(1) c by (simp add: binary_at_def)
  have val: "binary_value ref_clib demo_fmu 5 = Some (ascii85_encode ref_clib [9, 9])" by (simp add: binary_value_def at m(3))
  have room: "room_for ref_clib ?r [(4, Some (ascii85_encode ref_clib [9, 9]))]"
    unfolding room_for_def
  proof (intro allI impI)
    fix s c assume c: "content ?r s = Some c"
    then have s: "s = (1, 0)" using content_only [of ?r 0 s c] by simp
    have "content ?r (1, 0) = Some []"
      by (simp add: content_def get_bin_def nth_opt_def demo_bin_sv_def bin_content_def)
    with c s show "length c + length (addressed ref_clib ?r s [(4, Some (ascii85_encode ref_clib [9, 9]))]) + 16 \<le> 2 ^ 32"
      using m(2,4) by (simp add: addressed_def chunk_for_def decoded_def loc_of_def ref_clib_def ref_encode_def)
  qed
  then have "\<forall>g. fmu_default_signals_reset (ref_nclib (\<lambda>_. ''x'')) demo_fmu = Some g \<longrightarrow>
      room_for ref_clib g [(4, binary_value ref_clib demo_fmu 5)]"
    unfolding val by (simp only: demo_reset option.inject) simp
  from fmi3_binary_transport [where env = "\<lambda>_. None" and xp = demo_xpath and parse = "\<lambda>_. None",
      OF ref_ascii85_ok ref_buffer_ok ref_truncate_ok demo_fmu_wf demo_fmu_inv at _ m(2) c _ this, of 0]
  show ?thesis by (simp add: loc_of_def m) (simp add: demo_fmu_def zero_fmu_def)
qed

text \<open>
  With an encoder \<open>fmi3GetBinary\<close> reports the length of the signal as the size of the
  value, and not the length of the text it returns: an importer that copies as many bytes as
  the size says cuts the text off.
\<close>

theorem fmi3_encoded_size:
  assumes "fmu_wf L f" "binary_at L f v = Some c" "length c + 16 \<le> 2 ^ 32" "hm_get L (encode_func f) (vr_key v) = Some PEncode"
    "length c < length (ascii85_encode L c)"
  shows "\<exists>g n val. fmi3GetBinary L (Some f) [v] [n0] [None] = Some (FmiOK, g, [n], [Some val]) \<and>
    val = ascii85_encode L c \<and> unat n < length val"
proof -
  have "\<forall>u \<in> set [v]. binary_readable L f u" using assms(2,3) by (simp add: binary_readable_def)
  from get_binary_run [OF assms(1) _ _ this, of "[n0]" "[None]"] obtain g where
    "fmi3GetBinary L (Some f) [v] [n0] [None] = Some (FmiOK, g, [word_of_nat (length c)], [Some (ascii85_encode L c)])"
    using assms(2,4) by (auto simp: binary_value_def)
  with assms(3,5) show ?thesis by (simp add: unat_of_nat take_bit_nat_eq_self)
qed

theorem fmi3_encoded_size_witness:
  "\<exists>g n val. fmi3GetBinary ref_clib (Some demo_fmu) [5] [0] [None] = Some (FmiOK, g, [n], [Some val]) \<and> unat n < length val"
proof -
  let ?x = "\<lparr>svi_sv = 1, svi_vi = 0\<rparr>"
  have m: "index_at ref_clib (binary_tx demo_fmu) (vr_key 5) = Some ?x" "hm_get ref_clib (encode_func demo_fmu) (vr_key 5) = Some PEncode"
    by (simp_all add: index_at_def demo_keys ref_clib_def demo_fmu_def)
  have "content demo_fmu (loc_of ?x) = Some [9, 9]" using demo_content by (simp add: loc_of_def)
  with m(1) have "binary_at ref_clib demo_fmu 5 = Some [9, 9]" by (simp add: binary_at_def)
  from fmi3_encoded_size [OF demo_fmu_wf this _ m(2), of 0] show ?thesis
    by (auto simp: ref_clib_def ref_encode_def)
qed

subsection \<open>Calls in any order\<close>

datatype fmi3_call =
    Call3ExitInit
  | Call3GetFloat64 "u32 list" "f64 list"
  | Call3SetFloat64 "u32 list" "f64 list"
  | Call3GetBinary "u32 list" "u64 list" "bytes option list"
  | Call3SetBinary "u32 list" "u64 list" "bytes option list"
  | Call3SetString "u32 list" "bytes option list"
  | Call3DoStep f64 f64
  | Call3SetDebugLogging bool "string list"
  | Call3GetStub fmi3_get_stub
  | Call3SetStub fmi3_set_stub
  | Call3StateStub fmi3_state_stub

fun run_call3 ::
  "'m clib \<Rightarrow> ('m, 'd) signal_vtable \<Rightarrow> ('m, 'd) fmu_impl \<Rightarrow> ('m, 'd) fmu \<Rightarrow> fmi3_call \<Rightarrow> (fmi_status \<times> ('m, 'd) fmu) option" where
  "run_call3 L H I f Call3ExitInit = fmi3ExitInitializationMode I (Some f)"
| "run_call3 L H I f (Call3GetFloat64 vr vals) = map_option (\<lambda>(st, g, _). (st, g)) (fmi3GetFloat64 L (Some f) vr vals)"
| "run_call3 L H I f (Call3SetFloat64 vr vals) = fmi3SetFloat64 L (Some f) vr vals"
| "run_call3 L H I f (Call3GetBinary vr sizes vals) = map_option (\<lambda>(st, g, _). (st, g)) (fmi3GetBinary L (Some f) vr sizes vals)"
| "run_call3 L H I f (Call3SetBinary vr sizes vals) = map_option (\<lambda>(st, g, _). (st, g)) (fmi3SetBinary L H (Some f) vr sizes vals)"
| "run_call3 L H I f (Call3SetString vr vals) = fmi3SetString L (Some f) vr vals"
| "run_call3 L H I f (Call3DoStep point step_size) = fmi3DoStep H I (Some f) point step_size"
| "run_call3 L H I f (Call3SetDebugLogging on cats) = fmi3SetDebugLogging (Some f) on cats"
| "run_call3 L H I f (Call3GetStub s) = fmi3_get_stub_call s (Some f)"
| "run_call3 L H I f (Call3SetStub s) = fmi3_set_stub_call s (Some f)"
| "run_call3 L H I f (Call3StateStub s) = fmi3_state_stub_call s (Some f)"

fun call3_ok :: "'m clib \<Rightarrow> ('m, 'd) signal_vtable \<Rightarrow> ('m, 'd) fmu \<Rightarrow> fmi3_call \<Rightarrow> bool" where
  "call3_ok L H f (Call3GetFloat64 vr vals) \<longleftrightarrow> di_map f = None \<and> length vals = length vr"
| "call3_ok L H f (Call3SetFloat64 vr vals) \<longleftrightarrow> di_map f = None \<and> length vals = length vr"
| "call3_ok L H f (Call3GetBinary vr sizes vals) \<longleftrightarrow> length sizes = length vr \<and> length vals = length vr \<and>
     (\<forall>v \<in> set vr. binary_readable L f v)"
| "call3_ok L H f (Call3SetBinary vr sizes vals) \<longleftrightarrow> sizes_ok L f vr sizes vals \<and>
     (\<forall>g. call_handler (vt_reset H) f = Some g \<longrightarrow> room_for L g (sized_items L f vr sizes vals))"
| "call3_ok L H f (Call3SetString vr vals) \<longleftrightarrow> length vals = length vr"
| "call3_ok L H f _ \<longleftrightarrow> True"

lemma set_string3_run:
  assumes "length vals = length vr"
  shows "\<exists>si. fmi3SetString L (Some f) vr vals = Some (FmiOK, f\<lparr>string_input := si\<rparr>)"
proof -
  let ?body = "\<lambda>f i. do {
        item \<leftarrow> nth_opt vals i;
        case item of None \<Rightarrow> Some f
        | Some str \<Rightarrow> do {
            v \<leftarrow> nth_opt vr i;
            Some (f\<lparr>string_input := hm_set L (string_input f) (vr_key v) (PString str)\<rparr>) } }"
  have "\<exists>g. foldM ?body f [0..<length vr] = Some g \<and> (\<exists>si. g = f\<lparr>string_input := si\<rparr>)"
  proof (rule foldM_total [where P = "\<lambda>g. \<exists>si. g = f\<lparr>string_input := si\<rparr>"])
    show "\<exists>si. f = f\<lparr>string_input := si\<rparr>" by (rule exI [of _ "string_input f"]) simp
  next
    fix u i assume "\<exists>si. u = f\<lparr>string_input := si\<rparr>" "i \<in> set [0..<length vr]"
    with assms show "\<exists>v. ?body u i = Some v \<and> (\<exists>si. v = f\<lparr>string_input := si\<rparr>)"
      by (cases "vals ! i") auto
  qed
  then show ?thesis by (auto simp: fmi3SetString_def)
qed

context fmu_model begin

lemma call3_run:
  assumes "buffer_ok L" "inv f" "call3_ok L H f c"
  shows "\<exists>st g. run_call3 L H I f c = Some (st, g) \<and> inv g \<and> (st = FmiOK \<or> st = FmiError)"
proof (cases c)
  case Call3ExitInit
  from exit_init_run [OF assms(2)] show ?thesis
    by (auto simp: Call3ExitInit fmi3ExitInitializationMode_def status_of_def)
next
  case (Call3GetFloat64 vr vals)
  with assms get_reals_run [OF inv_wf [OF assms(2)], of vals vr fmu_log3] show ?thesis
    by (simp add: fmi3GetFloat64_def)
next
  case (Call3SetFloat64 vr vals)
  with assms set_reals_run [OF inv_wf [OF assms(2)], of vals vr fmu_log3] inv_scalars_only [OF assms(2)] show ?thesis
    by (auto simp: fmi3SetFloat64_def)
next
  case (Call3GetBinary vr sizes vals)
  with assms(3) get_binary_run [OF inv_wf [OF assms(2)], of sizes vr vals] obtain es fl sizes' vals' where
    "fmi3GetBinary L (Some f) vr sizes vals = Some (FmiOK, f\<lparr>log_out := es, free_list := fl\<rparr>, sizes', vals')" by auto
  with inv_update(3) [OF assms(2)] show ?thesis by (simp add: Call3GetBinary)
next
  case (Call3SetBinary vr sizes vals)
  with assms set_binary_run [OF assms(1,2), of vr sizes vals] show ?thesis by fastforce
next
  case (Call3SetString vr vals)
  with assms(3) set_string3_run [of vals vr L f] obtain si where
    "fmi3SetString L (Some f) vr vals = Some (FmiOK, f\<lparr>string_input := si\<rparr>)" by auto
  with inv_binary_only [OF assms(2) string_map_binary_only(1) string_map_wf(1) [OF inv_wf [OF assms(2)]]]
  show ?thesis by (simp add: Call3SetString)
next
  case (Call3DoStep point step_size)
  from do_step_run [OF assms(2), of point step_size] obtain rc g where
    "do_step H I f point step_size = Some (status_of rc, g)" "inv g" by blast
  then show ?thesis by (simp add: Call3DoStep fmi3DoStep_def status_of_def)
qed (use assms(2) in \<open>simp_all add: fmi3SetDebugLogging_def fmi3_get_stub_call_def fmi3_set_stub_call_def fmi3_state_stub_call_def\<close>)

end



end
