(* ===== verification/MclParser.thy ===== *)
theory MclParser
  imports Prelude "HOL-Library.Multiset" "HOL-Library.Product_Lexorder"
begin

section \<open>The FMI MCL: model data and parser (dse/fmimcl/fmimcl.h, dse/fmimcl/parser.c)\<close>

text \<open>
  The model compatibility library loads an FMU into a ModelC simulation. Its parser reads the
  model and its signal groups from YAML documents into an \<open>FmuModel\<close> and sorts the signals by
  marshal group. The YAML documents and the schema search of ModelC are parameters. Of the
  marshal enumerations (dse.clib) the values named in the code are constructors; their numbers
  and the sizes of the enumerations are parameters. A null string is \<open>None\<close>.
\<close>

datatype marshal_kind = KindNone | KindPrimitive | KindBinary

datatype marshal_dir = DirNone | DirLocal | DirRxOnly | DirTxRx | DirTxOnly | DirParameter

datatype marshal_type = TypeNone | TypeDouble | TypeInt32 | TypeBool | TypeString

record marshal_enums =
  kind_no :: "marshal_kind \<Rightarrow> nat"
  dir_no :: "marshal_dir \<Rightarrow> nat"
  type_no :: "marshal_type \<Rightarrow> nat"
  kind_size :: nat
  type_size_no :: nat
  type_bytes :: "marshal_type \<Rightarrow> nat"

text \<open>Every enumerator is below the size of its enumeration.\<close>

definition enums_ok :: "marshal_enums \<Rightarrow> bool" where
  "enums_ok E \<longleftrightarrow> (\<forall>k. kind_no E k < kind_size E) \<and> (\<forall>t. type_no E t < type_size_no E)"

record fmu_signal =
  fs_name :: string
  fs_vref :: u32
  fs_variable_name :: "string option"
  fs_kind :: marshal_kind
  fs_dir :: marshal_dir
  fs_type :: marshal_type
  fs_encoding :: "string option"

datatype target = TargetDouble "f64 list" | TargetInt32 "u32 list" | TargetString "bytes option list" | TargetNone

record marshal_group =
  mg_name :: string
  mg_kind :: marshal_kind
  mg_dir :: marshal_dir
  mg_type :: marshal_type
  mg_count :: nat
  mg_ref :: "u32 list"
  mg_target :: target
  mg_binary_len :: "u32 list option"
  mg_offset :: nat
  mg_encode :: "bool list option"
  mg_decode :: "bool list option"

text \<open>The union of the signal storage is kept as both views; the kind of a signal says which one is
  used. The MCL's source (\<open>MclDesc\<close>) points at the same arrays. Of the measurement the number of
  channels and the times of the records written are kept.\<close>

record fmu_data =
  fd_count :: nat
  fd_name :: "string list"
  fd_scalar :: "f64 list"
  fd_binary :: "bytes option list"
  fd_binary_len :: "u32 list"
  fd_kind :: "marshal_kind list"
  fd_mg_table :: "marshal_group list"

record ('y, 'a) fmu_model =
  mc_adapter :: "string option"
  mc_version :: "string option"
  mc_step_size :: f64
  mc_vtable :: bool
  fm_name :: "string option"
  fm_version :: "string option"
  fm_cosim :: bool
  fm_guid :: "string option"
  fm_resource_dir :: "string option"
  fm_path :: "string option"
  fm_signals :: "fmu_signal list"
  fm_doc :: "'y option"
  fm_adapter :: "'a option"
  fm_data :: fmu_data
  fm_file_name :: "string option"
  fm_file :: bool
  fm_cg :: "nat option"
  fm_records :: "f64 list"

definition zero_data :: fmu_data where
  "zero_data = \<lparr>fd_count = 0, fd_name = [], fd_scalar = [], fd_binary = [], fd_binary_len = [], fd_kind = [], fd_mg_table = []\<rparr>"

definition zero_model :: "('y, 'a) fmu_model" where
  "zero_model = \<lparr>mc_adapter = None, mc_version = None, mc_step_size = 0, mc_vtable = False, fm_name = None, fm_version = None,
     fm_cosim = False, fm_guid = None, fm_resource_dir = None, fm_path = None, fm_signals = [], fm_doc = None, fm_adapter = None,
     fm_data = zero_data, fm_file_name = None, fm_file = False, fm_cg = None, fm_records = []\<rparr>"

subsection \<open>Sorting\<close>

definition dir_order :: "marshal_dir list" where
  "dir_order = [DirNone, DirLocal, DirRxOnly, DirTxRx, DirTxOnly, DirParameter]"

definition sort_by_marshal_group :: "marshal_enums \<Rightarrow> fmu_signal list \<Rightarrow> fmu_signal list" where
  "sort_by_marshal_group E signals = concat (map (\<lambda>kind. concat (map (\<lambda>type. concat (map (\<lambda>dir.
      filter (\<lambda>s. kind_no E (fs_kind s) = kind \<and> fs_dir s = dir \<and> type_no E (fs_type s) = type) signals)
    dir_order)) [0..<type_size_no E])) [0..<kind_size E])"

subsection \<open>Decoding the annotations\<close>

definition decode_var_kind :: "string option \<Rightarrow> marshal_kind" where
  "decode_var_kind t = (case t of None \<Rightarrow> KindNone | Some s \<Rightarrow>
     if s = ''Real'' then KindPrimitive else if s = ''Integer'' then KindPrimitive
     else if s = ''Boolean'' then KindPrimitive else if s = ''String'' then KindBinary else KindNone)"

definition decode_var_type :: "string option \<Rightarrow> marshal_type" where
  "decode_var_type t = (case t of None \<Rightarrow> TypeNone | Some s \<Rightarrow>
     if s = ''Real'' then TypeDouble else if s = ''Integer'' then TypeInt32
     else if s = ''Boolean'' then TypeBool else if s = ''String'' then TypeString else TypeNone)"

definition decode_var_dir :: "string option \<Rightarrow> marshal_dir" where
  "decode_var_dir t = (case t of None \<Rightarrow> DirTxRx | Some s \<Rightarrow>
     if s = ''input'' then DirTxOnly else if s = ''output'' then DirRxOnly
     else if s = ''inout'' then DirTxRx else if s = ''parameter'' then DirParameter
     else if s = ''local'' then DirLocal else DirNone)"

subsection \<open>Reading the documents\<close>

text \<open>
  The accessors of the YAML library (a value that is not found leaves its target alone), the
  first document that matches a selector and the nodes below a path of a document. The match
  handlers stop the search at the first match.
\<close>

record selector =
  sel_kind :: string
  sel_name :: "string option"
  sel_labels :: "(string \<times> string option) list"

record 'y yaml =
  y_find :: "'y \<Rightarrow> string \<Rightarrow> 'y option"
  y_scalar :: "'y \<Rightarrow> string option"
  y_string :: "'y option \<Rightarrow> string \<Rightarrow> string option"
  y_uint :: "'y \<Rightarrow> string \<Rightarrow> u32 option"
  y_bool :: "'y \<Rightarrow> string \<Rightarrow> bool option"
  y_double :: "'y \<Rightarrow> string \<Rightarrow> f64 option"
  y_find_in_seq :: "'y \<Rightarrow> string \<Rightarrow> (string \<times> string) list \<Rightarrow> 'y option"
  schema_search :: "selector \<Rightarrow> 'y option"
  schema_nodes :: "'y \<Rightarrow> string \<Rightarrow> 'y list"

definition get_str :: "'y yaml \<Rightarrow> 'y option \<Rightarrow> string \<Rightarrow> string option \<Rightarrow> string option" where
  "get_str Y n path old = (case y_string Y n path of None \<Rightarrow> old | Some s \<Rightarrow> Some s)"

definition fmu_signal_generator :: "'y yaml \<Rightarrow> 'y \<Rightarrow> fmu_signal option" where
  "fmu_signal_generator Y data = (case y_find Y data ''signal'' of None \<Rightarrow> None | Some n \<Rightarrow>
     (case y_scalar Y n of None \<Rightarrow> None | Some name \<Rightarrow>
        let v_type = get_str Y (Some data) ''annotations/fmi_variable_type'' None;
            v_dir = get_str Y (Some data) ''annotations/fmi_variable_causality'' None
        in Some \<lparr>fs_name = name,
             fs_vref = (case y_uint Y data ''annotations/fmi_variable_vref'' of None \<Rightarrow> 0 | Some v \<Rightarrow> v),
             fs_variable_name = get_str Y (Some data) ''annotations/fmi_variable_name'' None,
             fs_kind = decode_var_kind v_type, fs_dir = decode_var_dir v_dir, fs_type = decode_var_type v_type,
             fs_encoding = get_str Y (Some data)
               ''annotations/fmi_annotations/dse.standards.fmi-ls-binary-to-text.encoding'' None\<rparr>))"

text \<open>The enumeration ends at the first node without a signal.\<close>

fun enumerate_signals :: "'y yaml \<Rightarrow> 'y list \<Rightarrow> fmu_signal list" where
  "enumerate_signals Y [] = []"
| "enumerate_signals Y (n # ns) = (case fmu_signal_generator Y n of None \<Rightarrow> [] | Some s \<Rightarrow> s # enumerate_signals Y ns)"

definition variable_match_handler :: "'y yaml \<Rightarrow> fmu_signal list \<Rightarrow> 'y \<Rightarrow> fmu_signal list" where
  "variable_match_handler Y s_list doc = s_list @ enumerate_signals Y (schema_nodes Y doc ''spec/signals'')"

definition model_match_handler :: "'y yaml \<Rightarrow> string \<Rightarrow> string \<Rightarrow> ('y, 'a) fmu_model \<Rightarrow> 'y \<Rightarrow> ('y, 'a) fmu_model" where
  "model_match_handler Y os arch m doc =
     (let dir = get_str Y (Some doc) ''metadata/annotations/fmi_resource_dir'' (fm_resource_dir m) in
      m\<lparr>fm_doc := Some doc,
        mc_adapter := get_str Y (Some doc) ''metadata/annotations/mcl_adapter'' (mc_adapter m),
        mc_version := get_str Y (Some doc) ''metadata/annotations/mcl_version'' (mc_version m),
        fm_cosim := (case y_bool Y doc ''metadata/annotations/fmi_model_cosim'' of None \<Rightarrow> fm_cosim m | Some b \<Rightarrow> b),
        fm_version := get_str Y (Some doc) ''metadata/annotations/fmi_model_version'' (fm_version m),
        mc_step_size := (case y_double Y doc ''metadata/annotations/fmi_stepsize'' of None \<Rightarrow> mc_step_size m | Some x \<Rightarrow> x),
        fm_guid := get_str Y (Some doc) ''metadata/annotations/fmi_guid'' (fm_guid m),
        fm_resource_dir := (case dir of None \<Rightarrow> Some ''/tmp'' | Some d \<Rightarrow> Some d),
        fm_path := get_str Y (y_find_in_seq Y doc ''spec/runtime/mcl'' [(''os'', os), (''arch'', arch)]) ''path'' (fm_path m)\<rparr>)"

definition search_group :: "'y yaml \<Rightarrow> string option \<Rightarrow> string \<Rightarrow> fmu_signal list \<Rightarrow> fmu_signal list" where
  "search_group Y name channel s_list =
     (case schema_search Y \<lparr>sel_kind = ''SignalGroup'', sel_name = None,
         sel_labels = [(''model'', name), (''channel'', Some channel)]\<rparr> of
        None \<Rightarrow> s_list | Some doc \<Rightarrow> variable_match_handler Y s_list doc)"

definition fmimcl_parse :: "marshal_enums \<Rightarrow> 'y yaml \<Rightarrow> string \<Rightarrow> string \<Rightarrow> ('y, 'a) fmu_model \<Rightarrow> ('y, 'a) fmu_model" where
  "fmimcl_parse E Y os arch m =
     (let m1 = (case schema_search Y \<lparr>sel_kind = ''Model'', sel_name = fm_name m, sel_labels = []\<rparr> of
                  None \<Rightarrow> m | Some doc \<Rightarrow> model_match_handler Y os arch m doc);
          scalars = search_group Y (fm_name m1) ''signal_vector'' [];
          s_list = search_group Y (fm_name m1) ''network_vector'' scalars
      in m1\<lparr>fm_signals := sort_by_marshal_group E s_list\<rparr>)"

subsection \<open>The sort is the stable sort of the signals by their group\<close>

fun dir_rank :: "marshal_dir \<Rightarrow> nat" where
  "dir_rank DirNone = 0"
| "dir_rank DirLocal = 1"
| "dir_rank DirRxOnly = 2"
| "dir_rank DirTxRx = 3"
| "dir_rank DirTxOnly = 4"
| "dir_rank DirParameter = 5"

definition group_rank :: "marshal_enums \<Rightarrow> fmu_signal \<Rightarrow> nat \<times> nat \<times> nat" where
  "group_rank E s = (kind_no E (fs_kind s), type_no E (fs_type s), dir_rank (fs_dir s))"

text \<open>Nested selections in the order of a key are the stable sort by the key.\<close>

lemma mset_selections:
  "distinct ks \<Longrightarrow> mset (concat (map (\<lambda>k. filter (\<lambda>x. f x = k) xs) ks)) = mset (filter (\<lambda>x. f x \<in> set ks) xs)"
proof (induction ks)
  case (Cons k ks)
  have "mset (filter (\<lambda>x. f x = k) xs) + mset (filter (\<lambda>x. f x \<in> set ks) xs) = mset (filter (\<lambda>x. f x \<in> set (k # ks)) xs)"
    using Cons.prems by (induction xs) auto
  with Cons show ?case by simp
qed simp

lemma filter_selections:
  "distinct ks \<Longrightarrow> k \<in> set ks \<Longrightarrow> filter (\<lambda>x. f x = k) (concat (map (\<lambda>k. filter (\<lambda>x. f x = k) xs) ks)) = filter (\<lambda>x. f x = k) xs"
proof (induction ks)
  case (Cons j ks)
  have other: "filter (\<lambda>x. f x = k) (concat (map (\<lambda>k. filter (\<lambda>x. f x = k) xs) ks)) = []" if "k \<notin> set ks" for ks
    using that by (auto simp: filter_empty_conv)
  show ?case
  proof (cases "k = j")
    case True
    with Cons.prems other [of ks] show ?thesis by simp
  next
    case False
    then have "filter (\<lambda>x. f x = k) (filter (\<lambda>x. f x = j) xs) = []" by (auto simp: filter_empty_conv)
    with Cons False show ?thesis by simp
  qed
qed simp

lemma sorted_selections:
  fixes f :: "'a \<Rightarrow> 'k::linorder"
  shows "sorted_wrt (<) ks \<Longrightarrow> sorted (map f (concat (map (\<lambda>k. filter (\<lambda>x. f x = k) xs) ks)))"
proof (induction ks)
  case (Cons k ks)
  have "sorted (map f (filter (\<lambda>x. f x = k) xs))" by (induction xs) auto
  with Cons show ?case by (auto simp: sorted_append less_imp_le)
qed simp

lemma selections_sort_key:
  fixes f :: "'a \<Rightarrow> 'k::linorder"
  assumes "sorted_wrt (<) ks" "\<forall>x \<in> set xs. f x \<in> set ks"
  shows "concat (map (\<lambda>k. filter (\<lambda>x. f x = k) xs) ks) = sort_key f xs"
proof (rule properties_for_sort_key [symmetric])
  have d: "distinct ks" using assms(1) by (simp add: strict_sorted_iff)
  show "mset (concat (map (\<lambda>k. filter (\<lambda>x. f x = k) xs) ks)) = mset xs"
    using assms(2) by (simp only: mset_selections [OF d]) (metis filter_True)
  show "filter (\<lambda>x. f k = f x) (concat (map (\<lambda>k. filter (\<lambda>x. f x = k) xs) ks)) = filter (\<lambda>x. f k = f x) xs"
    if "k \<in> set (concat (map (\<lambda>k. filter (\<lambda>x. f x = k) xs) ks))" for k
    unfolding eq_commute [of "f k"] using that assms(2) by (intro filter_selections d) auto
  show "sorted (map f (concat (map (\<lambda>k. filter (\<lambda>x. f x = k) xs) ks)))"
    by (rule sorted_selections [OF assms(1)])
qed

lemma concat_product:
  "concat (map (\<lambda>a. concat (map (g a) bs)) as) = concat (map (\<lambda>(a, b). g a b) (List.product as bs))"
  by (induction as) (simp_all add: comp_def)

lemma strict_product:
  fixes as :: "'a::linorder list" and bs :: "'b::linorder list"
  shows "sorted_wrt (<) as \<Longrightarrow> sorted_wrt (<) bs \<Longrightarrow> sorted_wrt (<) (List.product as bs)"
  by (induction as) (auto simp: sorted_wrt_append sorted_wrt_map less_prod_def)

lemma sort_by_group_key:
  assumes "enums_ok E"
  shows "sort_by_marshal_group E signals = sort_key (group_rank E) signals"
proof -
  let ?sel = "\<lambda>k. filter (\<lambda>s. group_rank E s = k) signals"
  have dirs: "map dir_rank dir_order = [0..<6]" by (simp add: dir_order_def upt_rec)
  have inj: "dir_rank d = dir_rank e \<longleftrightarrow> d = e" for d e by (cases d; cases e) simp_all
  have "sort_by_marshal_group E signals = concat (map (\<lambda>kind. concat (map (\<lambda>type. concat (map (\<lambda>dir.
      ?sel (kind, type, dir)) (map dir_rank dir_order))) [0..<type_size_no E])) [0..<kind_size E])"
    by (simp add: sort_by_marshal_group_def group_rank_def comp_def inj conj_commute conj_left_commute)
  also have "\<dots> = concat (map ?sel (List.product [0..<kind_size E] (List.product [0..<type_size_no E] [0..<6])))"
    by (simp only: dirs concat_product case_prod_unfold prod.collapse)
  also have "\<dots> = sort_key (group_rank E) signals"
  proof (rule selections_sort_key)
    have "dir_rank d < 6" for d by (cases d) simp_all
    with assms show "\<forall>s \<in> set signals. group_rank E s \<in> set (List.product [0..<kind_size E] (List.product [0..<type_size_no E] [0..<6]))"
      by (auto simp: group_rank_def enums_ok_def)
  qed (intro strict_product; simp)
  finally show ?thesis .
qed


text \<open>The enumerations with the named values numbered in the order of their declaration here.\<close>

fun ref_kind_no :: "marshal_kind \<Rightarrow> nat" where
  "ref_kind_no KindNone = 0" | "ref_kind_no KindPrimitive = 1" | "ref_kind_no KindBinary = 2"

fun ref_type_no :: "marshal_type \<Rightarrow> nat" where
  "ref_type_no TypeNone = 0" | "ref_type_no TypeDouble = 1" | "ref_type_no TypeInt32 = 2"
| "ref_type_no TypeBool = 3" | "ref_type_no TypeString = 4"

fun ref_type_bytes :: "marshal_type \<Rightarrow> nat" where
  "ref_type_bytes TypeNone = 0" | "ref_type_bytes TypeDouble = 8" | "ref_type_bytes TypeInt32 = 4"
| "ref_type_bytes TypeBool = 4" | "ref_type_bytes TypeString = 8"

definition ref_enums :: marshal_enums where
  "ref_enums = \<lparr>kind_no = ref_kind_no, dir_no = dir_rank, type_no = ref_type_no, kind_size = 3, type_size_no = 5,
     type_bytes = ref_type_bytes\<rparr>"

lemma ref_enums_ok: "enums_ok ref_enums"
proof -
  have "ref_kind_no k < 3" "ref_type_no t < 5" for k t by (cases k; simp) (cases t; simp)
  then show ?thesis by (simp add: enums_ok_def ref_enums_def)
qed

definition demo_signal :: "string \<Rightarrow> u32 \<Rightarrow> marshal_kind \<Rightarrow> marshal_dir \<Rightarrow> marshal_type \<Rightarrow> string option \<Rightarrow> fmu_signal" where
  "demo_signal n v k d t e = \<lparr>fs_name = n, fs_vref = v, fs_variable_name = None, fs_kind = k, fs_dir = d, fs_type = t, fs_encoding = e\<rparr>"

definition demo_signals :: "fmu_signal list" where
  "demo_signals = [demo_signal ''s'' 9 KindBinary DirTxRx TypeString (Some ''ascii85''),
     demo_signal ''a'' 1 KindPrimitive DirTxOnly TypeDouble None, demo_signal ''b'' 2 KindPrimitive DirRxOnly TypeDouble None,
     demo_signal ''c'' 3 KindPrimitive DirTxOnly TypeDouble None]"


subsection \<open>What the parser yields\<close>

text \<open>Kind and type of a signal are read off the same annotation.\<close>

definition kind_agrees :: "fmu_signal \<Rightarrow> bool" where
  "kind_agrees s \<longleftrightarrow> fs_kind s = (case fs_type s of TypeNone \<Rightarrow> KindNone | TypeString \<Rightarrow> KindBinary | _ \<Rightarrow> KindPrimitive)"

lemma decode_agrees:
  "decode_var_kind t = (case decode_var_type t of TypeNone \<Rightarrow> KindNone | TypeString \<Rightarrow> KindBinary | _ \<Rightarrow> KindPrimitive)"
  by (simp add: decode_var_kind_def decode_var_type_def split: option.split)

lemma generator_agrees: "fmu_signal_generator Y n = Some s \<Longrightarrow> kind_agrees s"
  using decode_agrees by (auto simp: fmu_signal_generator_def kind_agrees_def Let_def split: option.splits)

lemma enumerate_agrees: "s \<in> set (enumerate_signals Y ns) \<Longrightarrow> kind_agrees s"
  by (induction ns) (auto simp: generator_agrees split: option.splits)

text \<open>The signals of a channel: those of the first matching group up to the first node without one.\<close>

definition channel_signals :: "'y yaml \<Rightarrow> string option \<Rightarrow> string \<Rightarrow> fmu_signal list" where
  "channel_signals Y name channel = search_group Y name channel []"

lemma search_group_append: "search_group Y name channel xs = xs @ channel_signals Y name channel"
  by (simp add: search_group_def channel_signals_def variable_match_handler_def split: option.split)

lemma channel_agrees: "s \<in> set (channel_signals Y name channel) \<Longrightarrow> kind_agrees s"
  by (auto simp: channel_signals_def search_group_def variable_match_handler_def enumerate_agrees split: option.splits)

lemma model_handler_name: "fm_name (model_match_handler Y os arch m doc) = fm_name m"
  by (simp add: model_match_handler_def Let_def)

lemma parse_signals:
  "enums_ok E \<Longrightarrow> fm_signals (fmimcl_parse E Y os arch m) =
     sort_key (group_rank E) (channel_signals Y (fm_name m) ''signal_vector'' @ channel_signals Y (fm_name m) ''network_vector'')"
proof -
  assume e: "enums_ok E"
  let ?m1 = "case schema_search Y \<lparr>sel_kind = ''Model'', sel_name = fm_name m, sel_labels = []\<rparr> of
      None \<Rightarrow> m | Some doc \<Rightarrow> model_match_handler Y os arch m doc"
  have n: "fm_name ?m1 = fm_name m" by (simp add: model_handler_name split: option.split)
  have "fm_signals (fmimcl_parse E Y os arch m) =
      sort_by_marshal_group E (search_group Y (fm_name ?m1) ''network_vector'' (search_group Y (fm_name ?m1) ''signal_vector'' []))"
    by (simp add: fmimcl_parse_def Let_def)
  also have "\<dots> = sort_by_marshal_group E (channel_signals Y (fm_name m) ''signal_vector'' @ channel_signals Y (fm_name m) ''network_vector'')"
    by (simp add: n search_group_append)
  also have "\<dots> = sort_key (group_rank E) (channel_signals Y (fm_name m) ''signal_vector'' @ channel_signals Y (fm_name m) ''network_vector'')"
    by (rule sort_by_group_key [OF e])
  finally show ?thesis .
qed

end
