(* ===== verification/MclEngine.thy ===== *)
theory MclEngine
  imports MclParser
begin

section \<open>The FMI MCL: storage and marshal groups (dse/fmimcl/engine.c)\<close>

text \<open>
  The engine allocates one storage cell per signal and cuts the sorted signals into marshal
  groups, one per run of signals with equal kind, direction and type. A group addresses its
  cells by offset and count and its FMU variables by their references. \<open>None\<close> is a failed
  \<open>assert\<close> or a write outside an allocation.
\<close>

definition count_signals :: "('y, 'a) fmu_model \<Rightarrow> nat" where
  "count_signals m = length (fm_signals m)"

definition fmimcl_allocate_source :: "('y, 'a) fmu_model \<Rightarrow> ('y, 'a) fmu_model" where
  "fmimcl_allocate_source m = (let cnt = count_signals m in
     m\<lparr>fm_data := (fm_data m)\<lparr>fd_count := cnt, fd_name := map fs_name (fm_signals m),
         fd_scalar := replicate cnt 0, fd_binary := replicate cnt None, fd_binary_len := replicate cnt 0,
         fd_kind := map fs_kind (fm_signals m)\<rparr>\<rparr>)"

subsection \<open>Marshal groups\<close>

definition STR_BUFFER :: nat where "STR_BUFFER = 512"

definition target_alloc :: "marshal_type \<Rightarrow> nat \<Rightarrow> target" where
  "target_alloc t cnt = (case t of TypeDouble \<Rightarrow> TargetDouble (replicate cnt 0)
     | TypeInt32 \<Rightarrow> TargetInt32 (replicate cnt 0) | TypeBool \<Rightarrow> TargetInt32 (replicate cnt 0)
     | TypeString \<Rightarrow> TargetString (replicate cnt None) | TypeNone \<Rightarrow> TargetNone)"

text \<open>
  \<open>ref\<close> is allocated with the size of the group's type and written with four bytes per
  signal: a type smaller than that makes the last write leave the allocation.
\<close>

definition create_mg ::
  "marshal_enums \<Rightarrow> marshal_kind \<Rightarrow> marshal_dir \<Rightarrow> marshal_type \<Rightarrow> nat \<Rightarrow> nat \<Rightarrow> u32 list \<Rightarrow> marshal_group option" where
  "create_mg E kind dir type cnt offset ref_list =
     (let name = snprintf STR_BUFFER (''mg-'' @ show_nat (kind_no E kind) @ ''-'' @ show_nat (dir_no E dir) @ ''-'' @ show_nat (type_no E type)) in
      if cnt \<noteq> length ref_list then None
      else if 0 < cnt \<and> cnt * type_bytes E type < 4 * cnt then None
      else Some \<lparr>mg_name = name, mg_kind = kind, mg_dir = dir, mg_type = type, mg_count = cnt, mg_ref = ref_list,
             mg_target = target_alloc type cnt,
             mg_binary_len = (if kind = KindBinary then Some (replicate cnt 0) else None),
             mg_offset = offset,
             mg_encode = (if kind = KindBinary then Some (replicate cnt False) else None),
             mg_decode = (if kind = KindBinary then Some (replicate cnt False) else None)\<rparr>)"

text \<open>The state of the loop over the signals: the run being accumulated and the groups emitted.\<close>

record mg_loop =
  lp_kind :: marshal_kind
  lp_dir :: marshal_dir
  lp_type :: marshal_type
  lp_count :: nat
  lp_offset :: nat
  lp_refs :: "u32 list"
  lp_table :: "marshal_group list"

definition emit_group :: "marshal_enums \<Rightarrow> mg_loop \<Rightarrow> mg_loop option" where
  "emit_group E l = (if lp_count l = 0 then Some l
     else do {
       mg \<leftarrow> create_mg E (lp_kind l) (lp_dir l) (lp_type l) (lp_count l) (lp_offset l) (lp_refs l);
       Some (l\<lparr>lp_table := lp_table l @ [mg], lp_refs := []\<rparr>) })"

definition group_signal :: "marshal_enums \<Rightarrow> mg_loop \<Rightarrow> fmu_signal \<Rightarrow> mg_loop option" where
  "group_signal E l s =
     (if lp_kind l \<noteq> fs_kind s \<or> lp_dir l \<noteq> fs_dir s \<or> lp_type l \<noteq> fs_type s then do {
        l1 \<leftarrow> emit_group E l;
        Some (l1\<lparr>lp_offset := lp_offset l1 + lp_count l1, lp_kind := fs_kind s, lp_dir := fs_dir s, lp_type := fs_type s,
                 lp_count := 1, lp_refs := lp_refs l1 @ [fs_vref s]\<rparr>) }
      else Some (l\<lparr>lp_count := lp_count l + 1, lp_refs := lp_refs l @ [fs_vref s]\<rparr>))"

definition loop_start :: mg_loop where
  "loop_start = \<lparr>lp_kind = KindNone, lp_dir = DirNone, lp_type = TypeNone, lp_count = 0, lp_offset = 0, lp_refs = [], lp_table = []\<rparr>"

definition fmimcl_generate_marshal_table :: "marshal_enums \<Rightarrow> ('y, 'a) fmu_model \<Rightarrow> ('y, 'a) fmu_model option" where
  "fmimcl_generate_marshal_table E m = do {
     l \<leftarrow> foldM (group_signal E) loop_start (fm_signals m);
     l1 \<leftarrow> emit_group E l;
     Some (m\<lparr>fm_data := (fm_data m)\<lparr>fd_mg_table := lp_table l1\<rparr>\<rparr>) }"

subsection \<open>Encoders\<close>

definition load_one :: "fmu_signal list \<Rightarrow> marshal_group \<Rightarrow> nat \<Rightarrow> marshal_group option" where
  "load_one signals mg i = do {
     s \<leftarrow> nth_opt signals (mg_offset mg + i);
     case fs_encoding s of None \<Rightarrow> Some mg
     | Some enc \<Rightarrow>
         if enc = ''ascii85'' then do {
           e \<leftarrow> mg_encode mg; e1 \<leftarrow> upd_opt e i True;
           d \<leftarrow> mg_decode mg; d1 \<leftarrow> upd_opt d i True;
           Some (mg\<lparr>mg_encode := Some e1, mg_decode := Some d1\<rparr>) }
         else Some mg }"

definition load_group_encoders :: "fmu_signal list \<Rightarrow> marshal_group \<Rightarrow> marshal_group option" where
  "load_group_encoders signals mg =
     (if mg_kind mg = KindBinary \<and> mg_encode mg \<noteq> None \<and> mg_decode mg \<noteq> None
      then foldM (load_one signals) mg [0..<mg_count mg] else Some mg)"

definition fmimcl_load_encoder_funcs :: "('y, 'a) fmu_model \<Rightarrow> ('y, 'a) fmu_model option" where
  "fmimcl_load_encoder_funcs m = do {
     t \<leftarrow> foldM (\<lambda>acc mg. do { mg1 \<leftarrow> load_group_encoders (fm_signals m) mg; Some (acc @ [mg1]) }) [] (fd_mg_table (fm_data m));
     Some (m\<lparr>fm_data := (fm_data m)\<lparr>fd_mg_table := t\<rparr>\<rparr>) }"

subsection \<open>The groups tile the signals\<close>

definition group_key :: "fmu_signal \<Rightarrow> marshal_kind \<times> marshal_dir \<times> marshal_type" where
  "group_key s = (fs_kind s, fs_dir s, fs_type s)"

definition mg_key :: "marshal_group \<Rightarrow> marshal_kind \<times> marshal_dir \<times> marshal_type" where
  "mg_key mg = (mg_kind mg, mg_dir mg, mg_type mg)"

text \<open>A group describes a block of signals that starts at its offset.\<close>

definition describes :: "marshal_group \<Rightarrow> nat \<Rightarrow> fmu_signal list \<Rightarrow> bool" where
  "describes mg off ss \<longleftrightarrow> ss \<noteq> [] \<and> mg_offset mg = off \<and> mg_count mg = length ss \<and> mg_ref mg = map fs_vref ss \<and>
     (\<forall>s \<in> set ss. group_key s = mg_key mg) \<and> mg_target mg = target_alloc (mg_type mg) (length ss) \<and>
     mg_encode mg = (if mg_kind mg = KindBinary then Some (replicate (length ss) False) else None) \<and>
     mg_decode mg = (if mg_kind mg = KindBinary then Some (replicate (length ss) False) else None)"

fun tiles :: "marshal_group list \<Rightarrow> nat \<Rightarrow> fmu_signal list \<Rightarrow> bool" where
  "tiles [] off ss \<longleftrightarrow> ss = []"
| "tiles (mg # mgs) off ss \<longleftrightarrow> mg_count mg \<le> length ss \<and> describes mg off (take (mg_count mg) ss) \<and>
     tiles mgs (off + mg_count mg) (drop (mg_count mg) ss)"

lemma tiles_snoc:
  "tiles mgs off ss \<Longrightarrow> describes mg (off + length ss) rs \<Longrightarrow> tiles (mgs @ [mg]) off (ss @ rs)"
  by (induction mgs arbitrary: off ss) (auto simp: describes_def)

text \<open>The loop: the table tiles the signals before the current run, and the run has one key.\<close>

definition loop_inv :: "fmu_signal list \<Rightarrow> mg_loop \<Rightarrow> bool" where
  "loop_inv ss l \<longleftrightarrow> (\<exists>pre run. ss = pre @ run \<and> tiles (lp_table l) 0 pre \<and> lp_offset l = length pre \<and>
     lp_count l = length run \<and> lp_refs l = map fs_vref run \<and>
     (\<forall>s \<in> set run. group_key s = (lp_kind l, lp_dir l, lp_type l)) \<and> (run = [] \<longrightarrow> ss = []) \<and>
     distinct_adj (map mg_key (lp_table l) @ (if run = [] then [] else [(lp_kind l, lp_dir l, lp_type l)])))"

definition sizes_fit :: "marshal_enums \<Rightarrow> fmu_signal list \<Rightarrow> bool" where
  "sizes_fit E ss \<longleftrightarrow> (\<forall>s \<in> set ss. 4 \<le> type_bytes E (fs_type s))"

definition lp_key :: "mg_loop \<Rightarrow> marshal_kind \<times> marshal_dir \<times> marshal_type" where
  "lp_key l = (lp_kind l, lp_dir l, lp_type l)"

lemma emit_run:
  assumes "loop_inv ss l" "sizes_fit E ss"
  shows "\<exists>t. emit_group E l = Some (l\<lparr>lp_table := t, lp_refs := []\<rparr>) \<and> tiles t 0 ss \<and>
    map mg_key t = map mg_key (lp_table l) @ (if ss = [] then [] else [lp_key l]) \<and> distinct_adj (map mg_key t) \<and>
    lp_offset l + lp_count l = length ss"
proof -
  from assms(1) obtain pre run where d: "ss = pre @ run" "tiles (lp_table l) 0 pre" "lp_offset l = length pre"
    "lp_count l = length run" "lp_refs l = map fs_vref run" "\<forall>s \<in> set run. group_key s = (lp_kind l, lp_dir l, lp_type l)"
    "run = [] \<longrightarrow> ss = []" "distinct_adj (map mg_key (lp_table l) @ (if run = [] then [] else [(lp_kind l, lp_dir l, lp_type l)]))"
    unfolding loop_inv_def by blast
  show ?thesis
  proof (cases "run = []")
    case True
    then have "emit_group E l = Some (l\<lparr>lp_table := lp_table l, lp_refs := []\<rparr>)"
      using d(4,5) by (simp add: emit_group_def)
    with True d show ?thesis by (intro exI [of _ "lp_table l"]) simp
  next
    case False
    then obtain s where s: "s \<in> set run" by (cases run) auto
    with d(6) have "fs_type s = lp_type l" by (auto simp: group_key_def)
    moreover have "4 \<le> type_bytes E (fs_type s)" using d(1) assms(2) s by (simp add: sizes_fit_def)
    ultimately have "\<not> length run * type_bytes E (lp_type l) < 4 * length run" by (simp add: not_less)
    then obtain mg where mg: "create_mg E (lp_kind l) (lp_dir l) (lp_type l) (lp_count l) (lp_offset l) (lp_refs l) = Some mg"
      "describes mg (length pre) run" "mg_key mg = lp_key l"
      using d(3-6) False by (auto simp: create_mg_def describes_def mg_key_def lp_key_def Let_def)
    have "tiles (lp_table l @ [mg]) 0 ss" using tiles_snoc [OF d(2)] mg(2) d(1) by simp
    with mg(1,3) False d show ?thesis
      by (intro exI [of _ "lp_table l @ [mg]"]) (simp add: emit_group_def lp_key_def)
  qed
qed

lemma group_signal_run:
  assumes "loop_inv ss l" "sizes_fit E (ss @ [s])"
  shows "\<exists>l'. group_signal E l s = Some l' \<and> loop_inv (ss @ [s]) l'"
proof (cases "group_key s = lp_key l")
  case False
  have "sizes_fit E ss" using assms(2) by (simp add: sizes_fit_def)
  from emit_run [OF assms(1) this] obtain t where t: "emit_group E l = Some (l\<lparr>lp_table := t, lp_refs := []\<rparr>)" "tiles t 0 ss"
    "map mg_key t = map mg_key (lp_table l) @ (if ss = [] then [] else [lp_key l])" "distinct_adj (map mg_key t)"
    "lp_offset l + lp_count l = length ss" by blast
  let ?l = "l\<lparr>lp_table := t, lp_refs := [fs_vref s], lp_offset := length ss, lp_kind := fs_kind s, lp_dir := fs_dir s,
    lp_type := fs_type s, lp_count := 1\<rparr>"
  have "group_signal E l s = Some ?l" using False t(1,5) by (auto simp: group_signal_def group_key_def lp_key_def)
  moreover have "distinct_adj (map mg_key t @ [group_key s])"
  proof (cases "ss = []")
    case True
    with t(2) have "t = []" by (cases t) (auto simp: describes_def)
    then show ?thesis by simp
  next
    case ne: False
    with t(3,4) False show ?thesis by (simp add: distinct_adj_append_iff)
  qed
  then have "loop_inv (ss @ [s]) ?l"
    unfolding loop_inv_def using t(2) by (intro exI [of _ ss] exI [of _ "[s]"]) (simp add: group_key_def)
  ultimately show ?thesis by blast
next
  case True
  from assms(1) obtain pre run where d: "ss = pre @ run" "tiles (lp_table l) 0 pre" "lp_offset l = length pre"
    "lp_count l = length run" "lp_refs l = map fs_vref run" "\<forall>s \<in> set run. group_key s = (lp_kind l, lp_dir l, lp_type l)"
    "run = [] \<longrightarrow> ss = []" "distinct_adj (map mg_key (lp_table l) @ (if run = [] then [] else [(lp_kind l, lp_dir l, lp_type l)]))"
    unfolding loop_inv_def by blast
  let ?l = "l\<lparr>lp_count := lp_count l + 1, lp_refs := lp_refs l @ [fs_vref s]\<rparr>"
  have "group_signal E l s = Some ?l" using True by (auto simp: group_signal_def group_key_def lp_key_def)
  moreover have "distinct_adj (map mg_key (lp_table l) @ [lp_key l])"
  proof (cases "run = []")
    case True
    with d(1,2,7) have "lp_table l = []" by (cases "lp_table l") (auto simp: describes_def)
    then show ?thesis by simp
  qed (use d(8) in \<open>simp add: lp_key_def\<close>)
  then have "loop_inv (ss @ [s]) ?l"
    unfolding loop_inv_def using True d by (intro exI [of _ pre] exI [of _ "run @ [s]"]) (auto simp: lp_key_def)
  ultimately show ?thesis by blast
qed

lemma group_loop:
  "sizes_fit E ss \<Longrightarrow> \<exists>l. foldM (group_signal E) loop_start ss = Some l \<and> loop_inv ss l"
proof (induction ss rule: rev_induct)
  case Nil
  show ?case by (simp add: loop_inv_def loop_start_def)
next
  case (snoc s ss)
  then obtain l where "foldM (group_signal E) loop_start ss = Some l" "loop_inv ss l" by (auto simp: sizes_fit_def)
  with group_signal_run [of ss l E s] snoc.prems show ?case by (auto simp: foldM_append)
qed

lemma generate_run:
  assumes "sizes_fit E (fm_signals m)"
  shows "\<exists>t. fmimcl_generate_marshal_table E m = Some (m\<lparr>fm_data := (fm_data m)\<lparr>fd_mg_table := t\<rparr>\<rparr>) \<and>
    tiles t 0 (fm_signals m) \<and> distinct_adj (map mg_key t)"
proof -
  from group_loop [OF assms] obtain l where l: "foldM (group_signal E) loop_start (fm_signals m) = Some l"
    "loop_inv (fm_signals m) l" by blast
  from emit_run [OF l(2) assms] obtain t where
    "emit_group E l = Some (l\<lparr>lp_table := t, lp_refs := []\<rparr>)" "tiles t 0 (fm_signals m)" "distinct_adj (map mg_key t)" by blast
  with l(1) show ?thesis by (auto simp: fmimcl_generate_marshal_table_def)
qed

subsection \<open>The groups of a sorted list\<close>

definition in_block :: "marshal_group \<Rightarrow> nat \<Rightarrow> bool" where
  "in_block mg i \<longleftrightarrow> mg_offset mg \<le> i \<and> i < mg_offset mg + mg_count mg"

lemma tiles_offset: "tiles mgs off ss \<Longrightarrow> mg \<in> set mgs \<Longrightarrow> off \<le> mg_offset mg \<and> mg_offset mg + mg_count mg \<le> off + length ss"
proof (induction mgs arbitrary: off ss)
  case (Cons a mgs)
  show ?case
  proof (cases "mg = a")
    case True
    with Cons.prems show ?thesis by (auto simp: describes_def)
  next
    case False
    with Cons.IH [of "off + mg_count a" "drop (mg_count a) ss"] Cons.prems show ?thesis by auto
  qed
qed simp

lemma describesD:
  "describes mg off ss \<Longrightarrow> mg_offset mg = off \<and> mg_ref mg = map fs_vref ss \<and> (\<forall>s \<in> set ss. group_key s = mg_key mg)"
  by (simp add: describes_def)

lemma describes_member: "describes mg off ss \<Longrightarrow> \<exists>s \<in> set ss. group_key s = mg_key mg"
  by (cases ss) (auto simp: describes_def)

lemma tiles_block:
  "tiles mgs off ss \<Longrightarrow> i < length ss \<Longrightarrow> \<exists>j < length mgs. in_block (mgs ! j) (off + i) \<and>
     mg_ref (mgs ! j) ! (off + i - mg_offset (mgs ! j)) = fs_vref (ss ! i) \<and> mg_key (mgs ! j) = group_key (ss ! i) \<and>
     (\<forall>k < length mgs. in_block (mgs ! k) (off + i) \<longrightarrow> k = j)"
proof (induction mgs arbitrary: off ss i)
  case (Cons mg mgs)
  let ?n = "mg_count mg"
  from Cons.prems have d: "?n \<le> length ss" "describes mg off (take ?n ss)" "tiles mgs (off + ?n) (drop ?n ss)" by simp_all
  note mg = describesD [OF d(2)]
  show ?case
  proof (cases "i < ?n")
    case True
    have "k = 0" if "k < length (mg # mgs)" "in_block ((mg # mgs) ! k) (off + i)" for k
    proof (rule ccontr)
      assume "k \<noteq> 0"
      then obtain k' where k: "k = Suc k'" by (cases k) auto
      with that have "off + ?n \<le> mg_offset (mgs ! k')" "mg_offset (mgs ! k') \<le> off + i"
        using tiles_offset [OF d(3), of "mgs ! k'"] by (simp_all add: in_block_def)
      with True show False by simp
    qed
    moreover have "ss ! i \<in> set (take ?n ss)" using True d(1) by (auto simp: in_set_conv_nth)
    moreover have "in_block mg (off + i)" "mg_ref mg ! (off + i - mg_offset mg) = fs_vref (ss ! i)"
      using True mg d(1) by (simp_all add: in_block_def)
    ultimately show ?thesis using mg by (intro exI [of _ 0]) simp
  next
    case False
    then have "i - ?n < length (drop ?n ss)" using Cons.prems d(1) by auto
    note IH = Cons.IH [OF d(3) this]
    have e: "off + ?n + (i - ?n) = off + i" "drop ?n ss ! (i - ?n) = ss ! i" using False d(1) by simp_all
    from IH [unfolded e] obtain j where j: "j < length mgs" "in_block (mgs ! j) (off + i)"
      "mg_ref (mgs ! j) ! (off + i - mg_offset (mgs ! j)) = fs_vref (ss ! i)" "mg_key (mgs ! j) = group_key (ss ! i)"
      "\<And>k. k < length mgs \<Longrightarrow> in_block (mgs ! k) (off + i) \<Longrightarrow> k = j" by blast
    have "\<not> in_block mg (off + i)" using False mg by (simp add: in_block_def)
    then have "k = Suc j" if "k < length (mg # mgs)" "in_block ((mg # mgs) ! k) (off + i)" for k
    proof (cases k)
      case 0
      with that \<open>\<not> in_block mg (off + i)\<close> show ?thesis by simp
    next
      case (Suc k')
      with that have "k' < length mgs" "in_block (mgs ! k') (off + i)" by simp_all
      from j(5) [OF this] Suc show ?thesis by simp
    qed
    moreover have "Suc j < length (mg # mgs)" "(mg # mgs) ! Suc j = mgs ! j" using j(1) by simp_all
    ultimately show ?thesis using j(2-4) by (metis (no_types, lifting))
  qed
qed simp

definition mg_rank :: "marshal_enums \<Rightarrow> marshal_group \<Rightarrow> nat \<times> nat \<times> nat" where
  "mg_rank E mg = (kind_no E (mg_kind mg), type_no E (mg_type mg), dir_rank (mg_dir mg))"

lemma key_rank: "group_key s = mg_key mg \<Longrightarrow> group_rank E s = mg_rank E mg"
  by (simp add: group_key_def mg_key_def group_rank_def mg_rank_def)

lemma tiles_member:
  "tiles mgs off ss \<Longrightarrow> mg \<in> set mgs \<Longrightarrow> \<exists>s \<in> set ss. group_key s = mg_key mg"
proof (induction mgs arbitrary: off ss)
  case (Cons a mgs)
  show ?case
  proof (cases "mg = a")
    case True
    with Cons.prems show ?thesis
      using describes_member [of a off "take (mg_count a) ss"] by (auto dest: in_set_takeD)
  next
    case False
    with Cons.IH [of "off + mg_count a" "drop (mg_count a) ss"] Cons.prems show ?thesis by (auto dest: in_set_dropD)
  qed
qed simp

lemma tiles_sorted:
  "tiles mgs off ss \<Longrightarrow> sorted (map (group_rank E) ss) \<Longrightarrow> sorted (map (mg_rank E) mgs)"
proof (induction mgs arbitrary: off ss)
  case (Cons mg mgs)
  let ?n = "mg_count mg"
  from Cons.prems have d: "?n \<le> length ss" "describes mg off (take ?n ss)" "tiles mgs (off + ?n) (drop ?n ss)" by simp_all
  from describes_member [OF d(2)] obtain s where s: "s \<in> set (take ?n ss)" "group_rank E s = mg_rank E mg"
    using key_rank by blast
  have "sorted (map (group_rank E) (take ?n ss) @ map (group_rank E) (drop ?n ss))"
    using Cons.prems(2) by (simp flip: map_append)
  then have so: "sorted (map (group_rank E) (drop ?n ss))"
    "\<forall>x \<in> set (take ?n ss). \<forall>y \<in> set (drop ?n ss). group_rank E x \<le> group_rank E y"
    by (auto simp: sorted_append)
  have "mg_rank E mg \<le> mg_rank E mg'" if m: "mg' \<in> set mgs" for mg'
  proof -
    have "\<exists>r \<in> set (drop ?n ss). group_rank E r = mg_rank E mg'"
      using tiles_member [OF d(3) m] key_rank by blast
    with so(2) s show ?thesis by metis
  qed
  with Cons.IH [OF d(3) so(1)] show ?case by simp
qed simp

lemma strict_from_adjacent: "sorted xs \<Longrightarrow> distinct_adj xs \<Longrightarrow> distinct (xs :: 'a::linorder list)"
proof (induction xs)
  case (Cons x xs)
  show ?case
  proof (cases xs)
    case (Cons y ys)
    with Cons.prems have "x < y" "\<forall>z \<in> set ys. y \<le> z" by (auto simp: less_le)
    then have "x \<notin> set xs" using Cons by auto
    with Cons.IH Cons.prems Cons show ?thesis by (auto simp: distinct_adj_Cons)
  qed simp
qed simp

definition enums_inj :: "marshal_enums \<Rightarrow> bool" where
  "enums_inj E \<longleftrightarrow> inj (kind_no E) \<and> inj (type_no E)"

lemma dir_rank_inj: "dir_rank d = dir_rank e \<longleftrightarrow> d = e"
  by (cases d; cases e) simp_all

lemma mg_rank_key: "enums_inj E \<Longrightarrow> mg_rank E a = mg_rank E b \<longleftrightarrow> mg_key a = mg_key b"
  by (auto simp: enums_inj_def mg_rank_def mg_key_def dir_rank_inj dest: injD)

lemma distinct_adj_rank: "enums_inj E \<Longrightarrow> distinct_adj (map mg_key mgs) \<Longrightarrow> distinct_adj (map (mg_rank E) mgs)"
  by (induction mgs rule: induct_list012) (auto simp: mg_rank_key)

lemma distinct_rank: "enums_inj E \<Longrightarrow> distinct (map (mg_rank E) mgs) \<Longrightarrow> distinct (map mg_key mgs)"
  by (auto simp: distinct_map inj_on_def mg_rank_key)

text \<open>
  C21: The marshal table covers the storage exactly once: every signal lies in the block
  (offset and count) of exactly one group, which has the signal's kind, direction and type and
  holds the signal's variable reference at the signal's place in the block. Building the table
  writes nowhere else and no \<open>assert\<close> fails.
\<close>

theorem marshal_table_covers:
  assumes "sizes_fit E (fm_signals m)"
  shows "\<exists>t. fmimcl_generate_marshal_table E m = Some (m\<lparr>fm_data := (fm_data m)\<lparr>fd_mg_table := t\<rparr>\<rparr>) \<and>
    (\<forall>i < length (fm_signals m). \<exists>j < length t. in_block (t ! j) i \<and>
       mg_ref (t ! j) ! (i - mg_offset (t ! j)) = fs_vref (fm_signals m ! i) \<and>
       mg_key (t ! j) = group_key (fm_signals m ! i) \<and> (\<forall>k < length t. in_block (t ! k) i \<longrightarrow> k = j))"
proof -
  from generate_run [OF assms] obtain t where
    t: "fmimcl_generate_marshal_table E m = Some (m\<lparr>fm_data := (fm_data m)\<lparr>fd_mg_table := t\<rparr>\<rparr>)"
      "tiles t 0 (fm_signals m)" by blast
  from tiles_block [OF t(2)] have "\<forall>i < length (fm_signals m). \<exists>j < length t. in_block (t ! j) i \<and>
       mg_ref (t ! j) ! (i - mg_offset (t ! j)) = fs_vref (fm_signals m ! i) \<and>
       mg_key (t ! j) = group_key (fm_signals m ! i) \<and> (\<forall>k < length t. in_block (t ! k) i \<longrightarrow> k = j)"
    unfolding add_0 by blast
  with t(1) show ?thesis by blast
qed

text \<open>
  C22: A parsed model has at most one marshal group for each kind, direction and type: sorting
  brings the signals of a group together, whatever order the documents list them in.
\<close>

theorem parsed_groups_distinct:
  assumes "enums_ok E" "enums_inj E" "sizes_fit E (fm_signals (fmimcl_parse E Y os arch m))"
  shows "\<exists>m1. fmimcl_generate_marshal_table E (fmimcl_parse E Y os arch m) = Some m1 \<and>
    distinct (map mg_key (fd_mg_table (fm_data m1)))"
proof -
  let ?m = "fmimcl_parse E Y os arch m"
  from generate_run [OF assms(3)] obtain t where
    t: "fmimcl_generate_marshal_table E ?m = Some (?m\<lparr>fm_data := (fm_data ?m)\<lparr>fd_mg_table := t\<rparr>\<rparr>)"
      "tiles t 0 (fm_signals ?m)" "distinct_adj (map mg_key t)" by blast
  have "sorted (map (group_rank E) (fm_signals ?m))" by (simp add: parse_signals [OF assms(1)])
  from strict_from_adjacent [OF tiles_sorted [OF t(2) this] distinct_adj_rank [OF assms(2) t(3)]]
  have "distinct (map mg_key t)" by (rule distinct_rank [OF assms(2)])
  with t(1) show ?thesis by simp
qed

subsection \<open>What the encoders are loaded for\<close>

definition ascii85_flags :: "fmu_signal list \<Rightarrow> marshal_group \<Rightarrow> nat \<Rightarrow> bool list" where
  "ascii85_flags signals mg n = map (\<lambda>i. fs_encoding (signals ! (mg_offset mg + i)) = Some ''ascii85'') [0..<n]"

lemma load_loop:
  assumes "mg_encode mg = Some (replicate (mg_count mg) False)" "mg_decode mg = Some (replicate (mg_count mg) False)"
    "mg_offset mg + mg_count mg \<le> length signals"
  shows "n \<le> mg_count mg \<Longrightarrow> foldM (load_one signals) mg [0..<n] =
    Some (mg\<lparr>mg_encode := Some (ascii85_flags signals mg n @ replicate (mg_count mg - n) False),
             mg_decode := Some (ascii85_flags signals mg n @ replicate (mg_count mg - n) False)\<rparr>)"
proof (induction n)
  case 0
  then show ?case using assms(1,2) by (simp add: ascii85_flags_def)
next
  case (Suc n)
  let ?e = "ascii85_flags signals mg n @ replicate (mg_count mg - n) False"
  let ?g = "mg\<lparr>mg_encode := Some ?e, mg_decode := Some ?e\<rparr>"
  let ?b = "fs_encoding (signals ! (mg_offset mg + n)) = Some ''ascii85''"
  have l: "length (ascii85_flags signals mg n) = n" by (simp add: ascii85_flags_def)
  have r: "replicate (mg_count mg - n) False = False # replicate (mg_count mg - Suc n) False"
    using Suc.prems by (simp add: Suc_diff_Suc flip: replicate_Suc)
  have f: "ascii85_flags signals mg (Suc n) = ascii85_flags signals mg n @ [?b]" by (simp add: ascii85_flags_def)
  have u: "?e[n := True] = ascii85_flags signals mg n @ True # replicate (mg_count mg - Suc n) False"
    by (simp add: r l list_update_append)
  have i: "mg_offset mg + n < length signals" "n < length ?e" using Suc.prems assms(3) l by simp_all
  have "load_one signals ?g n = Some (if ?b then ?g\<lparr>mg_encode := Some (?e[n := True]), mg_decode := Some (?e[n := True])\<rparr> else ?g)"
    using i by (auto simp: load_one_def split: option.split)
  moreover have "(if ?b then ?g\<lparr>mg_encode := Some (?e[n := True]), mg_decode := Some (?e[n := True])\<rparr> else ?g) =
      mg\<lparr>mg_encode := Some (ascii85_flags signals mg (Suc n) @ replicate (mg_count mg - Suc n) False),
         mg_decode := Some (ascii85_flags signals mg (Suc n) @ replicate (mg_count mg - Suc n) False)\<rparr>"
    by (cases ?b) (simp_all add: f r l list_update_append)
  ultimately show ?case using Suc by (simp add: foldM_append)
qed

definition encoded_group :: "fmu_signal list \<Rightarrow> marshal_group \<Rightarrow> marshal_group" where
  "encoded_group signals mg = (if mg_kind mg = KindBinary
     then mg\<lparr>mg_encode := Some (ascii85_flags signals mg (mg_count mg)), mg_decode := Some (ascii85_flags signals mg (mg_count mg))\<rparr>
     else mg)"

lemma load_group_run:
  assumes "describes mg off ss" "off + length ss \<le> length signals"
  shows "load_group_encoders signals mg = Some (encoded_group signals mg)"
proof (cases "mg_kind mg = KindBinary")
  case True
  with assms have "mg_encode mg = Some (replicate (mg_count mg) False)" "mg_decode mg = Some (replicate (mg_count mg) False)"
    "mg_offset mg + mg_count mg \<le> length signals" by (simp_all add: describes_def)
  from load_loop [OF this, of "mg_count mg"] this(1,2) True show ?thesis
    by (simp add: load_group_encoders_def encoded_group_def)
qed (simp add: load_group_encoders_def encoded_group_def)

lemma load_table_run:
  "tiles mgs off ss \<Longrightarrow> off + length ss \<le> length signals \<Longrightarrow>
     foldM (\<lambda>acc mg. do { mg1 \<leftarrow> load_group_encoders signals mg; Some (acc @ [mg1]) }) acc mgs =
       Some (acc @ map (encoded_group signals) mgs)"
proof (induction mgs arbitrary: off ss acc)
  case (Cons mg mgs)
  then have "load_group_encoders signals mg = Some (encoded_group signals mg)"
    by (intro load_group_run [of mg off "take (mg_count mg) ss"]) simp_all
  with Cons.IH [of "off + mg_count mg" "drop (mg_count mg) ss"] Cons.prems show ?case by simp
qed simp

text \<open>
  C23: Loading the encoders after the table was built gives the ascii85 functions to exactly the
  signals of binary groups whose annotation asks for them and changes nothing else; no access
  leaves the signals or the function arrays.
\<close>

theorem encoders_loaded:
  assumes "sizes_fit E (fm_signals m)" "fmimcl_generate_marshal_table E m = Some m1"
  shows "fmimcl_load_encoder_funcs m1 =
    Some (m1\<lparr>fm_data := (fm_data m1)\<lparr>fd_mg_table := map (encoded_group (fm_signals m)) (fd_mg_table (fm_data m1))\<rparr>\<rparr>)"
proof -
  from generate_run [OF assms(1)] assms(2) obtain t where
    t: "m1 = m\<lparr>fm_data := (fm_data m)\<lparr>fd_mg_table := t\<rparr>\<rparr>" "tiles t 0 (fm_signals m)" by auto
  from load_table_run [OF t(2), of "fm_signals m" "[]"] show ?thesis
    by (simp add: fmimcl_load_encoder_funcs_def t(1))
qed

subsection \<open>A parsed model\<close>

definition demo_model :: "(nat, nat) fmu_model" where
  "demo_model = zero_model\<lparr>fm_signals := sort_by_marshal_group ref_enums demo_signals\<rparr>"

lemma demo_model_signals:
  "fm_signals demo_model = [demo_signal ''b'' 2 KindPrimitive DirRxOnly TypeDouble None,
     demo_signal ''a'' 1 KindPrimitive DirTxOnly TypeDouble None, demo_signal ''c'' 3 KindPrimitive DirTxOnly TypeDouble None,
     demo_signal ''s'' 9 KindBinary DirTxRx TypeString (Some ''ascii85'')]"
  by (simp add: demo_model_def sort_by_marshal_group_def ref_enums_def demo_signals_def demo_signal_def dir_order_def upt_rec)

lemma demo_fit: "sizes_fit ref_enums (fm_signals demo_model)"
  by (simp add: demo_model_signals sizes_fit_def demo_signal_def ref_enums_def)

theorem marshal_table_covers_witness:
  "\<exists>t j. fmimcl_generate_marshal_table ref_enums demo_model = Some (demo_model\<lparr>fm_data := (fm_data demo_model)\<lparr>fd_mg_table := t\<rparr>\<rparr>) \<and>
     j < length t \<and> in_block (t ! j) 3 \<and> mg_key (t ! j) = (KindBinary, DirTxRx, TypeString)"
proof -
  from marshal_table_covers [OF demo_fit] obtain t where
    t: "fmimcl_generate_marshal_table ref_enums demo_model = Some (demo_model\<lparr>fm_data := (fm_data demo_model)\<lparr>fd_mg_table := t\<rparr>\<rparr>)"
      "\<And>i. i < length (fm_signals demo_model) \<Longrightarrow> \<exists>j < length t. in_block (t ! j) i \<and> mg_key (t ! j) = group_key (fm_signals demo_model ! i)"
    by blast
  have "3 < length (fm_signals demo_model)" "group_key (fm_signals demo_model ! 3) = (KindBinary, DirTxRx, TypeString)"
    by (simp_all add: demo_model_signals group_key_def demo_signal_def)
  with t show ?thesis by metis
qed

lemma ref_enums_inj: "enums_inj ref_enums"
proof -
  have "inj ref_kind_no"
  proof (rule injI)
    fix x y assume "ref_kind_no x = ref_kind_no y"
    then show "x = y" by (cases x; cases y) simp_all
  qed
  moreover have "inj ref_type_no"
  proof (rule injI)
    fix x y assume "ref_type_no x = ref_type_no y"
    then show "x = y" by (cases x; cases y) simp_all
  qed
  ultimately show ?thesis by (simp add: enums_inj_def ref_enums_def)
qed

text \<open>
  Documents for the witnesses: the model (node 0), a signal group of each channel (nodes 1 and
  2) and their signals (nodes 10 to 13).
\<close>

definition demo_yaml :: "nat yaml" where
  "demo_yaml = \<lparr>
     y_find = \<lambda>n path. (if path = ''signal'' \<and> 10 \<le> n then Some n else None),
     y_scalar = \<lambda>n. (if 10 \<le> n then Some [digit_char (n - 10)] else None),
     y_string = \<lambda>n path. (case n of None \<Rightarrow> None | Some n \<Rightarrow>
        if path = ''annotations/fmi_variable_type'' then (if n = 12 then Some ''String'' else Some ''Real'')
        else if path = ''annotations/fmi_variable_causality'' then (if n = 11 then Some ''output'' else Some ''input'')
        else if path = ''annotations/fmi_annotations/dse.standards.fmi-ls-binary-to-text.encoding'' \<and> n = 12 then Some ''ascii85''
        else if path = ''metadata/annotations/mcl_adapter'' then Some ''fmi''
        else if path = ''metadata/annotations/mcl_version'' then Some ''2.0.3''
        else None),
     y_uint = \<lambda>n path. Some (word_of_nat n), y_bool = \<lambda>_ _. Some True, y_double = \<lambda>_ _. None,
     y_find_in_seq = \<lambda>_ _ _. None,
     schema_search = \<lambda>s. (if sel_kind s = ''Model'' then Some 0
        else if (''channel'', Some ''signal_vector'') \<in> set (sel_labels s) then Some 1
        else if (''channel'', Some ''network_vector'') \<in> set (sel_labels s) then Some 2 else None),
     schema_nodes = \<lambda>d path. (if d = 1 then [10, 11, 13] else [12])\<rparr>"

lemma demo_yaml_signals:
  "map (\<lambda>s. (fs_name s, fs_vref s, group_key s)) (fm_signals (fmimcl_parse ref_enums demo_yaml os arch m)) =
     [(''1'', 11, KindPrimitive, DirRxOnly, TypeDouble), (''0'', 10, KindPrimitive, DirTxOnly, TypeDouble),
      (''3'', 13, KindPrimitive, DirTxOnly, TypeDouble), (''2'', 12, KindBinary, DirTxOnly, TypeString)]"
  by (simp add: fmimcl_parse_def Let_def search_group_def demo_yaml_def variable_match_handler_def fmu_signal_generator_def
      get_str_def decode_var_kind_def decode_var_dir_def decode_var_type_def sort_by_marshal_group_def ref_enums_def
      dir_order_def upt_rec group_key_def digit_char_def char_of_def bit_iff_odd)

lemma demo_yaml_fit: "sizes_fit ref_enums (fm_signals (fmimcl_parse ref_enums demo_yaml os arch m))"
proof -
  let ?s = "fm_signals (fmimcl_parse ref_enums demo_yaml os arch m)"
  have "set (map (\<lambda>s. (fs_name s, fs_vref s, group_key s)) ?s) \<subseteq> {x. snd (snd (snd (snd x))) \<noteq> TypeNone}"
    unfolding demo_yaml_signals by simp
  then have "\<forall>s \<in> set ?s. fs_type s \<noteq> TypeNone" by (auto simp: group_key_def)
  moreover have "t \<noteq> TypeNone \<Longrightarrow> 4 \<le> ref_type_bytes t" for t by (cases t) simp_all
  ultimately show ?thesis by (simp add: sizes_fit_def ref_enums_def)
qed

theorem parsed_groups_distinct_witness:
  "\<exists>m1. fmimcl_generate_marshal_table ref_enums (fmimcl_parse ref_enums demo_yaml ''linux'' ''amd64'' demo_model) = Some m1 \<and>
     distinct (map mg_key (fd_mg_table (fm_data m1)))"
  by (rule parsed_groups_distinct [OF ref_enums_ok ref_enums_inj demo_yaml_fit])

theorem encoders_loaded_witness:
  "\<exists>m1. fmimcl_generate_marshal_table ref_enums demo_model = Some m1 \<and>
     fmimcl_load_encoder_funcs m1 =
       Some (m1\<lparr>fm_data := (fm_data m1)\<lparr>fd_mg_table := map (encoded_group (fm_signals demo_model)) (fd_mg_table (fm_data m1))\<rparr>\<rparr>)"
proof -
  from generate_run [OF demo_fit] obtain m1 where "fmimcl_generate_marshal_table ref_enums demo_model = Some m1" by blast
  with encoders_loaded [OF demo_fit this] show ?thesis by blast
qed

end
