(* ===== verification/MclAdapter.thy ===== *)
theory MclAdapter
  imports MclEngine
begin

section \<open>The FMI MCL: the FMI 2 adapter (dse/fmimcl/adapter/fmi2mcl.c)\<close>

text \<open>
  The adapter drives an FMU through the functions it finds in the FMU's shared library. The
  library is a parameter: a table of functions on an instance of type \<open>'i\<close> (\<open>None\<close> when the FMU
  faults) and the names \<open>dlsym\<close> finds. A call through an entry that was not found is a call of
  a null pointer (\<open>None\<close>). Status codes are ints; the adapter takes every positive one as a
  failure. The copies between storage and groups (\<open>marshal_group_out\<close>, \<open>marshal_group_in\<close> of
  dse.clib) are parameters, and so is the subtraction of doubles.
\<close>

definition EINVAL_RC :: int where "EINVAL_RC = 22"

definition EBADMSG :: int where "EBADMSG = 74"

text \<open>
  \<open>Fmi2VTable\<close>, without the entries the adapter loads and never calls
  (\<open>fmi2SetupExperiment\<close>, \<open>fmi2Terminate\<close>), of which only the names remain.
\<close>

record 'i fmi2_vtable =
  v_instantiate :: "string option \<Rightarrow> bool \<Rightarrow> string option \<Rightarrow> string option \<Rightarrow> 'i option"
  v_enter_initialization :: "'i \<Rightarrow> (int \<times> 'i) option"
  v_exit_initialization :: "'i \<Rightarrow> (int \<times> 'i) option"
  v_get_real :: "'i \<Rightarrow> u32 list \<Rightarrow> f64 list \<Rightarrow> (int \<times> 'i \<times> f64 list) option"
  v_get_integer :: "'i \<Rightarrow> u32 list \<Rightarrow> u32 list \<Rightarrow> (int \<times> 'i \<times> u32 list) option"
  v_get_boolean :: "'i \<Rightarrow> u32 list \<Rightarrow> u32 list \<Rightarrow> (int \<times> 'i \<times> u32 list) option"
  v_get_string :: "'i \<Rightarrow> u32 list \<Rightarrow> bytes option list \<Rightarrow> (int \<times> 'i \<times> bytes option list) option"
  v_set_real :: "'i \<Rightarrow> u32 list \<Rightarrow> f64 list \<Rightarrow> (int \<times> 'i) option"
  v_set_integer :: "'i \<Rightarrow> u32 list \<Rightarrow> u32 list \<Rightarrow> (int \<times> 'i) option"
  v_set_boolean :: "'i \<Rightarrow> u32 list \<Rightarrow> u32 list \<Rightarrow> (int \<times> 'i) option"
  v_set_string :: "'i \<Rightarrow> u32 list \<Rightarrow> bytes option list \<Rightarrow> (int \<times> 'i) option"
  v_do_step :: "'i \<Rightarrow> f64 \<Rightarrow> f64 \<Rightarrow> (int \<times> 'i) option"
  v_free_instance :: "'i \<Rightarrow> unit option"

text \<open>\<open>Fmi2Adapter\<close>: the entries that are set, and the library behind them.\<close>

record 'i adapter =
  ad_inst :: "'i option"
  ad_names :: "string list"
  ad_lib :: "'i fmi2_vtable option"
  ad_callbacks :: bool

record 'i shared_lib =
  so_has :: "string \<Rightarrow> bool"
  so_functions :: "'i fmi2_vtable"

definition fmi2_func_names :: "string list" where
  "fmi2_func_names = [''fmi2Instantiate'', ''fmi2SetupExperiment'', ''fmi2EnterInitializationMode'',
     ''fmi2ExitInitializationMode'', ''fmi2GetReal'', ''fmi2GetInteger'', ''fmi2GetBoolean'', ''fmi2GetString'',
     ''fmi2SetReal'', ''fmi2SetInteger'', ''fmi2SetBoolean'', ''fmi2SetString'', ''fmi2DoStep'', ''fmi2Terminate'',
     ''fmi2FreeInstance'']"

subsection \<open>Loading\<close>

text \<open>A name that is not found leaves its entry null and yields \<open>EINVAL\<close>.\<close>

definition get_func :: "'i shared_lib \<Rightarrow> string \<Rightarrow> 'i adapter \<Rightarrow> int \<times> 'i adapter" where
  "get_func so name a = (if so_has so name then (0, a\<lparr>ad_names := ad_names a @ [name]\<rparr>) else (EINVAL_RC, a))"

text \<open>The return code is 0 as soon as the library opens: missing functions are only logged.\<close>

definition fmi2mcl_load ::
  "(string option \<Rightarrow> 'i shared_lib option) \<Rightarrow> ('y, 'i adapter) fmu_model \<Rightarrow> (int \<times> ('y, 'i adapter) fmu_model) option" where
  "fmi2mcl_load dlopen m = (case dlopen (fm_path m) of None \<Rightarrow> Some (-1, m) | Some so \<Rightarrow> do {
     a \<leftarrow> fm_adapter m;
     let a0 = a\<lparr>ad_names := [], ad_lib := Some (so_functions so)\<rparr>;
     let a1 = foldl (\<lambda>a name. snd (get_func so name a)) a0 fmi2_func_names;
     Some (0, m\<lparr>fm_adapter := Some (a1\<lparr>ad_callbacks := True\<rparr>)\<rparr>) })"

definition entry :: "'i adapter \<Rightarrow> string \<Rightarrow> ('i fmi2_vtable \<Rightarrow> 'f) \<Rightarrow> 'f option" where
  "entry a name sel = do { v \<leftarrow> ad_lib a; if name \<in> set (ad_names a) then Some (sel v) else None }"

subsection \<open>Initialisation, step and release\<close>

definition fmi2mcl_init :: "('y, 'i adapter) fmu_model \<Rightarrow> (int \<times> ('y, 'i adapter) fmu_model) option" where
  "fmi2mcl_init m = do {
     a \<leftarrow> fm_adapter m;
     inst \<leftarrow> entry a ''fmi2Instantiate'' v_instantiate;
     case inst (fm_name m) (fm_cosim m) (fm_guid m) (fm_resource_dir m) of
       None \<Rightarrow> Some (EINVAL_RC, m\<lparr>fm_adapter := Some (a\<lparr>ad_inst := None\<rparr>)\<rparr>)
     | Some i \<Rightarrow> do {
         enter \<leftarrow> entry a ''fmi2EnterInitializationMode'' v_enter_initialization;
         (rc, i1) \<leftarrow> enter i;
         let m1 = m\<lparr>fm_adapter := Some (a\<lparr>ad_inst := Some i1\<rparr>)\<rparr>;
         if 0 < rc then Some (rc, m1)
         else do {
           leave \<leftarrow> entry a ''fmi2ExitInitializationMode'' v_exit_initialization;
           (rc2, i2) \<leftarrow> leave i1;
           let m2 = m\<lparr>fm_adapter := Some (a\<lparr>ad_inst := Some i2\<rparr>)\<rparr>;
           if 0 < rc2 then Some (rc2, m2) else Some (0, m2) } } }"

text \<open>The model time advances only when the FMU accepted the step.\<close>

definition fmi2mcl_step ::
  "(f64 \<Rightarrow> f64 \<Rightarrow> f64) \<Rightarrow> ('y, 'i adapter) fmu_model \<Rightarrow> f64 \<Rightarrow> f64 \<Rightarrow> (int \<times> ('y, 'i adapter) fmu_model \<times> f64) option" where
  "fmi2mcl_step sub m model_time end_time = do {
     a \<leftarrow> fm_adapter m;
     i \<leftarrow> ad_inst a;
     step \<leftarrow> entry a ''fmi2DoStep'' v_do_step;
     (rc, i1) \<leftarrow> step i model_time (sub end_time model_time);
     let m1 = m\<lparr>fm_adapter := Some (a\<lparr>ad_inst := Some i1\<rparr>)\<rparr>;
     if 0 < rc then Some (EBADMSG, m1, model_time) else Some (0, m1, end_time) }"

definition fmi2mcl_unload :: "('y, 'i adapter) fmu_model \<Rightarrow> (int \<times> ('y, 'i adapter) fmu_model) option" where
  "fmi2mcl_unload m = do {
     a \<leftarrow> fm_adapter m;
     free \<leftarrow> entry a ''fmi2FreeInstance'' v_free_instance;
     i \<leftarrow> ad_inst a;
     _ \<leftarrow> free i;
     Some (0, m\<lparr>fm_adapter := None\<rparr>) }"

definition fmi2mcl_create :: "('y, 'i adapter) fmu_model \<Rightarrow> ('y, 'i adapter) fmu_model" where
  "fmi2mcl_create m = m\<lparr>mc_vtable := True, fm_adapter := Some \<lparr>ad_inst = None, ad_names = [], ad_lib = None, ad_callbacks = False\<rparr>\<rparr>"

subsection \<open>Marshalling\<close>

record marshal_lib =
  ml_out :: "fmu_data \<Rightarrow> fmu_data"
  ml_in :: "fmu_data \<Rightarrow> fmu_data"

definition reads_group :: "marshal_group \<Rightarrow> bool" where
  "reads_group mg \<longleftrightarrow> mg_dir mg = DirTxRx \<or> mg_dir mg = DirRxOnly \<or> mg_dir mg = DirLocal"

definition writes_group :: "marshal_group \<Rightarrow> bool" where
  "writes_group mg \<longleftrightarrow> mg_dir mg = DirTxRx \<or> mg_dir mg = DirTxOnly \<or> mg_dir mg = DirParameter"

text \<open>The switch on the group's type, reading from the FMU into the target.\<close>

definition get_group :: "'i adapter \<Rightarrow> 'i \<Rightarrow> marshal_group \<Rightarrow> (int \<times> 'i \<times> marshal_group) option" where
  "get_group a i mg = (case mg_type mg of
     TypeDouble \<Rightarrow> (case mg_target mg of TargetDouble xs \<Rightarrow> do {
         get \<leftarrow> entry a ''fmi2GetReal'' v_get_real;
         (rc, i1, ys) \<leftarrow> get i (mg_ref mg) xs; Some (rc, i1, mg\<lparr>mg_target := TargetDouble ys\<rparr>) } | _ \<Rightarrow> None)
   | TypeInt32 \<Rightarrow> (case mg_target mg of TargetInt32 xs \<Rightarrow> do {
         get \<leftarrow> entry a ''fmi2GetInteger'' v_get_integer;
         (rc, i1, ys) \<leftarrow> get i (mg_ref mg) xs; Some (rc, i1, mg\<lparr>mg_target := TargetInt32 ys\<rparr>) } | _ \<Rightarrow> None)
   | TypeBool \<Rightarrow> (case mg_target mg of TargetInt32 xs \<Rightarrow> do {
         get \<leftarrow> entry a ''fmi2GetBoolean'' v_get_boolean;
         (rc, i1, ys) \<leftarrow> get i (mg_ref mg) xs; Some (rc, i1, mg\<lparr>mg_target := TargetInt32 ys\<rparr>) } | _ \<Rightarrow> None)
   | TypeString \<Rightarrow> (case mg_target mg of TargetString xs \<Rightarrow> do {
         get \<leftarrow> entry a ''fmi2GetString'' v_get_string;
         (rc, i1, ys) \<leftarrow> get i (mg_ref mg) xs; Some (rc, i1, mg\<lparr>mg_target := TargetString ys\<rparr>) } | _ \<Rightarrow> None)
   | TypeNone \<Rightarrow> Some (0, i, mg))"

fun in_groups :: "'i adapter \<Rightarrow> 'i \<Rightarrow> marshal_group list \<Rightarrow> (int \<times> 'i \<times> marshal_group list) option" where
  "in_groups a i [] = Some (0, i, [])"
| "in_groups a i (mg # mgs) =
     (if \<not> reads_group mg then do { (rc, i1, t) \<leftarrow> in_groups a i mgs; Some (rc, i1, mg # t) }
      else do {
        (rc, i1, mg1) \<leftarrow> get_group a i mg;
        if 0 < rc then Some (EBADMSG, i1, mg1 # mgs)
        else do { (rc2, i2, t) \<leftarrow> in_groups a i1 mgs; Some (rc2, i2, mg1 # t) } })"

definition put_back :: "('y, 'i adapter) fmu_model \<Rightarrow> 'i adapter \<Rightarrow> 'i \<Rightarrow> marshal_group list \<Rightarrow> ('y, 'i adapter) fmu_model" where
  "put_back m a i t = m\<lparr>fm_adapter := Some (a\<lparr>ad_inst := Some i\<rparr>), fm_data := (fm_data m)\<lparr>fd_mg_table := t\<rparr>\<rparr>"

definition fmi2mcl_marshal_in :: "marshal_lib \<Rightarrow> ('y, 'i adapter) fmu_model \<Rightarrow> (int \<times> ('y, 'i adapter) fmu_model) option" where
  "fmi2mcl_marshal_in M m = do {
     a \<leftarrow> fm_adapter m;
     i \<leftarrow> ad_inst a;
     (rc, i1, t) \<leftarrow> in_groups a i (fd_mg_table (fm_data m));
     let m1 = put_back m a i1 t;
     if rc \<noteq> 0 then Some (rc, m1) else Some (0, m1\<lparr>fm_data := ml_in M (fm_data m1)\<rparr>) }"

definition set_group :: "'i adapter \<Rightarrow> 'i \<Rightarrow> marshal_group \<Rightarrow> (int \<times> 'i) option" where
  "set_group a i mg = (case mg_type mg of
     TypeDouble \<Rightarrow> (case mg_target mg of TargetDouble xs \<Rightarrow> do {
         put \<leftarrow> entry a ''fmi2SetReal'' v_set_real; put i (mg_ref mg) xs } | _ \<Rightarrow> None)
   | TypeInt32 \<Rightarrow> (case mg_target mg of TargetInt32 xs \<Rightarrow> do {
         put \<leftarrow> entry a ''fmi2SetInteger'' v_set_integer; put i (mg_ref mg) xs } | _ \<Rightarrow> None)
   | TypeBool \<Rightarrow> (case mg_target mg of TargetInt32 xs \<Rightarrow> do {
         put \<leftarrow> entry a ''fmi2SetBoolean'' v_set_boolean; put i (mg_ref mg) xs } | _ \<Rightarrow> None)
   | TypeString \<Rightarrow> (case mg_target mg of TargetString xs \<Rightarrow> do {
         put \<leftarrow> entry a ''fmi2SetString'' v_set_string; put i (mg_ref mg) xs } | _ \<Rightarrow> None)
   | TypeNone \<Rightarrow> Some (0, i))"

fun out_groups :: "'i adapter \<Rightarrow> 'i \<Rightarrow> marshal_group list \<Rightarrow> (int \<times> 'i) option" where
  "out_groups a i [] = Some (0, i)"
| "out_groups a i (mg # mgs) =
     (if \<not> writes_group mg then out_groups a i mgs
      else do {
        (rc, i1) \<leftarrow> set_group a i mg;
        if 0 < rc then Some (EBADMSG, i1) else out_groups a i1 mgs })"

definition fmi2mcl_marshal_out :: "marshal_lib \<Rightarrow> ('y, 'i adapter) fmu_model \<Rightarrow> (int \<times> ('y, 'i adapter) fmu_model) option" where
  "fmi2mcl_marshal_out M m = do {
     a \<leftarrow> fm_adapter m;
     i \<leftarrow> ad_inst a;
     let d = ml_out M (fm_data m);
     (rc, i1) \<leftarrow> out_groups a i (fd_mg_table d);
     Some (rc, m\<lparr>fm_adapter := Some (a\<lparr>ad_inst := Some i1\<rparr>), fm_data := d\<rparr>) }"

subsection \<open>What loading leaves\<close>

lemma get_func_names: "ad_names (foldl (\<lambda>a name. snd (get_func so name a)) a names) = ad_names a @ filter (so_has so) names"
  by (induction names arbitrary: a) (simp_all add: get_func_def)

lemma get_func_lib: "ad_lib (foldl (\<lambda>a name. snd (get_func so name a)) a names) = ad_lib a"
  by (induction names arbitrary: a) (simp_all add: get_func_def)

lemma get_func_inst: "ad_inst (foldl (\<lambda>a name. snd (get_func so name a)) a names) = ad_inst a"
  by (induction names arbitrary: a) (simp_all add: get_func_def)

lemma load_run:
  assumes "dlopen (fm_path m) = Some so" "fm_adapter m = Some a"
  shows "\<exists>a1. fmi2mcl_load dlopen m = Some (0, m\<lparr>fm_adapter := Some a1\<rparr>) \<and> ad_lib a1 = Some (so_functions so) \<and>
    ad_names a1 = filter (so_has so) fmi2_func_names \<and> ad_inst a1 = ad_inst a \<and> ad_callbacks a1"
proof -
  let ?a = "foldl (\<lambda>a name. snd (get_func so name a)) (a\<lparr>ad_names := [], ad_lib := Some (so_functions so)\<rparr>) fmi2_func_names"
  show ?thesis
    by (intro exI [of _ "?a\<lparr>ad_callbacks := True\<rparr>"])
      (simp add: fmi2mcl_load_def assms get_func_names get_func_lib get_func_inst)
qed

text \<open>
  \<open>fmi2mcl_load\<close> reports success for every library that opens, also for one without the
  functions of FMI 2, and the initialisation that follows then calls a null pointer when
  \<open>fmi2Instantiate\<close> is missing.
\<close>

theorem load_hides_missing_functions:
  assumes "dlopen (fm_path m) = Some so" "fm_adapter m = Some a" "\<not> so_has so ''fmi2Instantiate''"
  shows "\<exists>m1. fmi2mcl_load dlopen m = Some (0, m1) \<and> fmi2mcl_init m1 = None"
proof -
  from load_run [of dlopen m so a, OF assms(1,2)] obtain a1 where
    a1: "fmi2mcl_load dlopen m = Some (0, m\<lparr>fm_adapter := Some a1\<rparr>)" "ad_names a1 = filter (so_has so) fmi2_func_names" by blast
  then have "entry a1 ''fmi2Instantiate'' v_instantiate = None"
    using assms(3) by (simp add: entry_def bind_eq_None_conv)
  with a1(1) show ?thesis by (simp add: fmi2mcl_init_def)
qed

text \<open>A library without any FMI function.\<close>

definition no_fmi_lib :: "nat shared_lib" where
  "no_fmi_lib = \<lparr>so_has = (\<lambda>_. False), so_functions = \<lparr>v_instantiate = (\<lambda>_ _ _ _. None),
     v_enter_initialization = (\<lambda>_. None), v_exit_initialization = (\<lambda>_. None),
     v_get_real = (\<lambda>_ _ _. None), v_get_integer = (\<lambda>_ _ _. None), v_get_boolean = (\<lambda>_ _ _. None),
     v_get_string = (\<lambda>_ _ _. None), v_set_real = (\<lambda>_ _ _. None), v_set_integer = (\<lambda>_ _ _. None),
     v_set_boolean = (\<lambda>_ _ _. None), v_set_string = (\<lambda>_ _ _. None), v_do_step = (\<lambda>_ _ _. None),
     v_free_instance = (\<lambda>_. None)\<rparr>\<rparr>"

theorem load_hides_missing_functions_witness:
  "\<exists>m1. fmi2mcl_load (\<lambda>_. Some no_fmi_lib) (fmi2mcl_create (zero_model :: (nat, nat adapter) fmu_model)) = Some (0, m1) \<and>
     fmi2mcl_init m1 = None"
  by (rule load_hides_missing_functions [of "\<lambda>_. Some no_fmi_lib" _ no_fmi_lib "\<lparr>ad_inst = None, ad_names = [], ad_lib = None, ad_callbacks = False\<rparr>"])
    (simp_all add: fmi2mcl_create_def no_fmi_lib_def)

subsection \<open>An FMU behind the adapter\<close>

text \<open>
  What the adapter relies on: on a valid instance, the functions it marshals with accept arrays
  as long as the references when the FMU has variables of that type for them, keep the instance
  valid and the arrays' length, and report no failure.
\<close>

locale fmi2_component =
  fixes V :: "'i fmi2_vtable" and inv :: "'i \<Rightarrow> bool" and reals ints bools :: "u32 set"
  assumes get_real: "inv i \<Longrightarrow> set vr \<subseteq> reals \<Longrightarrow> length xs = length vr \<Longrightarrow> \<exists>i1 ys. v_get_real V i vr xs = Some (0, i1, ys) \<and> inv i1 \<and> length ys = length vr"
    and get_integer: "inv i \<Longrightarrow> set vr \<subseteq> ints \<Longrightarrow> length ns = length vr \<Longrightarrow> \<exists>i1 ms. v_get_integer V i vr ns = Some (0, i1, ms) \<and> inv i1 \<and> length ms = length vr"
    and get_boolean: "inv i \<Longrightarrow> set vr \<subseteq> bools \<Longrightarrow> length ns = length vr \<Longrightarrow> \<exists>i1 ms. v_get_boolean V i vr ns = Some (0, i1, ms) \<and> inv i1 \<and> length ms = length vr"
    and set_real: "inv i \<Longrightarrow> set vr \<subseteq> reals \<Longrightarrow> length xs = length vr \<Longrightarrow> \<exists>i1. v_set_real V i vr xs = Some (0, i1) \<and> inv i1"
    and set_integer: "inv i \<Longrightarrow> set vr \<subseteq> ints \<Longrightarrow> length ns = length vr \<Longrightarrow> \<exists>i1. v_set_integer V i vr ns = Some (0, i1) \<and> inv i1"
    and set_boolean: "inv i \<Longrightarrow> set vr \<subseteq> bools \<Longrightarrow> length ns = length vr \<Longrightarrow> \<exists>i1. v_set_boolean V i vr ns = Some (0, i1) \<and> inv i1"

text \<open>The references of a group are variables of its type.\<close>

definition refs_of :: "u32 set \<Rightarrow> u32 set \<Rightarrow> u32 set \<Rightarrow> marshal_group \<Rightarrow> bool" where
  "refs_of reals ints bools mg \<longleftrightarrow> set (mg_ref mg) \<subseteq>
     (case mg_type mg of TypeDouble \<Rightarrow> reals | TypeInt32 \<Rightarrow> ints | TypeBool \<Rightarrow> bools | _ \<Rightarrow> UNIV)"

text \<open>An adapter with all functions of such an FMU, and groups of scalars with their targets.\<close>

definition ready :: "'i fmi2_vtable \<Rightarrow> 'i adapter \<Rightarrow> bool" where
  "ready V a \<longleftrightarrow> ad_lib a = Some V \<and> set fmi2_func_names \<subseteq> set (ad_names a)"

fun scalar_target :: "marshal_type \<Rightarrow> nat \<Rightarrow> target \<Rightarrow> bool" where
  "scalar_target TypeDouble n (TargetDouble xs) \<longleftrightarrow> length xs = n"
| "scalar_target TypeInt32 n (TargetInt32 xs) \<longleftrightarrow> length xs = n"
| "scalar_target TypeBool n (TargetInt32 xs) \<longleftrightarrow> length xs = n"
| "scalar_target _ n _ \<longleftrightarrow> False"

definition scalar_group :: "marshal_group \<Rightarrow> bool" where
  "scalar_group mg \<longleftrightarrow> scalar_target (mg_type mg) (length (mg_ref mg)) (mg_target mg)"

lemma ready_entry: "ready V a \<Longrightarrow> name \<in> set fmi2_func_names \<Longrightarrow> entry a name sel = Some (sel V)"
  by (auto simp: ready_def entry_def)

context fmi2_component begin

lemma get_group_run:
  assumes "ready V a" "inv i" "scalar_group mg" "refs_of reals ints bools mg"
  shows "\<exists>i1 t. get_group a i mg = Some (0, i1, mg\<lparr>mg_target := t\<rparr>) \<and> inv i1 \<and> scalar_group (mg\<lparr>mg_target := t\<rparr>)"
proof (cases "mg_type mg")
  case TypeDouble
  with assms(3) obtain xs where x: "mg_target mg = TargetDouble xs" "length xs = length (mg_ref mg)"
    by (cases "mg_target mg") (simp_all add: scalar_group_def)
  from get_real [OF assms(2) _ x(2)] TypeDouble assms(4) obtain i1 ys where "v_get_real V i (mg_ref mg) xs = Some (0, i1, ys)" "inv i1" "length ys = length (mg_ref mg)" by (auto simp: refs_of_def)
  then show ?thesis using ready_entry [OF assms(1), of "''fmi2GetReal''" v_get_real] x(1) TypeDouble
    by (intro exI [of _ i1] exI [of _ "TargetDouble ys"]) (simp add: get_group_def fmi2_func_names_def scalar_group_def)
next
  case TypeInt32
  with assms(3) obtain xs where x: "mg_target mg = TargetInt32 xs" "length xs = length (mg_ref mg)"
    by (cases "mg_target mg") (simp_all add: scalar_group_def)
  from get_integer [OF assms(2) _ x(2)] TypeInt32 assms(4) obtain i1 ys where "v_get_integer V i (mg_ref mg) xs = Some (0, i1, ys)" "inv i1" "length ys = length (mg_ref mg)" by (auto simp: refs_of_def)
  then show ?thesis using ready_entry [OF assms(1), of "''fmi2GetInteger''" v_get_integer] x(1) TypeInt32
    by (intro exI [of _ i1] exI [of _ "TargetInt32 ys"]) (simp add: get_group_def fmi2_func_names_def scalar_group_def)
next
  case TypeBool
  with assms(3) obtain xs where x: "mg_target mg = TargetInt32 xs" "length xs = length (mg_ref mg)"
    by (cases "mg_target mg") (simp_all add: scalar_group_def)
  from get_boolean [OF assms(2) _ x(2)] TypeBool assms(4) obtain i1 ys where "v_get_boolean V i (mg_ref mg) xs = Some (0, i1, ys)" "inv i1" "length ys = length (mg_ref mg)" by (auto simp: refs_of_def)
  then show ?thesis using ready_entry [OF assms(1), of "''fmi2GetBoolean''" v_get_boolean] x(1) TypeBool
    by (intro exI [of _ i1] exI [of _ "TargetInt32 ys"]) (simp add: get_group_def fmi2_func_names_def scalar_group_def)
qed (use assms(3) in \<open>simp_all add: scalar_group_def\<close>)

lemma in_groups_run:
  assumes "ready V a"
  shows "inv i \<Longrightarrow> \<forall>mg \<in> set mgs. scalar_group mg \<and> refs_of reals ints bools mg \<Longrightarrow>
    \<exists>i1 t. in_groups a i mgs = Some (0, i1, t) \<and> inv i1 \<and> length t = length mgs \<and>
      (\<forall>j < length mgs. \<exists>x. t ! j = (mgs ! j)\<lparr>mg_target := x\<rparr> \<and> scalar_group (t ! j))"
proof (induction mgs arbitrary: i)
  case (Cons mg mgs)
  show ?case
  proof (cases "reads_group mg")
    case True
    from get_group_run [OF assms Cons.prems(1), of mg] Cons.prems(2) obtain i1 x where
      g: "get_group a i mg = Some (0, i1, mg\<lparr>mg_target := x\<rparr>)" "inv i1" "scalar_group (mg\<lparr>mg_target := x\<rparr>)" by auto
    from Cons.IH [OF g(2)] Cons.prems(2) obtain i2 t where t: "in_groups a i1 mgs = Some (0, i2, t)" "inv i2" "length t = length mgs"
      "\<forall>j < length mgs. \<exists>x. t ! j = (mgs ! j)\<lparr>mg_target := x\<rparr> \<and> scalar_group (t ! j)" by auto
    have "\<exists>y. (mg\<lparr>mg_target := x\<rparr> # t) ! j = ((mg # mgs) ! j)\<lparr>mg_target := y\<rparr> \<and> scalar_group ((mg\<lparr>mg_target := x\<rparr> # t) ! j)"
      if "j < length (mg # mgs)" for j
      using that t(4) g(3) by (cases j) auto
    with True g(1) t show ?thesis by (intro exI [of _ i2] exI [of _ "mg\<lparr>mg_target := x\<rparr> # t"]) simp
  next
    case False
    from Cons.IH [OF Cons.prems(1)] Cons.prems(2) obtain i2 t where t: "in_groups a i mgs = Some (0, i2, t)" "inv i2" "length t = length mgs"
      "\<forall>j < length mgs. \<exists>x. t ! j = (mgs ! j)\<lparr>mg_target := x\<rparr> \<and> scalar_group (t ! j)" by auto
    have "\<exists>y. (mg # t) ! j = ((mg # mgs) ! j)\<lparr>mg_target := y\<rparr> \<and> scalar_group ((mg # t) ! j)"
      if "j < length (mg # mgs)" for j
    proof (cases j)
      case 0
      with Cons.prems(2) show ?thesis by (intro exI [of _ "mg_target mg"]) simp
    qed (use that t(4) in auto)
    with False t show ?thesis by (intro exI [of _ i2] exI [of _ "mg # t"]) simp
  qed
qed simp

lemma set_group_run:
  assumes "ready V a" "inv i" "scalar_group mg" "refs_of reals ints bools mg"
  shows "\<exists>i1. set_group a i mg = Some (0, i1) \<and> inv i1"
proof (cases "mg_type mg")
  case TypeDouble
  with assms(3) obtain xs where x: "mg_target mg = TargetDouble xs" "length xs = length (mg_ref mg)"
    by (cases "mg_target mg") (simp_all add: scalar_group_def)
  with set_real [OF assms(2) _ x(2)] assms(4) ready_entry [OF assms(1), of "''fmi2SetReal''" v_set_real] TypeDouble show ?thesis
    by (simp add: set_group_def fmi2_func_names_def refs_of_def)
next
  case TypeInt32
  with assms(3) obtain xs where x: "mg_target mg = TargetInt32 xs" "length xs = length (mg_ref mg)"
    by (cases "mg_target mg") (simp_all add: scalar_group_def)
  with set_integer [OF assms(2) _ x(2)] assms(4) ready_entry [OF assms(1), of "''fmi2SetInteger''" v_set_integer] TypeInt32 show ?thesis
    by (simp add: set_group_def fmi2_func_names_def refs_of_def)
next
  case TypeBool
  with assms(3) obtain xs where x: "mg_target mg = TargetInt32 xs" "length xs = length (mg_ref mg)"
    by (cases "mg_target mg") (simp_all add: scalar_group_def)
  with set_boolean [OF assms(2) _ x(2)] assms(4) ready_entry [OF assms(1), of "''fmi2SetBoolean''" v_set_boolean] TypeBool show ?thesis
    by (simp add: set_group_def fmi2_func_names_def refs_of_def)
qed (use assms(3) in \<open>simp_all add: scalar_group_def\<close>)

lemma out_groups_run:
  assumes "ready V a"
  shows "inv i \<Longrightarrow> \<forall>mg \<in> set mgs. scalar_group mg \<and> refs_of reals ints bools mg \<Longrightarrow> \<exists>i1. out_groups a i mgs = Some (0, i1) \<and> inv i1"
proof (induction mgs arbitrary: i)
  case (Cons mg mgs)
  from set_group_run [OF assms Cons.prems(1), of mg] Cons.prems(2) obtain i1 where
    "set_group a i mg = Some (0, i1)" "inv i1" by auto
  with Cons show ?case by (cases "writes_group mg") auto
qed simp

text \<open>Marshalling of the whole table, both ways.\<close>

lemma marshal_out_returns:
  assumes "ready V a" "fm_adapter m = Some a" "ad_inst a = Some i" "inv i"
    "\<forall>mg \<in> set (fd_mg_table (ml_out M (fm_data m))). scalar_group mg \<and> refs_of reals ints bools mg"
  shows "\<exists>i1. fmi2mcl_marshal_out M m = Some (0, m\<lparr>fm_adapter := Some (a\<lparr>ad_inst := Some i1\<rparr>), fm_data := ml_out M (fm_data m)\<rparr>) \<and> inv i1"
  using out_groups_run [OF assms(1,4,5)] assms(2,3) by (auto simp: fmi2mcl_marshal_out_def)

lemma marshal_in_returns:
  assumes "ready V a" "fm_adapter m = Some a" "ad_inst a = Some i" "inv i"
    "\<forall>mg \<in> set (fd_mg_table (fm_data m)). scalar_group mg \<and> refs_of reals ints bools mg"
  shows "\<exists>i1 m1. fmi2mcl_marshal_in M m = Some (0, m1) \<and> fm_adapter m1 = Some (a\<lparr>ad_inst := Some i1\<rparr>) \<and> inv i1"
proof -
  from in_groups_run [OF assms(1,4,5)] obtain i1 t where "in_groups a i (fd_mg_table (fm_data m)) = Some (0, i1, t)" "inv i1" by blast
  then show ?thesis using assms(2,3)
    by (intro exI [of _ i1] exI [of _ "(put_back m a i1 t)\<lparr>fm_data := ml_in M (fm_data (put_back m a i1 t))\<rparr>"])
      (simp add: fmi2mcl_marshal_in_def put_back_def Let_def)
qed

end

end
