(* ===== verification/MclFmu.thy ===== *)
theory MclFmu
  imports MclAdapter Fmi2Session
begin

section \<open>An FMU of dse/fmu behind the MCL's FMI 2 adapter\<close>

text \<open>
  The two sides of the repository put together: the functions of dse/fmu/fmi2fmu.c as the
  library that dse/fmimcl/adapter/fmi2mcl.c loads. The adapter's contract is interpreted on
  them, and marshalling is followed from the MCL's storage cells to the FMU's variables and
  back. The copies of dse.clib between cells and groups are hypotheses (\<open>out_ok\<close>, \<open>in_ok\<close>).
\<close>

text \<open>\<open>fmi2Status\<close> as the ints the adapter compares.\<close>

fun status_no :: "fmi_status \<Rightarrow> int" where
  "status_no FmiOK = 0" | "status_no FmiWarning = 1" | "status_no FmiDiscard = 2"
| "status_no FmiError = 3" | "status_no FmiFatal = 4" | "status_no FmiPending = 5"

abbreviation st_no :: "(fmi_status \<times> 'i) option \<Rightarrow> (int \<times> 'i) option" where
  "st_no \<equiv> map_option (\<lambda>(st, g). (status_no st, g))"

definition fmu_vtable ::
  "'m clib \<Rightarrow> ('m, 'd) signal_vtable \<Rightarrow> ('m, 'd) fmu_impl
    \<Rightarrow> (string option \<Rightarrow> bool \<Rightarrow> string option \<Rightarrow> string option \<Rightarrow> ('m, 'd) fmu option) \<Rightarrow> ('m, 'd) fmu fmi2_vtable" where
  "fmu_vtable L H I inst = \<lparr>
     v_instantiate = inst,
     v_enter_initialization = (\<lambda>f. st_no (fmi2_stub_call Fmi2EnterInitializationMode (Some f))),
     v_exit_initialization = (\<lambda>f. st_no (fmi2ExitInitializationMode I (Some f))),
     v_get_real = (\<lambda>f vr xs. st_no (fmi2GetReal L (Some f) vr xs)),
     v_get_integer = (\<lambda>f vr ns. map_option (\<lambda>(st, g). (status_no st, g, ns)) (fmi2_stub_call Fmi2GetInteger (Some f))),
     v_get_boolean = (\<lambda>f vr ns. map_option (\<lambda>(st, g). (status_no st, g, ns)) (fmi2_stub_call Fmi2GetBoolean (Some f))),
     v_get_string = (\<lambda>f vr ss. st_no (fmi2GetString L (Some f) vr ss)),
     v_set_real = (\<lambda>f vr xs. st_no (fmi2SetReal L (Some f) vr xs)),
     v_set_integer = (\<lambda>f vr ns. st_no (fmi2_stub_call Fmi2SetInteger (Some f))),
     v_set_boolean = (\<lambda>f vr ns. st_no (fmi2_stub_call Fmi2SetBoolean (Some f))),
     v_set_string = (\<lambda>f vr ss. st_no (fmi2SetString L H (Some f) vr ss)),
     v_do_step = (\<lambda>f point step_size. st_no (fmi2DoStep H I (Some f) point step_size True)),
     v_free_instance = (\<lambda>f. map_option (\<lambda>_. ()) (fmi2FreeInstance L H I (Some f)))\<rparr>"

definition served :: "'m clib \<Rightarrow> ('m, 'd) fmu \<Rightarrow> bool" where
  "served L f \<longleftrightarrow> fmu_wf L f \<and> di_map f = None"

lemma fmu_get_real:
  assumes "served L f" "length xs = length vr"
  shows "v_get_real (fmu_vtable L H I inst) f vr xs = Some (0, f,
    map (\<lambda>(v, old). case real_value L f v of None \<Rightarrow> old | Some x \<Rightarrow> x) (zip vr xs))"
  using assms get_reals_run [of L f xs vr fmu_log2] by (simp add: served_def fmu_vtable_def fmi2GetReal_def)

lemma fmu_set_real:
  assumes "served L f" "length xs = length vr"
  shows "\<exists>g. v_set_real (fmu_vtable L H I inst) f vr xs = Some (0, g) \<and> served L g \<and> scalars_only f g \<and>
    load g = assign_inputs L f (zip vr xs) (load f)"
proof -
  from assms set_reals_run [of L f xs vr fmu_log2] obtain g where
    g: "set_reals fmu_log2 L f vr xs = Some (FmiOK, g)" "fmu_wf L g" "scalars_only f g"
      "load g = assign_inputs L f (zip vr xs) (load f)" by (auto simp: served_def)
  moreover have "di_map g = None" using assms(1) g(3) by (auto simp: served_def scalars_only_def)
  ultimately show ?thesis by (simp add: served_def fmu_vtable_def fmi2SetReal_def)
qed

interpretation fc: fmi2_component "fmu_vtable L H I inst" "served L" UNIV UNIV UNIV
  for L :: "'m clib" and H :: "('m, 'd) signal_vtable" and I :: "('m, 'd) fmu_impl" and inst
proof
  fix i :: "('m, 'd) fmu" and vr :: "u32 list" and xs :: "f64 list"
  assume "served L i" "length xs = length vr"
  then show "\<exists>i1 ys. v_get_real (fmu_vtable L H I inst) i vr xs = Some (0, i1, ys) \<and> served L i1 \<and> length ys = length vr"
    and "\<exists>i1. v_set_real (fmu_vtable L H I inst) i vr xs = Some (0, i1) \<and> served L i1"
    using fmu_get_real [of L i xs vr H I inst] fmu_set_real [of L i xs vr H I inst] by auto
qed (simp_all add: fmu_vtable_def fmi2_stub_call_def)

subsection \<open>From the groups to the FMU\<close>

definition doubles_of :: "target \<Rightarrow> f64 list" where
  "doubles_of t = (case t of TargetDouble xs \<Rightarrow> xs | _ \<Rightarrow> [])"

definition written :: "marshal_group \<Rightarrow> (u32 \<times> f64) list" where
  "written mg = (if writes_group mg \<and> mg_type mg = TypeDouble then zip (mg_ref mg) (doubles_of (mg_target mg)) else [])"

lemma assign_inputs_append:
  "assign_inputs L f (xs @ ys) st = assign_inputs L f ys (assign_inputs L f xs st)"
  by (simp add: assign_inputs_def)

lemma assign_inputs_frame: "scalars_only f g \<Longrightarrow> assign_inputs L g xs st = assign_inputs L f xs st"
  using input_loc_frame [of f g L] by (simp add: assign_inputs_def cong: option.case_cong)

lemma set_group_fmu:
  assumes "ready (fmu_vtable L H I inst) a" "served L f" "scalar_group mg" "writes_group mg"
  shows "\<exists>g. set_group a f mg = Some (0, g) \<and> served L g \<and> scalars_only f g \<and> load g = assign_inputs L f (written mg) (load f)"
proof (cases "mg_type mg")
  case TypeDouble
  with assms(3) obtain xs where x: "mg_target mg = TargetDouble xs" "length xs = length (mg_ref mg)"
    by (cases "mg_target mg") (simp_all add: scalar_group_def)
  from fmu_set_real [OF assms(2) x(2)] obtain g where "v_set_real (fmu_vtable L H I inst) f (mg_ref mg) xs = Some (0, g)"
    "served L g" "scalars_only f g" "load g = assign_inputs L f (zip (mg_ref mg) xs) (load f)" by blast
  with ready_entry [OF assms(1), of "''fmi2SetReal''" v_set_real] TypeDouble x(1) assms(4) show ?thesis
    by (simp add: set_group_def fmi2_func_names_def written_def doubles_of_def)
next
  case TypeInt32
  with assms(3) obtain xs where "mg_target mg = TargetInt32 xs" by (cases "mg_target mg") (simp_all add: scalar_group_def)
  with ready_entry [OF assms(1), of "''fmi2SetInteger''" v_set_integer] TypeInt32 assms(2) show ?thesis
    by (simp add: set_group_def fmi2_func_names_def written_def assign_inputs_def fmu_vtable_def fmi2_stub_call_def)
next
  case TypeBool
  with assms(3) obtain xs where "mg_target mg = TargetInt32 xs" by (cases "mg_target mg") (simp_all add: scalar_group_def)
  with ready_entry [OF assms(1), of "''fmi2SetBoolean''" v_set_boolean] TypeBool assms(2) show ?thesis
    by (simp add: set_group_def fmi2_func_names_def written_def assign_inputs_def fmu_vtable_def fmi2_stub_call_def)
qed (use assms(3) in \<open>simp_all add: scalar_group_def\<close>)

lemma out_groups_fmu:
  assumes "ready (fmu_vtable L H I inst) a"
  shows "served L f \<Longrightarrow> \<forall>mg \<in> set mgs. scalar_group mg \<Longrightarrow> \<exists>g. out_groups a f mgs = Some (0, g) \<and> served L g \<and>
    scalars_only f g \<and> load g = assign_inputs L f (concat (map written mgs)) (load f)"
proof (induction mgs arbitrary: f)
  case Nil
  then show ?case by (simp add: assign_inputs_def)
next
  case (Cons mg mgs)
  show ?case
  proof (cases "writes_group mg")
    case True
    from set_group_fmu [OF assms Cons.prems(1) _ True] Cons.prems(2) obtain g where
      g: "set_group a f mg = Some (0, g)" "served L g" "scalars_only f g" "load g = assign_inputs L f (written mg) (load f)" by auto
    from Cons.IH [OF g(2)] Cons.prems(2) obtain h where
      h: "out_groups a g mgs = Some (0, h)" "served L h" "scalars_only g h"
        "load h = assign_inputs L g (concat (map written mgs)) (load g)" by auto
    from h(4) g(4) have "load h = assign_inputs L f (concat (map written (mg # mgs))) (load f)"
      by (simp add: assign_inputs_append assign_inputs_frame [OF g(3)])
    with True g(1) h(1,2) scalars_only_trans [OF g(3) h(3)] show ?thesis by simp
  next
    case False
    with Cons.IH [OF Cons.prems(1)] Cons.prems(2) show ?thesis by (simp add: written_def)
  qed
qed

subsection \<open>What the copies of dse.clib are relied on for\<close>

text \<open>
  Over a table that tiles the storage: \<open>marshal_group_out\<close> changes only the targets of the
  table, and the target of a written double group gets the group's block of cells;
  \<open>marshal_group_in\<close> changes only the cells, those of a read double group become its target
  and those of no read group stay.
\<close>

definition block :: "marshal_group \<Rightarrow> 'a list \<Rightarrow> 'a list" where
  "block mg xs = take (mg_count mg) (drop (mg_offset mg) xs)"

definition double_group :: "marshal_group \<Rightarrow> bool" where
  "double_group mg \<longleftrightarrow> mg_kind mg = KindPrimitive \<and> mg_type mg = TypeDouble"

definition same_shape :: "marshal_group \<Rightarrow> marshal_group \<Rightarrow> bool" where
  "same_shape a b \<longleftrightarrow> (\<exists>x. b = a\<lparr>mg_target := x\<rparr>) \<and> (scalar_group a \<longrightarrow> scalar_group b)"

definition table_fits :: "fmu_data \<Rightarrow> bool" where
  "table_fits d \<longleftrightarrow> (\<forall>mg \<in> set (fd_mg_table d). mg_offset mg + mg_count mg \<le> length (fd_scalar d) \<and> length (mg_ref mg) = mg_count mg) \<and>
     (\<forall>i j k. j < length (fd_mg_table d) \<longrightarrow> k < length (fd_mg_table d) \<longrightarrow>
        in_block (fd_mg_table d ! j) i \<longrightarrow> in_block (fd_mg_table d ! k) i \<longrightarrow> j = k)"

definition out_ok :: "marshal_lib \<Rightarrow> bool" where
  "out_ok M \<longleftrightarrow> (\<forall>d. table_fits d \<longrightarrow> (\<exists>t. ml_out M d = d\<lparr>fd_mg_table := t\<rparr> \<and> list_all2 same_shape (fd_mg_table d) t \<and>
     (\<forall>mg \<in> set t. writes_group mg \<and> double_group mg \<longrightarrow> mg_target mg = TargetDouble (block mg (fd_scalar d)))))"

definition in_ok :: "marshal_lib \<Rightarrow> bool" where
  "in_ok M \<longleftrightarrow> (\<forall>d. table_fits d \<longrightarrow> (\<exists>xs. ml_in M d = d\<lparr>fd_scalar := xs, fd_binary := fd_binary (ml_in M d),
       fd_binary_len := fd_binary_len (ml_in M d)\<rparr> \<and> length xs = length (fd_scalar d) \<and>
     (\<forall>mg ys. mg \<in> set (fd_mg_table d) \<longrightarrow> reads_group mg \<longrightarrow> double_group mg \<longrightarrow> mg_target mg = TargetDouble ys \<longrightarrow>
        length ys = mg_count mg \<longrightarrow> block mg xs = ys) \<and>
     (\<forall>i < length xs. (\<forall>mg \<in> set (fd_mg_table d). \<not> (reads_group mg \<and> in_block mg i)) \<longrightarrow> xs ! i = fd_scalar d ! i)))"

subsection \<open>From the cells to the FMU\<close>

definition sends :: "fmu_signal \<Rightarrow> bool" where
  "sends s \<longleftrightarrow> (fs_dir s = DirTxRx \<or> fs_dir s = DirTxOnly \<or> fs_dir s = DirParameter) \<and> fs_type s = TypeDouble"

definition receives :: "fmu_signal \<Rightarrow> bool" where
  "receives s \<longleftrightarrow> (fs_dir s = DirTxRx \<or> fs_dir s = DirRxOnly \<or> fs_dir s = DirLocal) \<and> fs_type s = TypeDouble"

text \<open>The values the signals send: each with the reference of its FMU variable, in the order of the signals.\<close>

definition sent :: "fmu_signal list \<Rightarrow> f64 list \<Rightarrow> (u32 \<times> f64) list" where
  "sent ss xs = map (\<lambda>(s, x). (fs_vref s, x)) (filter (\<lambda>(s, x). sends s) (zip ss xs))"

lemma sent_append: "length xs = length ss \<Longrightarrow> sent (ss @ ts) (xs @ ys) = sent ss xs @ sent ts ys"
  by (simp add: sent_def)

lemma sent_block:
  assumes "describes mg off ss" "length xs = length ss"
  shows "sent ss xs = (if writes_group mg \<and> mg_type mg = TypeDouble then zip (mg_ref mg) xs else [])"
proof -
  have k: "\<forall>s \<in> set ss. sends s = (writes_group mg \<and> mg_type mg = TypeDouble)" "mg_ref mg = map fs_vref ss"
    using assms(1) by (auto simp: describes_def group_key_def mg_key_def sends_def writes_group_def)
  have "map (\<lambda>(s, x). (fs_vref s, x)) (zip ss xs) = zip (map fs_vref ss) xs"
    by (simp add: zip_map1)
  moreover have "filter (\<lambda>(s, x). sends s) (zip ss xs) = (if writes_group mg \<and> mg_type mg = TypeDouble then zip ss xs else [])"
    using k(1) by (auto simp: filter_empty_conv filter_id_conv dest: set_zip_leftD)
  ultimately show ?thesis by (simp add: sent_def k(2))
qed

lemma sent_tiles:
  "tiles mgs off ss \<Longrightarrow> length all = off + length ss \<Longrightarrow>
     concat (map (\<lambda>mg. if writes_group mg \<and> mg_type mg = TypeDouble then zip (mg_ref mg) (block mg all) else []) mgs) = sent ss (drop off all)"
proof (induction mgs arbitrary: off ss)
  case Nil
  then show ?case by (simp add: sent_def)
next
  case (Cons mg mgs)
  let ?n = "mg_count mg"
  from Cons.prems have d: "?n \<le> length ss" "describes mg off (take ?n ss)" "tiles mgs (off + ?n) (drop ?n ss)" by simp_all
  have o: "mg_offset mg = off" using d(2) by (simp add: describes_def)
  have b: "sent (take ?n ss) (block mg all) = (if writes_group mg \<and> mg_type mg = TypeDouble then zip (mg_ref mg) (block mg all) else [])"
    using d(1) Cons.prems(2) by (intro sent_block [OF d(2)]) (simp add: block_def o)
  have e: "drop (off + ?n) all = drop ?n (drop off all)" by (simp add: add.commute)
  have "sent ss (drop off all) = sent (take ?n ss @ drop ?n ss) (block mg all @ drop (off + ?n) all)"
    unfolding e by (simp add: block_def o del: drop_drop)
  also have "\<dots> = sent (take ?n ss) (block mg all) @ sent (drop ?n ss) (drop (off + ?n) all)"
    using d(1) Cons.prems(2) by (intro sent_append) (simp add: block_def o)
  finally show ?case using Cons.IH [OF d(3)] Cons.prems(2) d(1) b by simp
qed

text \<open>A model of scalar signals with its storage and table, and the adapter of an FMU of dse/fmu.\<close>

definition linked ::
  "'m clib \<Rightarrow> ('m, 'd) fmu fmi2_vtable \<Rightarrow> ('y, ('m, 'd) fmu adapter) fmu_model \<Rightarrow> ('m, 'd) fmu \<Rightarrow> bool" where
  "linked L V m f \<longleftrightarrow> (\<exists>a. fm_adapter m = Some a \<and> ad_inst a = Some f \<and> ready V a) \<and> served L f \<and>
     length (fd_scalar (fm_data m)) = length (fm_signals m) \<and>
     (\<exists>t. tiles t 0 (fm_signals m) \<and> list_all2 same_shape t (fd_mg_table (fm_data m))) \<and>
     (\<forall>mg \<in> set (fd_mg_table (fm_data m)). scalar_group mg \<and> mg_kind mg = KindPrimitive)"

lemma same_shape_fields:
  "same_shape a b \<Longrightarrow> mg_offset b = mg_offset a \<and> mg_count b = mg_count a \<and> mg_ref b = mg_ref a \<and> mg_key b = mg_key a \<and>
     mg_kind b = mg_kind a \<and> mg_type b = mg_type a \<and> mg_dir b = mg_dir a"
  by (auto simp: same_shape_def mg_key_def)

lemma tiles_refs: "tiles mgs off ss \<Longrightarrow> mg \<in> set mgs \<Longrightarrow> length (mg_ref mg) = mg_count mg"
  by (induction mgs arbitrary: off ss) (auto simp: describes_def)

lemma tiles_fits:
  assumes "tiles t 0 ss" "list_all2 same_shape t (fd_mg_table d)" "length (fd_scalar d) = length ss"
  shows "table_fits d"
proof -
  have l: "length (fd_mg_table d) = length t" using assms(2) by (simp add: list_all2_lengthD)
  have f: "mg_offset (fd_mg_table d ! j) = mg_offset (t ! j) \<and> mg_count (fd_mg_table d ! j) = mg_count (t ! j) \<and>
      mg_ref (fd_mg_table d ! j) = mg_ref (t ! j)" if "j < length t" for j
    using same_shape_fields [OF list_all2_nthD [OF assms(2) that]] by simp
  have b: "mg_offset (t ! j) + mg_count (t ! j) \<le> length ss \<and> length (mg_ref (t ! j)) = mg_count (t ! j)" if "j < length t" for j
    using tiles_offset [OF assms(1), of "t ! j"] tiles_refs [OF assms(1), of "t ! j"] that by simp
  have "j = k" if "j < length t" "k < length t" "in_block (t ! j) i" "in_block (t ! k) i" for i j k
  proof -
    have "i < length ss" using that(1,3) b [of j] by (auto simp: in_block_def)
    from tiles_block [OF assms(1) this] that show ?thesis unfolding add_0 by metis
  qed
  with f b l assms(3) show ?thesis by (fastforce simp: table_fits_def in_set_conv_nth in_block_def)
qed

lemma linkedD:
  assumes "linked L V m f"
  obtains a t where "fm_adapter m = Some a" "ad_inst a = Some f" "ready V a" "served L f"
    "length (fd_scalar (fm_data m)) = length (fm_signals m)" "tiles t 0 (fm_signals m)"
    "list_all2 same_shape t (fd_mg_table (fm_data m))" "table_fits (fm_data m)"
    "\<forall>mg \<in> set (fd_mg_table (fm_data m)). scalar_group mg \<and> mg_kind mg = KindPrimitive"
proof -
  from assms obtain a t where m: "fm_adapter m = Some a" "ad_inst a = Some f" "ready V a" "served L f"
    "length (fd_scalar (fm_data m)) = length (fm_signals m)" "tiles t 0 (fm_signals m)"
    "list_all2 same_shape t (fd_mg_table (fm_data m))"
    "\<forall>mg \<in> set (fd_mg_table (fm_data m)). scalar_group mg \<and> mg_kind mg = KindPrimitive"
    unfolding linked_def by blast
  then show thesis using that [OF m(1-7) tiles_fits [OF m(6,7,5)] m(8)] by blast
qed

lemma same_shape_refl: "same_shape a a"
  unfolding same_shape_def by (intro conjI exI [of _ "mg_target a"]) simp_all

lemma same_shape_trans: "list_all2 same_shape xs ys \<Longrightarrow> list_all2 same_shape ys zs \<Longrightarrow> list_all2 same_shape xs zs"
proof (rule list_all2_trans)
  show "same_shape a b \<Longrightarrow> same_shape b c \<Longrightarrow> same_shape a c" for a b c
    by (auto simp: same_shape_def)
qed

lemma same_shape_set: "list_all2 same_shape xs ys \<Longrightarrow> b \<in> set ys \<Longrightarrow> \<exists>a \<in> set xs. same_shape a b"
  by (metis in_set_conv_nth list_all2_conv_all_nth)

lemma writes_shape:
  assumes "same_shape a b"
  shows "writes_group b = writes_group a" "reads_group b = reads_group a" "block b xs = block a xs"
    "mg_type b = mg_type a" "mg_ref b = mg_ref a" "mg_kind b = mg_kind a"
  using same_shape_fields [OF assms] by (simp_all add: writes_group_def reads_group_def block_def)

lemma linked_put:
  assumes "linked L V m f" "fm_adapter m = Some a" "ready V a" "served L g"
    "list_all2 same_shape (fd_mg_table (fm_data m)) t" "length xs = length (fd_scalar (fm_data m))"
    "fm_adapter m' = Some (a\<lparr>ad_inst := Some g\<rparr>)" "fm_signals m' = fm_signals m" "fd_scalar (fm_data m') = xs"
    "fd_mg_table (fm_data m') = t"
  shows "linked L V m' g"
proof -
  from linkedD [OF assms(1)] obtain t0 where t0: "length (fd_scalar (fm_data m)) = length (fm_signals m)"
    "tiles t0 0 (fm_signals m)" "list_all2 same_shape t0 (fd_mg_table (fm_data m))"
    "\<forall>mg \<in> set (fd_mg_table (fm_data m)). scalar_group mg \<and> mg_kind mg = KindPrimitive" by metis
  have "scalar_group mg \<and> mg_kind mg = KindPrimitive" if m: "mg \<in> set t" for mg
  proof -
    from same_shape_set [OF assms(5) m] obtain b where b: "b \<in> set (fd_mg_table (fm_data m))" "same_shape b mg" by blast
    with t0(4) same_shape_fields [OF b(2)] show ?thesis by (simp add: same_shape_def)
  qed
  moreover have "ready V (a\<lparr>ad_inst := Some g\<rparr>)" using assms(3) by (simp add: ready_def)
  ultimately show ?thesis
    using assms(4,6-10) t0(1,2) same_shape_trans [OF t0(3) assms(5)] by (auto simp: linked_def)
qed

lemma out_written:
  assumes "tiles t 0 ss" "list_all2 same_shape t t'" "length xs = length ss"
    "\<forall>mg \<in> set t'. mg_kind mg = KindPrimitive"
    "\<forall>mg \<in> set t'. writes_group mg \<and> double_group mg \<longrightarrow> mg_target mg = TargetDouble (block mg xs)"
  shows "concat (map written t') = sent ss xs"
proof -
  let ?w = "\<lambda>mg. if writes_group mg \<and> mg_type mg = TypeDouble then zip (mg_ref mg) (block mg xs) else []"
  have "written b = ?w a" if "same_shape a b" "b \<in> set t'" for a b
    using that(2) assms(4,5) unfolding writes_shape(1-5) [OF that(1), symmetric]
    by (simp add: written_def doubles_of_def double_group_def)
  then have "list_all2 (\<lambda>a b. ?w a = written b) t t'"
    using assms(2) by (auto simp: list_all2_conv_all_nth)
  then have "map ?w t = map written t'" by (simp add: list_all2_conv_all_nth list_eq_iff_nth_eq)
  with sent_tiles [OF assms(1), of xs] assms(3) show ?thesis by simp
qed

text \<open>
  C17: Marshalling out carries the MCL's cells into the FMU: for a model of scalar signals whose
  table tiles its storage, the FMU's input of each sent signal takes the value of the signal's
  cell (in the order of the signals, unknown references ignored), the call succeeds, and cells
  and links stay as they were.
\<close>

theorem mcl_marshal_out_reaches_fmu:
  assumes "out_ok M" "linked L (fmu_vtable L H I inst) m f"
  shows "\<exists>m1 g. fmi2mcl_marshal_out M m = Some (0, m1) \<and> linked L (fmu_vtable L H I inst) m1 g \<and> scalars_only f g \<and>
    fd_scalar (fm_data m1) = fd_scalar (fm_data m) \<and>
    load g = assign_inputs L f (sent (fm_signals m) (fd_scalar (fm_data m))) (load f)"
proof -
  from linkedD [OF assms(2)] obtain a t where l: "fm_adapter m = Some a" "ad_inst a = Some f" "ready (fmu_vtable L H I inst) a"
    "served L f" "length (fd_scalar (fm_data m)) = length (fm_signals m)" "tiles t 0 (fm_signals m)"
    "list_all2 same_shape t (fd_mg_table (fm_data m))" "table_fits (fm_data m)"
    "\<forall>mg \<in> set (fd_mg_table (fm_data m)). scalar_group mg \<and> mg_kind mg = KindPrimitive" by metis
  from assms(1) l(8) obtain t' where t': "ml_out M (fm_data m) = (fm_data m)\<lparr>fd_mg_table := t'\<rparr>"
    "list_all2 same_shape (fd_mg_table (fm_data m)) t'"
    "\<forall>mg \<in> set t'. writes_group mg \<and> double_group mg \<longrightarrow> mg_target mg = TargetDouble (block mg (fd_scalar (fm_data m)))"
    unfolding out_ok_def by blast
  let ?m1 = "\<lambda>g. m\<lparr>fm_adapter := Some (a\<lparr>ad_inst := Some g\<rparr>), fm_data := (fm_data m)\<lparr>fd_mg_table := t'\<rparr>\<rparr>"
  have link: "served L g \<Longrightarrow> linked L (fmu_vtable L H I inst) (?m1 g) g" for g
    by (rule linked_put [OF assms(2) l(1,3) _ t'(2) refl]) simp_all
  have sc: "\<forall>mg \<in> set t'. scalar_group mg \<and> mg_kind mg = KindPrimitive"
    using link [OF l(4)] by (auto simp: linked_def)
  from out_groups_fmu [OF l(3,4)] sc obtain g where g: "out_groups a f t' = Some (0, g)" "served L g" "scalars_only f g"
    "load g = assign_inputs L f (concat (map written t')) (load f)" by blast
  have "concat (map written t') = sent (fm_signals m) (fd_scalar (fm_data m))"
    by (rule out_written [OF l(6) same_shape_trans [OF l(7) t'(2)] l(5)]) (use sc t'(3) in auto)
  with g link [OF g(2)] l(1,2) t'(1) show ?thesis
    by (intro exI [of _ "?m1 g"] exI [of _ g]) (simp add: fmi2mcl_marshal_out_def)
qed

subsection \<open>From the FMU to the cells\<close>

lemma table_at:
  assumes "tiles t 0 ss" "list_all2 same_shape t T" "i < length ss"
  shows "\<exists>mg \<in> set T. in_block mg i \<and> mg_ref mg ! (i - mg_offset mg) = fs_vref (ss ! i) \<and> mg_key mg = group_key (ss ! i) \<and>
    (\<forall>mg' \<in> set T. in_block mg' i \<longrightarrow> mg' = mg)"
proof -
  from tiles_block [OF assms(1,3)] obtain j where j: "j < length t" "in_block (t ! j) i"
    "mg_ref (t ! j) ! (i - mg_offset (t ! j)) = fs_vref (ss ! i)" "mg_key (t ! j) = group_key (ss ! i)"
    "\<And>k. k < length t \<Longrightarrow> in_block (t ! k) i \<Longrightarrow> k = j" unfolding add_0 by blast
  have f: "length T = length t" "\<And>k. k < length t \<Longrightarrow> same_shape (t ! k) (T ! k)"
    using assms(2) by (simp_all add: list_all2_conv_all_nth)
  have b: "in_block (T ! k) i = in_block (t ! k) i" if "k < length t" for k
    using same_shape_fields [OF f(2) [OF that]] by (simp add: in_block_def)
  have "mg' = T ! j" if m: "mg' \<in> set T" "in_block mg' i" for mg'
  proof -
    from m(1) obtain k where k: "k < length t" "mg' = T ! k" unfolding in_set_conv_nth f(1) by blast
    with m(2) b [OF k(1)] j(5) [OF k(1)] show ?thesis by simp
  qed
  moreover have "T ! j \<in> set T" using j(1) f(1) by simp
  moreover have "in_block (T ! j) i" using b [OF j(1)] j(2) by simp
  moreover have "mg_ref (T ! j) ! (i - mg_offset (T ! j)) = fs_vref (ss ! i)" "mg_key (T ! j) = group_key (ss ! i)"
    using same_shape_fields [OF f(2) [OF j(1)]] j(3,4) by simp_all
  ultimately show ?thesis by blast
qed

definition fetched :: "'m clib \<Rightarrow> ('m, 'd) fmu \<Rightarrow> marshal_group \<Rightarrow> marshal_group" where
  "fetched L f mg = (if reads_group mg \<and> mg_type mg = TypeDouble
     then mg\<lparr>mg_target := TargetDouble (map (\<lambda>(v, old). case real_value L f v of None \<Rightarrow> old | Some x \<Rightarrow> x)
       (zip (mg_ref mg) (doubles_of (mg_target mg))))\<rparr>
     else mg)"

lemma get_group_fmu:
  assumes "ready (fmu_vtable L H I inst) a" "served L f" "scalar_group mg" "reads_group mg"
  shows "get_group a f mg = Some (0, f, fetched L f mg)"
proof (cases "mg_type mg")
  case TypeDouble
  with assms(3) obtain xs where x: "mg_target mg = TargetDouble xs" "length xs = length (mg_ref mg)"
    by (cases "mg_target mg") (simp_all add: scalar_group_def)
  from fmu_get_real [OF assms(2) x(2)] ready_entry [OF assms(1), of "''fmi2GetReal''" v_get_real] TypeDouble x(1) assms(4)
  show ?thesis by (simp add: get_group_def fmi2_func_names_def fetched_def doubles_of_def)
next
  case TypeInt32
  with assms(3) obtain xs where "mg_target mg = TargetInt32 xs" by (cases "mg_target mg") (simp_all add: scalar_group_def)
  with ready_entry [OF assms(1), of "''fmi2GetInteger''" v_get_integer] TypeInt32 show ?thesis
    by (simp add: get_group_def fmi2_func_names_def fetched_def fmu_vtable_def fmi2_stub_call_def)
next
  case TypeBool
  with assms(3) obtain xs where "mg_target mg = TargetInt32 xs" by (cases "mg_target mg") (simp_all add: scalar_group_def)
  with ready_entry [OF assms(1), of "''fmi2GetBoolean''" v_get_boolean] TypeBool show ?thesis
    by (simp add: get_group_def fmi2_func_names_def fetched_def fmu_vtable_def fmi2_stub_call_def)
qed (use assms(3) in \<open>simp_all add: scalar_group_def\<close>)

lemma in_groups_fmu:
  assumes "ready (fmu_vtable L H I inst) a" "served L f"
  shows "\<forall>mg \<in> set mgs. scalar_group mg \<Longrightarrow> in_groups a f mgs = Some (0, f, map (fetched L f) mgs)"
proof (induction mgs)
  case (Cons mg mgs)
  with get_group_fmu [OF assms, of mg] show ?case by (cases "reads_group mg") (simp_all add: fetched_def)
qed simp

lemma fetched_shape: "scalar_group mg \<Longrightarrow> same_shape mg (fetched L f mg)"
proof -
  assume s: "scalar_group mg"
  have "\<exists>x. fetched L f mg = mg\<lparr>mg_target := x\<rparr>"
    unfolding fetched_def by (cases "reads_group mg \<and> mg_type mg = TypeDouble") (auto intro: exI [of _ "mg_target mg"])
  moreover have "scalar_group (fetched L f mg)"
    using s by (cases "mg_target mg") (auto simp: scalar_group_def fetched_def doubles_of_def)
  ultimately show ?thesis by (simp add: same_shape_def)
qed

text \<open>The cell of a read double group takes the value that the FMU holds for its reference.\<close>

lemma fetched_cell:
  assumes "scalar_group b" "double_group b" "reads_group b" "in_block b i" "length (mg_ref b) = mg_count b" "i < length xs"
    "real_value L f (mg_ref b ! (i - mg_offset b)) = Some x"
    "\<And>ys. mg_target (fetched L f b) = TargetDouble ys \<Longrightarrow> length ys = mg_count b \<Longrightarrow> block b xs = ys"
  shows "xs ! i = x"
proof -
  have ty: "mg_type b = TypeDouble" using assms(2) by (simp add: double_group_def)
  obtain ys where ys: "mg_target b = TargetDouble ys" "length ys = length (mg_ref b)"
    using assms(1) ty by (cases "mg_target b") (simp_all add: scalar_group_def)
  let ?zs = "map (\<lambda>(v, old). case real_value L f v of None \<Rightarrow> old | Some x \<Rightarrow> x) (zip (mg_ref b) ys)"
  have "mg_target (fetched L f b) = TargetDouble ?zs" using assms(3) ty ys(1) by (simp add: fetched_def doubles_of_def)
  then have "block b xs = ?zs" by (rule assms(8)) (simp add: ys(2) assms(5))
  moreover have k: "i - mg_offset b < mg_count b" "mg_offset b \<le> i" using assms(4) by (auto simp: in_block_def)
  moreover have "block b xs ! (i - mg_offset b) = xs ! i" using k assms(6) by (simp add: block_def)
  ultimately have "xs ! i = ?zs ! (i - mg_offset b)" by simp
  also have "\<dots> = x" using assms(5,7) k ys(2) by simp
  finally show ?thesis .
qed

lemma marshal_in_run:
  assumes "in_ok M" "linked L (fmu_vtable L H I inst) m f"
  obtains m1 t where "fmi2mcl_marshal_in M m = Some (0, m1)" "linked L (fmu_vtable L H I inst) m1 f"
    "fm_signals m1 = fm_signals m" "length (fd_scalar (fm_data m1)) = length (fm_signals m)" "tiles t 0 (fm_signals m)"
    "list_all2 same_shape t (map (fetched L f) (fd_mg_table (fm_data m)))"
    "\<And>mg ys. mg \<in> set (map (fetched L f) (fd_mg_table (fm_data m))) \<Longrightarrow> reads_group mg \<Longrightarrow> double_group mg \<Longrightarrow>
       mg_target mg = TargetDouble ys \<Longrightarrow> length ys = mg_count mg \<Longrightarrow> block mg (fd_scalar (fm_data m1)) = ys"
    "\<And>i. i < length (fm_signals m) \<Longrightarrow> (\<And>mg. mg \<in> set (map (fetched L f) (fd_mg_table (fm_data m))) \<Longrightarrow> \<not> (reads_group mg \<and> in_block mg i)) \<Longrightarrow>
       fd_scalar (fm_data m1) ! i = fd_scalar (fm_data m) ! i"
proof -
  let ?V = "fmu_vtable L H I inst"
  from linkedD [OF assms(2)] obtain a t where l: "fm_adapter m = Some a" "ad_inst a = Some f" "ready ?V a"
    "served L f" "length (fd_scalar (fm_data m)) = length (fm_signals m)" "tiles t 0 (fm_signals m)"
    "list_all2 same_shape t (fd_mg_table (fm_data m))"
    "\<forall>mg \<in> set (fd_mg_table (fm_data m)). scalar_group mg \<and> mg_kind mg = KindPrimitive" by metis
  let ?T = "map (fetched L f) (fd_mg_table (fm_data m))"
  let ?m1 = "put_back m a f ?T"
  have g: "in_groups a f (fd_mg_table (fm_data m)) = Some (0, f, ?T)" by (rule in_groups_fmu [OF l(3,4)]) (use l(8) in blast)
  have sh: "list_all2 same_shape (fd_mg_table (fm_data m)) ?T"
    using l(8) by (simp add: list_all2_conv_all_nth fetched_shape)
  have link: "linked L ?V ?m1 f"
    by (rule linked_put [OF assms(2) l(1,3,4) sh refl]) (simp_all add: put_back_def)
  have fits: "table_fits (fm_data ?m1)" by (rule linkedD [OF link])
  from assms(1) [unfolded in_ok_def, rule_format, OF fits] obtain xs where
    xs: "ml_in M (fm_data ?m1) = (fm_data ?m1)\<lparr>fd_scalar := xs, fd_binary := fd_binary (ml_in M (fm_data ?m1)),
       fd_binary_len := fd_binary_len (ml_in M (fm_data ?m1))\<rparr>" "length xs = length (fd_scalar (fm_data ?m1))"
      "\<And>mg ys. mg \<in> set (fd_mg_table (fm_data ?m1)) \<Longrightarrow> reads_group mg \<Longrightarrow> double_group mg \<Longrightarrow> mg_target mg = TargetDouble ys \<Longrightarrow>
        length ys = mg_count mg \<Longrightarrow> block mg xs = ys"
      "\<And>i. i < length xs \<Longrightarrow> (\<And>mg. mg \<in> set (fd_mg_table (fm_data ?m1)) \<Longrightarrow> \<not> (reads_group mg \<and> in_block mg i)) \<Longrightarrow>
        xs ! i = fd_scalar (fm_data ?m1) ! i" by blast
  let ?m2 = "?m1\<lparr>fm_data := ml_in M (fm_data ?m1)\<rparr>"
  have cells: "fd_scalar (fm_data ?m2) = xs" by (subst xs(1)) simp
  have tab: "fd_mg_table (fm_data ?m2) = ?T" by (subst xs(1)) (simp add: put_back_def)
  have link2: "linked L ?V ?m2 f"
    by (rule linked_put [OF assms(2) l(1,3,4) sh _ _ _ cells tab]) (simp_all add: put_back_def xs(2))
  have "fmi2mcl_marshal_in M m = Some (0, ?m2)" by (simp add: fmi2mcl_marshal_in_def l(1,2) g Let_def)
  moreover have "fd_mg_table (fm_data ?m1) = ?T" "fd_scalar (fm_data ?m1) = fd_scalar (fm_data m)" "fm_signals ?m2 = fm_signals m"
    by (simp_all add: put_back_def)
  ultimately show thesis
    using that [OF _ link2 _ _ l(6) same_shape_trans [OF l(7) sh]] xs(2-4) l(5) unfolding cells by simp
qed

text \<open>
  C18: Marshalling in brings the FMU's values into the MCL's cells: the cell of each received
  signal takes the value of its FMU variable, cells of signals that are not read stay, and the
  FMU is unchanged.
\<close>

theorem mcl_marshal_in_reads_fmu:
  assumes "in_ok M" "linked L (fmu_vtable L H I inst) m f"
  shows "\<exists>m1. fmi2mcl_marshal_in M m = Some (0, m1) \<and> linked L (fmu_vtable L H I inst) m1 f \<and> fm_signals m1 = fm_signals m \<and>
    (\<forall>i < length (fm_signals m). \<forall>x. receives (fm_signals m ! i) \<longrightarrow> real_value L f (fs_vref (fm_signals m ! i)) = Some x \<longrightarrow>
       fd_scalar (fm_data m1) ! i = x) \<and>
    (\<forall>i < length (fm_signals m). fs_dir (fm_signals m ! i) \<notin> {DirTxRx, DirRxOnly, DirLocal} \<longrightarrow>
       fd_scalar (fm_data m1) ! i = fd_scalar (fm_data m) ! i)"
proof -
  from linkedD [OF assms(2)] have l: "\<forall>mg \<in> set (fd_mg_table (fm_data m)). scalar_group mg \<and> mg_kind mg = KindPrimitive"
    and fits: "\<forall>mg \<in> set (fd_mg_table (fm_data m)). length (mg_ref mg) = mg_count mg" by (auto simp: table_fits_def)
  from marshal_in_run [OF assms] obtain m1 t where r: "fmi2mcl_marshal_in M m = Some (0, m1)"
    "linked L (fmu_vtable L H I inst) m1 f" "fm_signals m1 = fm_signals m" "length (fd_scalar (fm_data m1)) = length (fm_signals m)"
    and t: "tiles t 0 (fm_signals m)" "list_all2 same_shape t (map (fetched L f) (fd_mg_table (fm_data m)))"
    and cell: "\<And>mg ys. mg \<in> set (map (fetched L f) (fd_mg_table (fm_data m))) \<Longrightarrow> reads_group mg \<Longrightarrow> double_group mg \<Longrightarrow>
       mg_target mg = TargetDouble ys \<Longrightarrow> length ys = mg_count mg \<Longrightarrow> block mg (fd_scalar (fm_data m1)) = ys"
    and kept: "\<And>i. i < length (fm_signals m) \<Longrightarrow> (\<And>mg. mg \<in> set (map (fetched L f) (fd_mg_table (fm_data m))) \<Longrightarrow> \<not> (reads_group mg \<and> in_block mg i)) \<Longrightarrow>
       fd_scalar (fm_data m1) ! i = fd_scalar (fm_data m) ! i" by blast
  note at = table_at [OF t]
  have "fd_scalar (fm_data m1) ! i = x" if i: "i < length (fm_signals m)" and s: "receives (fm_signals m ! i)"
      and x: "real_value L f (fs_vref (fm_signals m ! i)) = Some x" for i x
  proof -
    from at [OF i] obtain b where b: "b \<in> set (fd_mg_table (fm_data m))" "in_block (fetched L f b) i"
      "mg_ref (fetched L f b) ! (i - mg_offset (fetched L f b)) = fs_vref (fm_signals m ! i)" "mg_key (fetched L f b) = group_key (fm_signals m ! i)"
      by auto
    have bs: "scalar_group b" "mg_kind b = KindPrimitive" "length (mg_ref b) = mg_count b" using l fits b(1) by auto
    note sh = fetched_shape [OF bs(1), of L f]
    note sf = same_shape_fields [OF sh] writes_shape(1,2,4-6) [OF sh]
    have ty: "reads_group b" "double_group b"
      using b(4) s bs(2) sf by (auto simp: mg_key_def group_key_def receives_def reads_group_def double_group_def)
    show ?thesis
    proof (rule fetched_cell [OF bs(1) ty(2,1) _ bs(3)])
      fix ys assume "mg_target (fetched L f b) = TargetDouble ys" "length ys = mg_count b"
      then show "block b (fd_scalar (fm_data m1)) = ys"
        using cell [of "fetched L f b" ys] b(1) ty sf
        by (simp add: double_group_def writes_shape(3) [OF sh])
    qed (use b(2,3) x i r(4) sf in \<open>simp_all add: in_block_def\<close>)
  qed
  moreover have "fd_scalar (fm_data m1) ! i = fd_scalar (fm_data m) ! i" if i: "i < length (fm_signals m)"
      and d: "fs_dir (fm_signals m ! i) \<notin> {DirTxRx, DirRxOnly, DirLocal}" for i
  proof (rule kept [OF i], rule notI)
    fix mg assume m: "mg \<in> set (map (fetched L f) (fd_mg_table (fm_data m)))" "reads_group mg \<and> in_block mg i"
    with at [OF i] have "mg_key mg = group_key (fm_signals m ! i)" "reads_group mg" by metis+
    with d show False by (auto simp: mg_key_def group_key_def reads_group_def)
  qed
  ultimately show ?thesis using r(1-3) by (intro exI [of _ m1]) blast
qed

subsection \<open>A reference implementation of the copies\<close>

definition ref_target :: "f64 list \<Rightarrow> marshal_group \<Rightarrow> marshal_group" where
  "ref_target xs mg = (if writes_group mg \<and> double_group mg then mg\<lparr>mg_target := TargetDouble (block mg xs)\<rparr> else mg)"

definition ref_out :: "fmu_data \<Rightarrow> fmu_data" where
  "ref_out d = d\<lparr>fd_mg_table := map (ref_target (fd_scalar d)) (fd_mg_table d)\<rparr>"

definition ref_cell :: "fmu_data \<Rightarrow> nat \<Rightarrow> f64" where
  "ref_cell d i = (case find (\<lambda>mg. reads_group mg \<and> double_group mg \<and> in_block mg i) (fd_mg_table d) of
     None \<Rightarrow> fd_scalar d ! i | Some mg \<Rightarrow> doubles_of (mg_target mg) ! (i - mg_offset mg))"

definition ref_marshal :: marshal_lib where
  "ref_marshal = \<lparr>ml_out = ref_out, ml_in = (\<lambda>d. d\<lparr>fd_scalar := map (ref_cell d) [0..<length (fd_scalar d)]\<rparr>)\<rparr>"

lemma ref_target_shape:
  assumes "length (block mg xs) = length (mg_ref mg)"
  shows "same_shape mg (ref_target xs mg)"
proof (cases "writes_group mg \<and> double_group mg")
  case True
  then have "scalar_group (mg\<lparr>mg_target := TargetDouble (block mg xs)\<rparr>)"
    using assms by (simp add: scalar_group_def double_group_def)
  with True show ?thesis by (auto simp: same_shape_def ref_target_def)
next
  case False
  then have "ref_target xs mg = mg" unfolding ref_target_def by (rule if_not_P)
  then show ?thesis by (simp only: same_shape_refl)
qed

lemma ref_target_block:
  "writes_group (ref_target xs mg) \<and> double_group (ref_target xs mg) \<Longrightarrow>
     mg_target (ref_target xs mg) = TargetDouble (block (ref_target xs mg) xs)"
  by (simp add: ref_target_def block_def split: if_splits)

lemma ref_out_ok: "out_ok ref_marshal"
  unfolding out_ok_def
proof (intro allI impI)
  fix d assume fits: "table_fits d"
  have "length (block mg (fd_scalar d)) = length (mg_ref mg)" if "mg \<in> set (fd_mg_table d)" for mg
    using fits that by (auto simp: table_fits_def block_def)
  then have "list_all2 same_shape (fd_mg_table d) (map (ref_target (fd_scalar d)) (fd_mg_table d))"
    by (simp add: list_all2_conv_all_nth ref_target_shape)
  moreover have "\<forall>mg \<in> set (map (ref_target (fd_scalar d)) (fd_mg_table d)). writes_group mg \<and> double_group mg \<longrightarrow>
      mg_target mg = TargetDouble (block mg (fd_scalar d))"
    unfolding set_map using ref_target_block by blast
  ultimately show "\<exists>t. ml_out ref_marshal d = d\<lparr>fd_mg_table := t\<rparr> \<and> list_all2 same_shape (fd_mg_table d) t \<and>
      (\<forall>mg \<in> set t. writes_group mg \<and> double_group mg \<longrightarrow> mg_target mg = TargetDouble (block mg (fd_scalar d)))"
    by (intro exI [of _ "map (ref_target (fd_scalar d)) (fd_mg_table d)"] conjI) (simp_all only: ref_marshal_def ref_out_def marshal_lib.simps)
qed

lemma find_memberD: "find P xs = Some x \<Longrightarrow> x \<in> set xs \<and> P x"
  by (induction xs) (auto split: if_splits)

lemma ref_cell_read:
  assumes "table_fits d" "mg \<in> set (fd_mg_table d)" "reads_group mg" "double_group mg" "in_block mg i"
  shows "ref_cell d i = doubles_of (mg_target mg) ! (i - mg_offset mg)"
proof -
  let ?P = "\<lambda>mg. reads_group mg \<and> double_group mg \<and> in_block mg i"
  have "find ?P (fd_mg_table d) \<noteq> None" using assms(2-5) unfolding find_None_iff by blast
  then obtain mg' where f: "find ?P (fd_mg_table d) = Some mg'" by blast
  from find_memberD [OF f] have m: "mg' \<in> set (fd_mg_table d)" "in_block mg' i" by simp_all
  obtain j where j: "j < length (fd_mg_table d)" "fd_mg_table d ! j = mg" using assms(2) by (metis in_set_conv_nth)
  obtain k where k: "k < length (fd_mg_table d)" "fd_mg_table d ! k = mg'" using m(1) by (metis in_set_conv_nth)
  have "j = k" using assms(1,5) j k m(2) unfolding table_fits_def by blast
  with f j k show ?thesis by (simp add: ref_cell_def)
qed

lemma ref_in_ok: "in_ok ref_marshal"
  unfolding in_ok_def
proof (intro allI impI)
  fix d assume fits: "table_fits d"
  let ?xs = "map (ref_cell d) [0..<length (fd_scalar d)]"
  have "block mg ?xs = ys"
    if m: "mg \<in> set (fd_mg_table d)" "reads_group mg" "double_group mg" "mg_target mg = TargetDouble ys" "length ys = mg_count mg" for mg ys
  proof (rule nth_equalityI)
    have b: "mg_offset mg + mg_count mg \<le> length (fd_scalar d)" using fits m(1) by (simp add: table_fits_def)
    then show "length (block mg ?xs) = length ys" using m(5) by (simp add: block_def)
    fix k assume "k < length (block mg ?xs)"
    then have k: "k < mg_count mg" by (simp add: block_def)
    then have "block mg ?xs ! k = ref_cell d (mg_offset mg + k)" using b by (simp add: block_def)
    also have "\<dots> = ys ! k" using ref_cell_read [OF fits m(1-3), of "mg_offset mg + k"] k m(4) by (simp add: in_block_def doubles_of_def)
    finally show "block mg ?xs ! k = ys ! k" .
  qed
  moreover have "?xs ! i = fd_scalar d ! i"
    if "i < length ?xs" "\<forall>mg \<in> set (fd_mg_table d). \<not> (reads_group mg \<and> in_block mg i)" for i
  proof -
    have "find (\<lambda>mg. reads_group mg \<and> double_group mg \<and> in_block mg i) (fd_mg_table d) = None"
      using that(2) by (auto simp: find_None_iff)
    with that(1) show ?thesis by (simp add: ref_cell_def)
  qed
  ultimately show "\<exists>xs. ml_in ref_marshal d = d\<lparr>fd_scalar := xs, fd_binary := fd_binary (ml_in ref_marshal d),
       fd_binary_len := fd_binary_len (ml_in ref_marshal d)\<rparr> \<and> length xs = length (fd_scalar d) \<and>
     (\<forall>mg ys. mg \<in> set (fd_mg_table d) \<longrightarrow> reads_group mg \<longrightarrow> double_group mg \<longrightarrow> mg_target mg = TargetDouble ys \<longrightarrow>
        length ys = mg_count mg \<longrightarrow> block mg xs = ys) \<and>
     (\<forall>i < length xs. (\<forall>mg \<in> set (fd_mg_table d). \<not> (reads_group mg \<and> in_block mg i)) \<longrightarrow> xs ! i = fd_scalar d ! i)"
    by (intro exI [of _ ?xs]) (auto simp: ref_marshal_def)
qed

subsection \<open>A model over the demonstration FMU\<close>

definition demo_link_table :: "marshal_group list" where
  "demo_link_table =
    [\<lparr>mg_name = ''mg'', mg_kind = KindPrimitive, mg_dir = DirRxOnly, mg_type = TypeDouble, mg_count = 1, mg_ref = [3],
       mg_target = TargetDouble [0], mg_binary_len = None, mg_offset = 0, mg_encode = None, mg_decode = None\<rparr>,
     \<lparr>mg_name = ''mg'', mg_kind = KindPrimitive, mg_dir = DirTxOnly, mg_type = TypeDouble, mg_count = 2, mg_ref = [1, 2],
       mg_target = TargetDouble [0, 0], mg_binary_len = None, mg_offset = 1, mg_encode = None, mg_decode = None\<rparr>]"

definition demo_adapter :: "'i \<Rightarrow> 'i fmi2_vtable \<Rightarrow> 'i adapter" where
  "demo_adapter f V = \<lparr>ad_inst = Some f, ad_names = fmi2_func_names, ad_lib = Some V, ad_callbacks = True\<rparr>"

definition demo_linked :: "((string \<times> vptr) list) default_fmu fmi2_vtable \<Rightarrow> (nat, ((string \<times> vptr) list) default_fmu adapter) fmu_model" where
  "demo_linked V = zero_model\<lparr>fm_signals :=
      [demo_signal ''c'' 3 KindPrimitive DirRxOnly TypeDouble None, demo_signal ''a'' 1 KindPrimitive DirTxOnly TypeDouble None,
       demo_signal ''b'' 2 KindPrimitive DirTxOnly TypeDouble None],
     fm_adapter := Some (demo_adapter demo_fmu V),
     fm_data := zero_data\<lparr>fd_count := 3, fd_scalar := [0, 5, 6], fd_mg_table := demo_link_table\<rparr>\<rparr>"

lemma demo_linked_ok: "linked ref_clib V (demo_linked V) demo_fmu"
proof -
  have "tiles demo_link_table 0 (fm_signals (demo_linked V))"
    by (simp add: demo_link_table_def demo_linked_def describes_def group_key_def mg_key_def demo_signal_def target_alloc_def)
  moreover have "list_all2 same_shape demo_link_table (fd_mg_table (fm_data (demo_linked V)))"
    by (simp add: demo_linked_def list_all2_refl same_shape_refl)
  moreover have "served ref_clib demo_fmu" using demo_fmu_wf by (simp add: served_def demo_fmu_def zero_fmu_def)
  moreover have "fm_adapter (demo_linked V) = Some (demo_adapter demo_fmu V)" "ready V (demo_adapter demo_fmu V)"
    "ad_inst (demo_adapter demo_fmu V) = Some demo_fmu"
    by (simp_all add: demo_linked_def demo_adapter_def ready_def)
  moreover have "length (fd_scalar (fm_data (demo_linked V))) = length (fm_signals (demo_linked V))"
    by (simp add: demo_linked_def)
  moreover have "\<forall>mg \<in> set (fd_mg_table (fm_data (demo_linked V))). scalar_group mg \<and> mg_kind mg = KindPrimitive"
    by (simp add: demo_linked_def demo_link_table_def scalar_group_def)
  ultimately show ?thesis unfolding linked_def by blast
qed

definition demo_vtable :: "((string \<times> vptr) list) default_fmu fmi2_vtable" where
  "demo_vtable = fmu_vtable ref_clib
     (fmu_load_signal_handlers ref_clib (ref_nclib (\<lambda>_. ''x'')) (\<lambda>_. None) demo_xpath (\<lambda>_. None)) default_fmu (\<lambda>_ _ _ _. Some demo_fmu)"

lemma demo_vtable_linked:
  "linked ref_clib (fmu_vtable ref_clib (fmu_load_signal_handlers ref_clib (ref_nclib (\<lambda>_. ''x'')) (\<lambda>_. None) demo_xpath (\<lambda>_. None))
     default_fmu (\<lambda>_ _ _ _. Some demo_fmu)) (demo_linked demo_vtable) demo_fmu"
  by (fold demo_vtable_def) (rule demo_linked_ok)

theorem mcl_marshal_out_reaches_fmu_witness:
  "\<exists>m1 g. fmi2mcl_marshal_out ref_marshal (demo_linked demo_vtable) = Some (0, m1) \<and> linked ref_clib demo_vtable m1 g \<and>
     load g (DScalar 0 0) = Some 5 \<and> load g (DScalar 0 1) = Some 6"
proof -
  let ?m = "demo_linked demo_vtable"
  have s: "sent (fm_signals ?m) (fd_scalar (fm_data ?m)) = [(1, 5), (2, 6)]"
    by (simp add: demo_linked_def sent_def sends_def demo_signal_def)
  from mcl_marshal_out_reaches_fmu [OF ref_out_ok demo_vtable_linked, folded demo_vtable_def] obtain m1 g where
    "fmi2mcl_marshal_out ref_marshal ?m = Some (0, m1)" "linked ref_clib demo_vtable m1 g" "load g = assign_inputs ref_clib demo_fmu [(1, 5), (2, 6)] (load demo_fmu)"
    unfolding s by metis
  then show ?thesis by (intro exI [of _ m1] exI [of _ g]) (simp add: assign_inputs_def demo_locs)
qed

theorem mcl_marshal_in_reads_fmu_witness:
  "\<exists>m1. fmi2mcl_marshal_in ref_marshal (demo_linked demo_vtable) = Some (0, m1) \<and>
     fd_scalar (fm_data m1) ! 0 = 7 \<and> fd_scalar (fm_data m1) ! 1 = 5"
proof -
  let ?m = "demo_linked demo_vtable"
  have v: "real_value ref_clib demo_fmu 3 = Some 7"
    by (simp add: real_value_def get_loc_def double_at_def demo_keys ref_clib_def demo_fmu_def load.simps demo_scalar_sv_def nth_opt_def)
  have m: "length (fm_signals ?m) = 3" "receives (fm_signals ?m ! 0)" "fs_vref (fm_signals ?m ! 0) = 3"
    "fs_dir (fm_signals ?m ! 1) = DirTxOnly" "fd_scalar (fm_data ?m) ! 1 = 5"
    by (simp_all add: demo_linked_def receives_def demo_signal_def)
  from mcl_marshal_in_reads_fmu [OF ref_in_ok demo_vtable_linked, folded demo_vtable_def] obtain m1 where
    r: "fmi2mcl_marshal_in ref_marshal ?m = Some (0, m1)"
    "\<And>i x. i < length (fm_signals ?m) \<Longrightarrow> receives (fm_signals ?m ! i) \<Longrightarrow>
       real_value ref_clib demo_fmu (fs_vref (fm_signals ?m ! i)) = Some x \<Longrightarrow> fd_scalar (fm_data m1) ! i = x"
    "\<And>i. i < length (fm_signals ?m) \<Longrightarrow> fs_dir (fm_signals ?m ! i) \<notin> {DirTxRx, DirRxOnly, DirLocal} \<Longrightarrow>
       fd_scalar (fm_data m1) ! i = fd_scalar (fm_data ?m) ! i" by blast
  from r(2) [of 0 7] r(3) [of 1] m v r(1) show ?thesis by simp
qed

end
