(* ===== verification/MclModel.thy ===== *)
theory MclModel
  imports MclFmu
begin

section \<open>The FMI MCL: creation and the model of ModelC (dse/fmimcl/fmimcl.c, dse/fmimcl/model.c)\<close>

text \<open>
  Creating an MCL reads the documents, installs the adapter and builds the marshal table. The
  model functions that ModelC calls go through ModelC's own \<open>mcl_load\<close>, \<open>mcl_init\<close>,
  \<open>mcl_marshal_out\<close>, \<open>mcl_step\<close>, \<open>mcl_marshal_in\<close> and \<open>mcl_unload\<close>, which are a parameter.
  \<open>None\<close> is a fault, \<open>Inl\<close> the end of the process by \<open>log_fatal\<close>.
\<close>

subsection \<open>Creation\<close>

definition fmimcl_adapter_create :: "('y, 'i adapter) fmu_model \<Rightarrow> (int \<times> ('y, 'i adapter) fmu_model) option" where
  "fmimcl_adapter_create m = do {
     adapter \<leftarrow> mc_adapter m;
     if adapter = ''fmi'' then do {
       version \<leftarrow> mc_version m;
       if take 3 version = ''2.0'' then Some (0, fmi2mcl_create m) else Some (- EINVAL_RC, m) }
     else Some (- EINVAL_RC, m) }"

text \<open>The result of \<open>mcl_create\<close>: a model, or the null pointer (\<open>Some None\<close>).\<close>

definition mcl_create ::
  "marshal_enums \<Rightarrow> 'y yaml \<Rightarrow> string \<Rightarrow> string \<Rightarrow> 'y option \<Rightarrow> ('y, 'i adapter) fmu_model option option" where
  "mcl_create E Y os arch doc = do {
     let m = zero_model\<lparr>fm_name := get_str Y doc ''metadata/name'' None\<rparr>;
     (rc, m1) \<leftarrow> fmimcl_adapter_create (fmimcl_parse E Y os arch m);
     if rc \<noteq> 0 then Some None
     else do {
       m2 \<leftarrow> fmimcl_generate_marshal_table E (fmimcl_allocate_source m1);
       Some (Some m2) } }"

definition fmimcl_destroy :: "('y, 'a) fmu_model option \<Rightarrow> ('y, 'a) fmu_model option" where
  "fmimcl_destroy m = map_option (\<lambda>m. m\<lparr>fm_signals := [], fm_data := zero_data\<rparr>) m"

definition mcl_destroy :: "('y, 'a) fmu_model option \<Rightarrow> ('y, 'a) fmu_model option" where
  "mcl_destroy model = fmimcl_destroy model"

subsection \<open>The model\<close>

record 's mcl_api =
  api_load :: "'s \<Rightarrow> (int \<times> 's) option"
  api_init :: "'s \<Rightarrow> (int \<times> 's) option"
  api_marshal_out :: "'s \<Rightarrow> (int \<times> 's) option"
  api_step :: "'s \<Rightarrow> f64 \<Rightarrow> (int \<times> 's) option"
  api_marshal_in :: "'s \<Rightarrow> (int \<times> 's) option"
  api_unload :: "'s \<Rightarrow> (int \<times> 's) option"

definition get_measurement_file_name :: "string \<Rightarrow> string option" where
  "get_measurement_file_name expanded = (if expanded = [] then None else Some expanded)"

definition measurement_count :: "marshal_kind list \<Rightarrow> nat" where
  "measurement_count kinds = length (takeWhile (\<lambda>k. k = KindPrimitive) kinds)"

text \<open>\<open>model_create\<close>: a failure to marshal the initial values is only logged.\<close>

definition model_create ::
  "('y, 'i adapter) fmu_model mcl_api \<Rightarrow> (string \<Rightarrow> bool) \<Rightarrow> string \<Rightarrow> ('y, 'i adapter) fmu_model option
     \<Rightarrow> (string + ('y, 'i adapter) fmu_model) option" where
  "model_create A fopen expanded created = do {
     m \<leftarrow> created;
     (rc, m1) \<leftarrow> api_load A m;
     if rc \<noteq> 0 then Some (Inl ''Could not load MCL'')
     else do {
       (rc, m2) \<leftarrow> api_init A m1;
       if rc \<noteq> 0 then Some (Inl ''Could not initiate MCL'')
       else do {
         let file = get_measurement_file_name expanded;
         let m3 = m2\<lparr>fm_file_name := file\<rparr>;
         case file of
           Some name \<Rightarrow>
             if \<not> fopen name then Some (Inl ''Failed to open measurement file'')
             else do {
               (rc, m4) \<leftarrow> api_marshal_in A (m3\<lparr>fm_file := True, fm_cg := Some (measurement_count (fd_kind (fm_data m3)))\<rparr>);
               Some (Inr m4) }
         | None \<Rightarrow> do { (rc, m4) \<leftarrow> api_marshal_in A m3; Some (Inr m4) } } } }"

definition model_step ::
  "('y, 'i adapter) fmu_model mcl_api \<Rightarrow> ('y, 'i adapter) fmu_model \<Rightarrow> f64 \<Rightarrow> f64
     \<Rightarrow> (int \<times> ('y, 'i adapter) fmu_model \<times> f64) option" where
  "model_step A m model_time stop_time = do {
     let m0 = (if fm_file m then m\<lparr>fm_records := fm_records m @ [model_time]\<rparr> else m);
     (rc, m1) \<leftarrow> api_marshal_out A m0;
     if rc \<noteq> 0 then Some (rc, m1, model_time)
     else do {
       (rc, m2) \<leftarrow> api_step A m1 stop_time;
       if rc \<noteq> 0 then Some (rc, m2, model_time)
       else do {
         (rc, m3) \<leftarrow> api_marshal_in A m2;
         if rc \<noteq> 0 then Some (rc, m3, model_time) else Some (0, m3, stop_time) } } }"

definition model_destroy ::
  "('y, 'i adapter) fmu_model mcl_api \<Rightarrow> ('y, 'i adapter) fmu_model \<Rightarrow> (string + ('y, 'i adapter) fmu_model option) option" where
  "model_destroy A m = do {
     let m1 = m\<lparr>fm_file := False, fm_file_name := None, fm_cg := None\<rparr>;
     (rc, m2) \<leftarrow> api_unload A m1;
     if rc \<noteq> 0 then Some (Inl ''Could not unload MCL'') else Some (Inr (mcl_destroy (Some m2))) }"

subsection \<open>What creation establishes\<close>

lemma parse_fields:
  "fm_adapter (fmimcl_parse E Y os arch m) = fm_adapter m" "fm_data (fmimcl_parse E Y os arch m) = fm_data m"
  by (simp_all add: fmimcl_parse_def Let_def model_match_handler_def split: option.split)

text \<open>
  C19: \<open>mcl_create\<close> yields a model exactly for the adapter \<open>fmi\<close> with a version starting with 2.0,
  and the null pointer for any other named adapter or version; a created model has the adapter
  installed, one storage cell and kind per signal in the order of the sorted signals, and a
  marshal table that tiles the storage.
\<close>

theorem mcl_create_model:
  fixes P :: "('y, 'i adapter) fmu_model"
  assumes "enums_ok E" "P = fmimcl_parse E Y os arch (zero_model\<lparr>fm_name := get_str Y doc ''metadata/name'' None\<rparr>)"
    "mc_adapter P = Some ad" "mc_version P = Some ver" "sizes_fit E (fm_signals P)"
  shows "if ad = ''fmi'' \<and> take 3 ver = ''2.0''
    then \<exists>m :: ('y, 'i adapter) fmu_model. mcl_create E Y os arch doc = Some (Some m) \<and> mc_vtable m \<and> fm_adapter m \<noteq> None \<and> fm_signals m = fm_signals P \<and>
      sorted (map (group_rank E) (fm_signals m)) \<and> fd_kind (fm_data m) = map fs_kind (fm_signals m) \<and>
      length (fd_scalar (fm_data m)) = length (fm_signals m) \<and> tiles (fd_mg_table (fm_data m)) 0 (fm_signals m)
    else mcl_create E Y os arch doc = Some (None :: ('y, 'i adapter) fmu_model option)"
proof (cases "ad = ''fmi'' \<and> take 3 ver = ''2.0''")
  case True
  let ?m1 = "fmimcl_allocate_source (fmi2mcl_create P)"
  have c: "fmimcl_adapter_create P = Some (0, fmi2mcl_create P)"
    using True assms(3,4) by (simp add: fmimcl_adapter_create_def)
  have s: "fm_signals ?m1 = fm_signals P" by (simp add: fmimcl_allocate_source_def fmi2mcl_create_def Let_def)
  with generate_run [of E ?m1] assms(5) obtain t where
    t: "fmimcl_generate_marshal_table E ?m1 = Some (?m1\<lparr>fm_data := (fm_data ?m1)\<lparr>fd_mg_table := t\<rparr>\<rparr>)" "tiles t 0 (fm_signals P)" by auto
  have "sorted (map (group_rank E) (fm_signals P))" unfolding assms(2) parse_signals [OF assms(1)] by simp
  with t c True show ?thesis
    by (simp add: mcl_create_def assms(2) [symmetric])
      (simp add: fmimcl_allocate_source_def fmi2mcl_create_def Let_def count_signals_def)
next
  case False
  then have "fmimcl_adapter_create P = Some (- EINVAL_RC, P)"
    using assms(3,4) by (simp add: fmimcl_adapter_create_def)
  then have "mcl_create E Y os arch doc = Some (None :: ('y, 'i adapter) fmu_model option)"
    by (simp add: mcl_create_def assms(2) [symmetric] EINVAL_RC_def)
  with False show ?thesis by simp
qed

theorem mcl_create_model_witness:
  "\<exists>m :: (nat, nat adapter) fmu_model. mcl_create ref_enums demo_yaml ''linux'' ''amd64'' (Some 0) = Some (Some m) \<and> tiles (fd_mg_table (fm_data m)) 0 (fm_signals m) \<and>
     length (fm_signals m) = 4"
proof -
  let ?P = "fmimcl_parse ref_enums demo_yaml ''linux'' ''amd64'' ((zero_model :: (nat, nat adapter) fmu_model)\<lparr>fm_name := get_str demo_yaml (Some 0) ''metadata/name'' None\<rparr>)"
  have a: "mc_adapter ?P = Some ''fmi''" "mc_version ?P = Some ''2.0.3''"
    by (simp_all add: fmimcl_parse_def Let_def model_match_handler_def demo_yaml_def get_str_def)
  have l: "length (fm_signals ?P) = 4"
    using arg_cong [OF demo_yaml_signals [of "''linux''" "''amd64''" "(zero_model :: (nat, nat adapter) fmu_model)\<lparr>fm_name := get_str demo_yaml (Some 0) ''metadata/name'' None\<rparr>"], of length] by (simp add: eval_nat_numeral)
  from mcl_create_model [OF ref_enums_ok refl a demo_yaml_fit] l show ?thesis by auto
qed

subsection \<open>The measurement\<close>

text \<open>
  The channel group of the measurement covers every primitive signal when all signals of
  the (sorted) model have a known type, and none at all when the first one has not: the
  unknown kind sorts before the primitive kind, so one signal without a type annotation
  silently empties the measurement.
\<close>

theorem measurement_covers:
  assumes "sorted (map (group_rank E) ss)" "kind_no E KindNone < kind_no E KindPrimitive" "kind_no E KindPrimitive < kind_no E KindBinary"
  shows "measurement_count (map fs_kind ss) =
    (if KindNone \<in> set (map fs_kind ss) then 0 else length (filter (\<lambda>s. fs_kind s = KindPrimitive) ss))"
  using assms
proof (induction ss)
  case (Cons s ss)
  have le: "\<forall>t \<in> set ss. kind_no E (fs_kind s) \<le> kind_no E (fs_kind t)"
    using Cons.prems(1) by (auto simp: group_rank_def less_eq_prod_def less_prod_def)
  show ?case
  proof (cases "fs_kind s")
    case KindNone
    then show ?thesis by (simp add: measurement_count_def)
  next
    case KindPrimitive
    with le assms(2) have "KindNone \<notin> set (map fs_kind ss)" by fastforce
    with KindPrimitive Cons show ?thesis by (simp add: measurement_count_def)
  next
    case KindBinary
    with le assms(2,3) have "\<forall>t \<in> set ss. fs_kind t \<noteq> KindNone \<and> fs_kind t \<noteq> KindPrimitive" by fastforce
    then have "KindNone \<notin> set (map fs_kind (s # ss))" "filter (\<lambda>s. fs_kind s = KindPrimitive) ss = []"
      using KindBinary by (auto simp: filter_empty_conv)
    with KindBinary show ?thesis by (simp add: measurement_count_def)
  qed
qed (simp add: measurement_count_def)

theorem measurement_covers_witness:
  "measurement_count (map fs_kind (fm_signals demo_model)) = 3"
proof -
  have "sorted (map (group_rank ref_enums) (fm_signals demo_model))"
    by (simp add: demo_model_signals group_rank_def demo_signal_def ref_enums_def)
  from measurement_covers [OF this] show ?thesis
    by (simp add: ref_enums_def demo_model_signals demo_signal_def)
qed

subsection \<open>Stepping\<close>

text \<open>
  \<open>model_step\<close> advances the model time to the stop time exactly when all three calls
  returned 0, and then returns 0; otherwise it returns the code of the first call that failed,
  makes no later call and leaves the model time.
\<close>

theorem model_step_advances:
  assumes "m0 = (if fm_file m then m\<lparr>fm_records := fm_records m @ [now]\<rparr> else m)"
    "api_marshal_out A m0 = Some (r1, m1)" "api_step A m1 stop = Some (r2, m2)" "api_marshal_in A m2 = Some (r3, m3)"
  shows "model_step A m now stop = Some (
    if r1 \<noteq> 0 then (r1, m1, now) else if r2 \<noteq> 0 then (r2, m2, now) else if r3 \<noteq> 0 then (r3, m3, now) else (0, m3, stop))"
  using assms(2-4) by (simp add: model_step_def assms(1) [symmetric])

definition demo_api :: "int \<Rightarrow> ('y, 'i adapter) fmu_model mcl_api" where
  "demo_api rc = \<lparr>api_load = (\<lambda>m. Some (0, m)), api_init = (\<lambda>m. Some (0, m)), api_marshal_out = (\<lambda>m. Some (0, m)),
     api_step = (\<lambda>m t. Some (rc, m)), api_marshal_in = (\<lambda>m. Some (0, m)), api_unload = (\<lambda>m. Some (0, m))\<rparr>"

theorem model_step_advances_witness:
  "model_step (demo_api 74) (zero_model :: (nat, nat adapter) fmu_model) 3 4 = Some (74, zero_model, 3) \<and>
     model_step (demo_api 0) (zero_model :: (nat, nat adapter) fmu_model) 3 4 = Some (0, zero_model, 4)"
proof -
  have z: "zero_model = (if fm_file zero_model then zero_model\<lparr>fm_records := fm_records zero_model @ [3]\<rparr> else zero_model :: (nat, nat adapter) fmu_model)"
    by (simp add: zero_model_def)
  have d: "api_marshal_out (demo_api rc) m = Some (0, m)" "api_step (demo_api rc) m t = Some (rc, m)" "api_marshal_in (demo_api rc) m = Some (0, m)"
    for rc m t by (simp_all add: demo_api_def)
  show ?thesis
    using model_step_advances [OF z d(1) d(2) d(3), of 74 4] model_step_advances [OF z d(1) d(2) d(3), of 0 4] by simp
qed

end
