(* ===== verification/Fmi2Example.thy ===== *)
theory Fmi2Example
  imports MclFmu
begin

section \<open>The FMI 2 example FMU of the MCL (dse/fmimcl/examples/fmi2fmu/fmi2fmu.c)\<close>

text \<open>
  The FMU on which the MCL is tried out, written directly against FMI 2: one hash map from
  references to values that it owns. The map is a parameter (\<open>value_map\<close>); a value is a double,
  a long or a string, and a read through a pointer of another type is undefined (\<open>None\<close>), except
  that an int is read from and written to the low half of a long, as on a little endian machine.
  A write through the pointer that \<open>hashmap_get\<close> returned is a write to the map.
\<close>

subsection \<open>The map of values\<close>

datatype cell = CellDouble f64 | CellLong u64 | CellText bytes

record 'm value_map =
  vm_init :: 'm
  vm_get :: "'m \<Rightarrow> string \<Rightarrow> cell option"
  vm_set :: "'m \<Rightarrow> string \<Rightarrow> cell \<Rightarrow> 'm"
  vm_remove :: "'m \<Rightarrow> string \<Rightarrow> 'm"

definition value_map_ok :: "'m value_map \<Rightarrow> bool" where
  "value_map_ok V \<longleftrightarrow> (\<forall>k. vm_get V (vm_init V) k = None) \<and>
     (\<forall>m k x j. vm_get V (vm_set V m k x) j = (if j = k then Some x else vm_get V m j)) \<and>
     (\<forall>m k j. vm_get V (vm_remove V m k) j = (if j = k then None else vm_get V m j))"

definition ref_value_map :: "(string \<times> cell) list value_map" where
  "ref_value_map = \<lparr>vm_init = [], vm_get = map_of, vm_set = (\<lambda>m k x. (k, x) # m), vm_remove = (\<lambda>m k. filter (\<lambda>(j, _). j \<noteq> k) m)\<rparr>"

lemma ref_value_map_ok: "value_map_ok ref_value_map"
proof -
  have "map_of (filter (\<lambda>(j, _). j \<noteq> k) m) j = (if j = k then None else map_of m j)" for m :: "(string \<times> cell) list" and k j
    by (induction m) auto
  then show ?thesis by (simp add: value_map_ok_def ref_value_map_def)
qed

lemma value_map_okD:
  assumes "value_map_ok V"
  shows "vm_get V (vm_init V) k = None"
    and "vm_get V (vm_set V m k x) j = (if j = k then Some x else vm_get V m j)"
    and "vm_get V (vm_remove V m k) j = (if j = k then None else vm_get V m j)"
  using assms by (simp_all add: value_map_ok_def)

text \<open>Access through \<open>double*\<close>, \<open>int*\<close> and \<open>char*\<close>.\<close>

definition double_in :: "'m value_map \<Rightarrow> 'm \<Rightarrow> string \<Rightarrow> f64 option" where
  "double_in V m k = (case vm_get V m k of Some (CellDouble x) \<Rightarrow> Some x | _ \<Rightarrow> None)"

definition int_in :: "'m value_map \<Rightarrow> 'm \<Rightarrow> string \<Rightarrow> u32 option" where
  "int_in V m k = (case vm_get V m k of Some (CellLong w) \<Rightarrow> Some (ucast w) | _ \<Rightarrow> None)"

definition text_in :: "'m value_map \<Rightarrow> 'm \<Rightarrow> string \<Rightarrow> bytes option option" where
  "text_in V m k = (case vm_get V m k of None \<Rightarrow> Some None | Some (CellText s) \<Rightarrow> Some (Some s) | _ \<Rightarrow> None)"

definition put_double :: "'m value_map \<Rightarrow> 'm \<Rightarrow> string \<Rightarrow> f64 \<Rightarrow> 'm option" where
  "put_double V m k x = (case vm_get V m k of Some (CellDouble _) \<Rightarrow> Some (vm_set V m k (CellDouble x)) | _ \<Rightarrow> None)"

definition put_int :: "'m value_map \<Rightarrow> 'm \<Rightarrow> string \<Rightarrow> u32 \<Rightarrow> 'm option" where
  "put_int V m k n = (case vm_get V m k of
     Some (CellLong w) \<Rightarrow> Some (vm_set V m k (CellLong (or (and w 0xFFFFFFFF00000000) (ucast n)))) | _ \<Rightarrow> None)"

subsection \<open>The instance\<close>

record 'm fmu2_data =
  ex_name :: "string option"
  ex_cosim :: bool
  ex_resources :: "string option"
  ex_guid :: "string option"
  ex_log_enabled :: bool
  ex_var :: 'm

definition example_key :: "u32 \<Rightarrow> string" where
  "example_key v = snprintf 64 (fmt_i v)"

definition initial_cells :: "(string \<times> cell) list" where
  "initial_cells = [(''0'', CellDouble 0), (''1'', CellDouble 0), (''2'', CellLong 0), (''3'', CellLong 0), (''4'', CellLong 0),
     (''5'', CellDouble 0), (''6'', CellLong 0), (''7'', CellLong 0), (''8'', CellDouble 0), (''9'', CellDouble 0),
     (''10'', CellDouble 0), (''11'', CellDouble 0), (''12'', CellDouble 0)]"

definition text_keys :: "string list" where
  "text_keys = [''100'', ''101'', ''102'', ''103'']"

text \<open>The callbacks, when given: whether they have \<open>allocateMemory\<close> and \<open>freeMemory\<close>.\<close>

definition example_instantiate ::
  "'m value_map \<Rightarrow> string option \<Rightarrow> bool \<Rightarrow> string option \<Rightarrow> string option \<Rightarrow> (bool \<times> bool) option \<Rightarrow> bool \<Rightarrow> 'm fmu2_data option" where
  "example_instantiate V name cosim guid loc callbacks logging =
    (if callbacks \<noteq> Some (True, True) then None
     else Some \<lparr>ex_name = name, ex_cosim = cosim, ex_resources = loc, ex_guid = guid, ex_log_enabled = logging,
       ex_var = foldl (vm_remove V) (foldl (\<lambda>m (k, x). vm_set V m k x) (vm_init V) initial_cells) text_keys\<rparr>)"

definition example_setup_experiment :: "'m fmu2_data option \<Rightarrow> fmi_status" where
  "example_setup_experiment c = (if c = None then FmiFatal else FmiOK)"

definition example_enter_initialization :: "'m fmu2_data option \<Rightarrow> fmi_status option" where
  "example_enter_initialization c = (if c = None then None else Some FmiOK)"

definition example_exit_initialization :: "'m fmu2_data option \<Rightarrow> fmi_status" where
  "example_exit_initialization c = (if c = None then FmiFatal else FmiOK)"

definition example_terminate :: "'m fmu2_data option \<Rightarrow> fmi_status" where
  "example_terminate c = FmiOK"

subsection \<open>Variables\<close>

text \<open>The loops over the references; the arrays of the caller have to be long enough.\<close>

fun get_cells :: "(string \<Rightarrow> 'v option) \<Rightarrow> u32 list \<Rightarrow> 'v list \<Rightarrow> 'v list option" where
  "get_cells rd [] xs = Some xs"
| "get_cells rd (v # vr) [] = None"
| "get_cells rd (v # vr) (x # xs) = do { y \<leftarrow> rd (example_key v); ys \<leftarrow> get_cells rd vr xs; Some (y # ys) }"

fun set_cells :: "('m \<Rightarrow> string \<Rightarrow> 'v \<Rightarrow> 'm) \<Rightarrow> 'm \<Rightarrow> u32 list \<Rightarrow> 'v list \<Rightarrow> 'm option" where
  "set_cells put m [] xs = Some m"
| "set_cells put m (v # vr) [] = None"
| "set_cells put m (v # vr) (x # xs) = set_cells put (put m (example_key v) x) vr xs"

definition example_get_real :: "'m value_map \<Rightarrow> 'm fmu2_data \<Rightarrow> u32 list \<Rightarrow> f64 list \<Rightarrow> (fmi_status \<times> f64 list) option" where
  "example_get_real V f vr xs = do { ys \<leftarrow> get_cells (double_in V (ex_var f)) vr xs; Some (FmiOK, ys) }"

definition example_get_integer :: "'m value_map \<Rightarrow> 'm fmu2_data \<Rightarrow> u32 list \<Rightarrow> u32 list \<Rightarrow> (fmi_status \<times> u32 list) option" where
  "example_get_integer V f vr ns = do { ys \<leftarrow> get_cells (int_in V (ex_var f)) vr ns; Some (FmiOK, ys) }"

definition example_get_boolean :: "'m value_map \<Rightarrow> 'm fmu2_data \<Rightarrow> u32 list \<Rightarrow> u32 list \<Rightarrow> (fmi_status \<times> u32 list) option" where
  "example_get_boolean V f vr ns = do { ys \<leftarrow> get_cells (int_in V (ex_var f)) vr ns; Some (FmiOK, ys) }"

text \<open>An empty string is read as a null pointer.\<close>

definition null_if_empty :: "bytes \<Rightarrow> bytes option" where
  "null_if_empty s = (if s = [] then None else Some s)"

definition shown_text :: "'m value_map \<Rightarrow> 'm \<Rightarrow> string \<Rightarrow> bytes option option" where
  "shown_text V m k = do { t \<leftarrow> text_in V m k; Some (Option.bind t null_if_empty) }"

definition example_get_string ::
  "'m value_map \<Rightarrow> 'm fmu2_data \<Rightarrow> u32 list \<Rightarrow> bytes option list \<Rightarrow> (fmi_status \<times> bytes option list) option" where
  "example_get_string V f vr ss = do { ys \<leftarrow> get_cells (shown_text V (ex_var f)) vr ss; Some (FmiOK, ys) }"

definition example_set ::
  "('m \<Rightarrow> string \<Rightarrow> 'v \<Rightarrow> 'm) \<Rightarrow> 'm fmu2_data \<Rightarrow> u32 list \<Rightarrow> 'v list \<Rightarrow> (fmi_status \<times> 'm fmu2_data) option" where
  "example_set put f vr xs = do { m \<leftarrow> set_cells put (ex_var f) vr xs; Some (FmiOK, f\<lparr>ex_var := m\<rparr>) }"

definition example_set_real :: "'m value_map \<Rightarrow> 'm fmu2_data \<Rightarrow> u32 list \<Rightarrow> f64 list \<Rightarrow> (fmi_status \<times> 'm fmu2_data) option" where
  "example_set_real V = example_set (\<lambda>m k x. vm_set V m k (CellDouble x))"

text \<open>\<open>hashmap_set_long\<close> extends the sign of the int.\<close>

definition example_set_integer :: "'m value_map \<Rightarrow> 'm fmu2_data \<Rightarrow> u32 list \<Rightarrow> u32 list \<Rightarrow> (fmi_status \<times> 'm fmu2_data) option" where
  "example_set_integer V = example_set (\<lambda>m k n. vm_set V m k (CellLong (scast n)))"

definition example_set_boolean :: "'m value_map \<Rightarrow> 'm fmu2_data \<Rightarrow> u32 list \<Rightarrow> u32 list \<Rightarrow> (fmi_status \<times> 'm fmu2_data) option" where
  "example_set_boolean V = example_set (\<lambda>m k n. vm_set V m k (CellLong (scast n)))"

definition example_set_string :: "'m value_map \<Rightarrow> 'm fmu2_data \<Rightarrow> u32 list \<Rightarrow> bytes option list \<Rightarrow> (fmi_status \<times> 'm fmu2_data) option" where
  "example_set_string V = example_set (\<lambda>m k t. case t of Some s \<Rightarrow> vm_set V m k (CellText s) | None \<Rightarrow> vm_remove V m k)"

subsection \<open>The step\<close>

text \<open>
  The sum of doubles and the conversion of an int are parameters; a sum of ints that does not
  fit is undefined.
\<close>

record double_ops =
  dbl_add :: "f64 \<Rightarrow> f64 \<Rightarrow> f64"
  dbl_of_int :: "int \<Rightarrow> f64"

definition add_int :: "int \<Rightarrow> int \<Rightarrow> int option" where
  "add_int a b = (if - (2 ^ 31) \<le> a + b \<and> a + b < 2 ^ 31 then Some (a + b) else None)"

definition step_double :: "double_ops \<Rightarrow> 'm value_map \<Rightarrow> 'm \<Rightarrow> 'm option" where
  "step_double D V m = do {
     x0 \<leftarrow> double_in V m ''0''; x1 \<leftarrow> double_in V m ''1'';
     put_double V m ''1'' (dbl_add D (dbl_add D x0 x1) (dbl_of_int D 1)) }"

definition step_integer :: "'m value_map \<Rightarrow> 'm \<Rightarrow> 'm option" where
  "step_integer V m = do {
     n2 \<leftarrow> int_in V m ''2''; n3 \<leftarrow> int_in V m ''3'';
     s \<leftarrow> add_int (sint n2) (sint n3); n \<leftarrow> add_int s 1;
     put_int V m ''3'' (word_of_int n) }"

definition step_boolean :: "'m value_map \<Rightarrow> 'm \<Rightarrow> 'm option" where
  "step_boolean V m = do {
     b6 \<leftarrow> int_in V m ''6'';
     put_int V m ''7'' (if b6 = 1 then 1 else 0) }"

definition step_shared :: "double_ops \<Rightarrow> 'm value_map \<Rightarrow> 'm \<Rightarrow> 'm option" where
  "step_shared D V m = do {
     x8 \<leftarrow> double_in V m ''8''; x9 \<leftarrow> double_in V m ''9'';
     m1 \<leftarrow> put_double V m ''10'' (dbl_add D x8 (dbl_of_int D 10));
     put_double V m1 ''11'' (dbl_add D x9 (dbl_of_int D 100)) }"

definition step_count :: "double_ops \<Rightarrow> 'm value_map \<Rightarrow> 'm \<Rightarrow> 'm option" where
  "step_count D V m = do {
     n4 \<leftarrow> int_in V m ''4''; n \<leftarrow> add_int (sint n4) 1;
     m1 \<leftarrow> put_int V m ''4'' (word_of_int n);
     l \<leftarrow> add_int 12000 n;
     put_double V m1 ''12'' (dbl_of_int D l) }"

definition step_numbers :: "double_ops \<Rightarrow> 'm value_map \<Rightarrow> 'm \<Rightarrow> 'm option" where
  "step_numbers D V m = do {
     m1 \<leftarrow> step_double D V m; m2 \<leftarrow> step_integer V m1; m3 \<leftarrow> step_boolean V m2;
     m4 \<leftarrow> step_shared D V m3; step_count D V m4 }"

definition move_text :: "'m value_map \<Rightarrow> 'm \<Rightarrow> 'm option" where
  "move_text V m = do {
     t \<leftarrow> text_in V m ''100'';
     Some (case t of None \<Rightarrow> m | Some s \<Rightarrow> vm_remove V (vm_set V m ''101'' (CellText s)) ''100'') }"

text \<open>
  The loop over \<open>head\<close> and \<open>tail\<close>; \<open>e\<close> is the index after \<open>tail\<close>, so that the start of an empty
  string needs no index before it.
\<close>

function swap_ends :: "nat \<Rightarrow> nat \<Rightarrow> bytes \<Rightarrow> bytes" where
  "swap_ends h e s = (if h + 1 < e then swap_ends (h + 1) (e - 1) (s[h := s ! (e - 1), e - 1 := s ! h]) else s)"
  by pat_completeness auto
termination by (relation "measure (\<lambda>(h, e, s). e - h)") auto

declare swap_ends.simps [simp del]

definition c_strlen :: "bytes \<Rightarrow> nat" where
  "c_strlen s = length (takeWhile (\<lambda>b. b \<noteq> 0) s)"

definition reverse_text :: "'c clib \<Rightarrow> 'm value_map \<Rightarrow> 'm \<Rightarrow> 'm option" where
  "reverse_text L V m = do {
     t \<leftarrow> text_in V m ''102'';
     Some (case t of None \<Rightarrow> m | Some s \<Rightarrow>
       (let d = ascii85_decode L s
        in vm_remove V (vm_set V m ''103'' (CellText (ascii85_encode L (swap_ends 0 (c_strlen d) d)))) ''102'')) }"

definition example_do_step ::
  "'c clib \<Rightarrow> double_ops \<Rightarrow> 'm value_map \<Rightarrow> 'm fmu2_data \<Rightarrow> f64 \<Rightarrow> f64 \<Rightarrow> (fmi_status \<times> 'm fmu2_data) option" where
  "example_do_step L D V f point step_size = do {
     m1 \<leftarrow> step_numbers D V (ex_var f);
     m2 \<leftarrow> move_text V m1;
     m3 \<leftarrow> reverse_text L V m2;
     Some (FmiOK, f\<lparr>ex_var := m3\<rparr>) }"

subsection \<open>Types of the variables\<close>

datatype cell_ty = TyDouble | TyLong | TyText

fun cell_type :: "cell \<Rightarrow> cell_ty" where
  "cell_type (CellDouble _) = TyDouble" | "cell_type (CellLong _) = TyLong" | "cell_type (CellText _) = TyText"

definition example_types :: "(string \<times> cell_ty) list" where
  "example_types = map (\<lambda>(k, x). (k, cell_type x)) initial_cells @ map (\<lambda>k. (k, TyText)) text_keys"

fun of_type :: "cell_ty \<Rightarrow> cell option \<Rightarrow> bool" where
  "of_type t None \<longleftrightarrow> t = TyText"
| "of_type t (Some x) \<longleftrightarrow> cell_type x = t"

definition typed :: "'m value_map \<Rightarrow> 'm \<Rightarrow> bool" where
  "typed V m \<longleftrightarrow> (\<forall>k t. map_of example_types k = Some t \<longrightarrow> of_type t (vm_get V m k))"

definition refs_typed :: "cell_ty \<Rightarrow> u32 set" where
  "refs_typed t = {v. map_of example_types (example_key v) = Some t}"

lemma types_eqs:
  "map_of example_types ''0'' = Some TyDouble" "map_of example_types ''1'' = Some TyDouble"
  "map_of example_types ''2'' = Some TyLong" "map_of example_types ''3'' = Some TyLong" "map_of example_types ''4'' = Some TyLong"
  "map_of example_types ''6'' = Some TyLong" "map_of example_types ''7'' = Some TyLong"
  "map_of example_types ''8'' = Some TyDouble" "map_of example_types ''9'' = Some TyDouble"
  "map_of example_types ''10'' = Some TyDouble" "map_of example_types ''11'' = Some TyDouble" "map_of example_types ''12'' = Some TyDouble"
  "map_of example_types ''100'' = Some TyText" "map_of example_types ''101'' = Some TyText"
  "map_of example_types ''102'' = Some TyText" "map_of example_types ''103'' = Some TyText"
  by (simp_all add: example_types_def initial_cells_def text_keys_def)

lemma typed_set:
  assumes "value_map_ok V" "typed V m" "map_of example_types k = Some (cell_type x)"
  shows "typed V (vm_set V m k x)"
  using assms(2,3) by (simp add: typed_def value_map_okD [OF assms(1)])

lemma typed_remove:
  assumes "value_map_ok V" "typed V m" "map_of example_types k = Some TyText"
  shows "typed V (vm_remove V m k)"
  using assms(2,3) by (simp add: typed_def value_map_okD [OF assms(1)])

lemma cell_type_eq [simp]:
  "cell_type c = TyDouble \<longleftrightarrow> (\<exists>x. c = CellDouble x)" "cell_type c = TyLong \<longleftrightarrow> (\<exists>w. c = CellLong w)"
  "cell_type c = TyText \<longleftrightarrow> (\<exists>s. c = CellText s)"
  by (cases c, simp_all)+

lemma of_type_eq:
  "of_type TyDouble o' \<longleftrightarrow> (\<exists>x. o' = Some (CellDouble x))" "of_type TyLong o' \<longleftrightarrow> (\<exists>w. o' = Some (CellLong w))"
  "of_type TyText o' \<longleftrightarrow> o' = None \<or> (\<exists>s. o' = Some (CellText s))"
  by (cases o', simp_all)+

lemma typedD: "typed V m \<Longrightarrow> map_of example_types k = Some t \<Longrightarrow> of_type t (vm_get V m k)"
  by (simp add: typed_def)

lemma double_in_typed: "typed V m \<Longrightarrow> map_of example_types k = Some TyDouble \<Longrightarrow> \<exists>x. vm_get V m k = Some (CellDouble x) \<and> double_in V m k = Some x"
  by (drule (1) typedD) (auto simp: of_type_eq double_in_def)

lemma int_in_typed: "typed V m \<Longrightarrow> map_of example_types k = Some TyLong \<Longrightarrow> \<exists>w. vm_get V m k = Some (CellLong w) \<and> int_in V m k = Some (ucast w)"
  by (drule (1) typedD) (auto simp: of_type_eq int_in_def)

lemma text_in_typed: "typed V m \<Longrightarrow> map_of example_types k = Some TyText \<Longrightarrow> \<exists>t. text_in V m k = Some t"
  by (drule (1) typedD) (auto simp: of_type_eq text_in_def)

lemma instantiate_typed:
  assumes "value_map_ok V"
  shows "\<exists>f. example_instantiate V name cosim guid loc (Some (True, True)) logging = Some f \<and> typed V (ex_var f)"
proof -
  have "of_type t (vm_get V (foldl (vm_remove V) (foldl (\<lambda>m (k, x). vm_set V m k x) (vm_init V) initial_cells) text_keys) k)"
    if "map_of example_types k = Some t" for k t
    using that by (simp add: example_types_def initial_cells_def text_keys_def value_map_okD [OF assms] split: if_splits)
  then show ?thesis by (simp add: example_instantiate_def typed_def)
qed

lemma get_cells_run:
  "(\<And>v. v \<in> set vr \<Longrightarrow> \<exists>y. rd (example_key v) = Some y) \<Longrightarrow> length xs = length vr \<Longrightarrow>
     \<exists>ys. get_cells rd vr xs = Some ys \<and> length ys = length vr"
proof (induction rd vr xs rule: get_cells.induct)
  case (3 rd v vr x xs)
  from 3(2) [of v] obtain y where "rd (example_key v) = Some y" by auto
  with 3 show ?case by fastforce
qed simp_all

lemma set_cells_run:
  "P m \<Longrightarrow> (\<And>m v x. P m \<Longrightarrow> v \<in> set vr \<Longrightarrow> P (put m (example_key v) x)) \<Longrightarrow> length xs = length vr \<Longrightarrow>
     \<exists>m1. set_cells put m vr xs = Some m1 \<and> P m1"
proof (induction put m vr xs rule: set_cells.induct)
  case (3 put m v vr x xs)
  from 3(3) [OF 3(2), of v x] have "P (put m (example_key v) x)" by simp
  from 3(1) [OF this] 3(3,4) show ?case by simp
qed simp_all

subsection \<open>What a step does\<close>

lemma swap_ends_rev: "swap_ends (length xs) (length xs + length ys) (xs @ ys @ zs) = xs @ rev ys @ zs"
proof (induction "length ys" arbitrary: xs ys zs rule: less_induct)
  case less
  show ?case
  proof (cases "length ys \<le> 1")
    case True
    then have "rev ys = ys" by (cases ys) simp_all
    with True show ?thesis by (subst swap_ends.simps) simp
  next
    case False
    then obtain x us where "ys = x # us" "us \<noteq> []" by (cases ys) auto
    then obtain vs y where ys: "ys = x # vs @ [y]" by (cases us rule: rev_cases) auto
    let ?s = "xs @ ys @ zs"
    have "?s ! (length xs + length ys - 1) = y" "?s ! length xs = x"
      by (simp_all add: ys nth_append)
    then have "?s[length xs := ?s ! (length xs + length ys - 1), length xs + length ys - 1 := ?s ! length xs] = (xs @ [y]) @ vs @ (x # zs)"
      by (simp add: ys list_update_append)
    moreover have "swap_ends (length (xs @ [y])) (length (xs @ [y]) + length vs) ((xs @ [y]) @ vs @ (x # zs)) = (xs @ [y]) @ rev vs @ x # zs"
      by (rule less) (simp add: ys)
    ultimately show ?thesis using False by (subst swap_ends.simps) (simp add: ys)
  qed
qed

lemma swap_ends_reverses:
  "swap_ends 0 (c_strlen d) d = rev (takeWhile (\<lambda>b. b \<noteq> 0) d) @ dropWhile (\<lambda>b. b \<noteq> 0) d"
  using swap_ends_rev [of "[]" "takeWhile (\<lambda>b. b \<noteq> 0) d" "dropWhile (\<lambda>b. b \<noteq> 0) d"] by (simp add: c_strlen_def)

text \<open>The sums of ints of a step fit.\<close>

definition step_fits :: "'m value_map \<Rightarrow> 'm \<Rightarrow> bool" where
  "step_fits V m = (case (int_in V m ''2'', int_in V m ''3'', int_in V m ''4'') of
     (Some a, Some b, Some c) \<Rightarrow> do { s \<leftarrow> add_int (sint a) (sint b); add_int s 1 } \<noteq> None \<and> sint c + 12001 < 2 ^ 31 | _ \<Rightarrow> False)"

lemma step_numbers_run:
  assumes "value_map_ok V" "typed V m" "step_fits V m"
  shows "\<exists>x1 n3 n7 x10 x11 n4 x12. step_numbers D V m =
    Some (vm_set V (vm_set V (vm_set V (vm_set V (vm_set V (vm_set V (vm_set V m ''1'' (CellDouble x1)) ''3'' (CellLong n3))
       ''7'' (CellLong n7)) ''10'' (CellDouble x10)) ''11'' (CellDouble x11)) ''4'' (CellLong n4)) ''12'' (CellDouble x12))"
proof -
  note get = value_map_okD [OF assms(1)]
  from double_in_typed [OF assms(2) types_eqs(1)] double_in_typed [OF assms(2) types_eqs(2)] double_in_typed [OF assms(2) types_eqs(8)]
    double_in_typed [OF assms(2) types_eqs(9)] double_in_typed [OF assms(2) types_eqs(10)] double_in_typed [OF assms(2) types_eqs(11)]
    double_in_typed [OF assms(2) types_eqs(12)]
  obtain x0 x1 x8 x9 x10 x11 x12 where d: "vm_get V m ''0'' = Some (CellDouble x0)" "vm_get V m ''1'' = Some (CellDouble x1)"
    "vm_get V m ''8'' = Some (CellDouble x8)" "vm_get V m ''9'' = Some (CellDouble x9)" "vm_get V m ''10'' = Some (CellDouble x10)"
    "vm_get V m ''11'' = Some (CellDouble x11)" "vm_get V m ''12'' = Some (CellDouble x12)" by blast
  from int_in_typed [OF assms(2) types_eqs(3)] int_in_typed [OF assms(2) types_eqs(4)] int_in_typed [OF assms(2) types_eqs(5)]
    int_in_typed [OF assms(2) types_eqs(6)] int_in_typed [OF assms(2) types_eqs(7)]
  obtain w2 w3 w4 w6 w7 where w: "vm_get V m ''2'' = Some (CellLong w2)" "vm_get V m ''3'' = Some (CellLong w3)"
    "vm_get V m ''4'' = Some (CellLong w4)" "vm_get V m ''6'' = Some (CellLong w6)" "vm_get V m ''7'' = Some (CellLong w7)" by blast
  let ?n = "sint (ucast w4 :: u32) + 1"
  have "- (2 ^ 31) \<le> sint (ucast w4 :: u32)" using sint_ge [of "ucast w4 :: u32"] by simp
  with assms(3) obtain s n where f: "add_int (sint (ucast w2 :: u32)) (sint (ucast w3 :: u32)) = Some s" "add_int s 1 = Some n"
    "add_int (sint (ucast w4 :: u32)) 1 = Some ?n" "add_int 12000 ?n = Some (12000 + ?n)"
    by (auto simp: step_fits_def int_in_def w add_int_def split: if_splits bind_splits)
  note access = double_in_def int_in_def put_double_def put_int_def get d w f
  have 1: "step_double D V m = Some (vm_set V m ''1'' (CellDouble (dbl_add D (dbl_add D x0 x1) (dbl_of_int D 1))))" (is "_ = Some ?m1")
    by (simp add: step_double_def access)
  have 2: "step_integer V ?m1 = Some (vm_set V ?m1 ''3'' (CellLong (or (and w3 0xFFFFFFFF00000000) (ucast (word_of_int n :: u32)))))" (is "_ = Some ?m2")
    by (simp add: step_integer_def access)
  have 3: "step_boolean V ?m2 = Some (vm_set V ?m2 ''7'' (CellLong (or (and w7 0xFFFFFFFF00000000) (ucast ((if ucast w6 = (1 :: u32) then 1 else 0) :: u32)))))"
    (is "_ = Some ?m3") by (simp add: step_boolean_def access)
  have 4: "step_shared D V ?m3 = Some (vm_set V (vm_set V ?m3 ''10'' (CellDouble (dbl_add D x8 (dbl_of_int D 10)))) ''11''
      (CellDouble (dbl_add D x9 (dbl_of_int D 100))))" (is "_ = Some ?m4") by (simp add: step_shared_def access)
  have 5: "step_count D V ?m4 = Some (vm_set V (vm_set V ?m4 ''4'' (CellLong (or (and w4 0xFFFFFFFF00000000) (ucast (word_of_int ?n :: u32)))))
      ''12'' (CellDouble (dbl_of_int D (12000 + ?n))))" by (simp add: step_count_def access)
  show ?thesis unfolding step_numbers_def 1 2 3 4 5 bind.bind_lunit by blast
qed

lemma step_numbers_typed:
  assumes "value_map_ok V" "typed V m" "step_fits V m"
  obtains m1 where "step_numbers D V m = Some m1" "typed V m1" "\<And>k. k \<in> set text_keys \<Longrightarrow> vm_get V m1 k = vm_get V m k"
proof -
  from step_numbers_run [OF assms, of D] obtain x1 n3 n7 x10 x11 n4 x12 where r: "step_numbers D V m =
    Some (vm_set V (vm_set V (vm_set V (vm_set V (vm_set V (vm_set V (vm_set V m ''1'' (CellDouble x1)) ''3'' (CellLong n3))
       ''7'' (CellLong n7)) ''10'' (CellDouble x10)) ''11'' (CellDouble x11)) ''4'' (CellLong n4)) ''12'' (CellDouble x12))" by metis
  show thesis
    by (rule that [OF r]) (use assms(2) in \<open>auto simp: text_keys_def value_map_okD [OF assms(1)] typed_set [OF assms(1)] types_eqs\<close>)
qed

lemma move_text_typed:
  assumes "value_map_ok V" "typed V m"
  shows "\<exists>m1. move_text V m = Some m1 \<and> typed V m1 \<and> vm_get V m1 ''102'' = vm_get V m ''102''"
proof -
  from text_in_typed [OF assms(2) types_eqs(13)] obtain t where "text_in V m ''100'' = Some t" by blast
  then show ?thesis
    using assms(2) by (cases t) (simp_all add: move_text_def value_map_okD [OF assms(1)] typed_set [OF assms(1)] typed_remove [OF assms(1)] types_eqs)
qed

lemma reverse_text_typed:
  assumes "value_map_ok V" "typed V m"
  shows "\<exists>m1. reverse_text L V m = Some m1 \<and> typed V m1"
proof -
  from text_in_typed [OF assms(2) types_eqs(15)] obtain t where "text_in V m ''102'' = Some t" by blast
  then show ?thesis
    using assms(2) by (cases t) (simp_all add: reverse_text_def Let_def typed_set [OF assms(1)] typed_remove [OF assms(1)] types_eqs)
qed

lemma do_step_typed:
  assumes "value_map_ok V" "typed V (ex_var f)" "step_fits V (ex_var f)"
  shows "\<exists>g. example_do_step L D V f point step_size = Some (FmiOK, g) \<and> typed V (ex_var g)"
proof -
  from step_numbers_typed [OF assms, of D] obtain m1 where 1: "step_numbers D V (ex_var f) = Some m1" "typed V m1" by metis
  from move_text_typed [OF assms(1) 1(2)] obtain m2 where 2: "move_text V m1 = Some m2" "typed V m2" by blast
  from reverse_text_typed [OF assms(1) 2(2), of L] obtain m3 where "reverse_text L V m2 = Some m3" "typed V m3" by blast
  with 1(1) 2(1) show ?thesis by (simp add: example_do_step_def)
qed

subsection \<open>Calls\<close>

datatype example_call =
    ExGetReal "u32 list" "f64 list" | ExGetInteger "u32 list" "u32 list" | ExGetBoolean "u32 list" "u32 list"
  | ExGetString "u32 list" "bytes option list"
  | ExSetReal "u32 list" "f64 list" | ExSetInteger "u32 list" "u32 list" | ExSetBoolean "u32 list" "u32 list"
  | ExSetString "u32 list" "bytes option list" | ExDoStep f64 f64

fun run_example ::
  "'c clib \<Rightarrow> double_ops \<Rightarrow> 'm value_map \<Rightarrow> 'm fmu2_data \<Rightarrow> example_call \<Rightarrow> (fmi_status \<times> 'm fmu2_data) option" where
  "run_example L D V f (ExGetReal vr xs) = map_option (\<lambda>(st, _). (st, f)) (example_get_real V f vr xs)"
| "run_example L D V f (ExGetInteger vr ns) = map_option (\<lambda>(st, _). (st, f)) (example_get_integer V f vr ns)"
| "run_example L D V f (ExGetBoolean vr ns) = map_option (\<lambda>(st, _). (st, f)) (example_get_boolean V f vr ns)"
| "run_example L D V f (ExGetString vr ss) = map_option (\<lambda>(st, _). (st, f)) (example_get_string V f vr ss)"
| "run_example L D V f (ExSetReal vr xs) = example_set_real V f vr xs"
| "run_example L D V f (ExSetInteger vr ns) = example_set_integer V f vr ns"
| "run_example L D V f (ExSetBoolean vr ns) = example_set_boolean V f vr ns"
| "run_example L D V f (ExSetString vr ss) = example_set_string V f vr ss"
| "run_example L D V f (ExDoStep point step_size) = example_do_step L D V f point step_size"

text \<open>The caller's side: references of variables of the type, arrays as long, sums that fit.\<close>

fun call_typed :: "'m value_map \<Rightarrow> 'm fmu2_data \<Rightarrow> example_call \<Rightarrow> bool" where
  "call_typed V f (ExGetReal vr xs) \<longleftrightarrow> set vr \<subseteq> refs_typed TyDouble \<and> length xs = length vr"
| "call_typed V f (ExGetInteger vr ns) \<longleftrightarrow> set vr \<subseteq> refs_typed TyLong \<and> length ns = length vr"
| "call_typed V f (ExGetBoolean vr ns) \<longleftrightarrow> set vr \<subseteq> refs_typed TyLong \<and> length ns = length vr"
| "call_typed V f (ExGetString vr ss) \<longleftrightarrow> set vr \<subseteq> refs_typed TyText \<and> length ss = length vr"
| "call_typed V f (ExSetReal vr xs) \<longleftrightarrow> set vr \<subseteq> refs_typed TyDouble \<and> length xs = length vr"
| "call_typed V f (ExSetInteger vr ns) \<longleftrightarrow> set vr \<subseteq> refs_typed TyLong \<and> length ns = length vr"
| "call_typed V f (ExSetBoolean vr ns) \<longleftrightarrow> set vr \<subseteq> refs_typed TyLong \<and> length ns = length vr"
| "call_typed V f (ExSetString vr ss) \<longleftrightarrow> set vr \<subseteq> refs_typed TyText \<and> length ss = length vr"
| "call_typed V f (ExDoStep point step_size) \<longleftrightarrow> step_fits V (ex_var f)"

inductive example_reaches :: "'c clib \<Rightarrow> double_ops \<Rightarrow> 'm value_map \<Rightarrow> 'm fmu2_data \<Rightarrow> bool"
  for L :: "'c clib" and D :: double_ops and V :: "'m value_map" where
  start: "example_instantiate V name cosim guid loc callbacks logging = Some f \<Longrightarrow> example_reaches L D V f"
| call: "example_reaches L D V f \<Longrightarrow> call_typed V f c \<Longrightarrow> run_example L D V f c = Some (st, g) \<Longrightarrow> example_reaches L D V g"

lemma refs_typedD: "set vr \<subseteq> refs_typed t \<Longrightarrow> v \<in> set vr \<Longrightarrow> map_of example_types (example_key v) = Some t"
  by (auto simp: refs_typed_def)

lemma get_typed:
  assumes "typed V m"
  shows "set vr \<subseteq> refs_typed TyDouble \<Longrightarrow> length xs = length vr \<Longrightarrow> \<exists>ys. get_cells (double_in V m) vr xs = Some ys \<and> length ys = length vr"
    and "set vr \<subseteq> refs_typed TyLong \<Longrightarrow> length ns = length vr \<Longrightarrow> \<exists>ys. get_cells (int_in V m) vr ns = Some ys \<and> length ys = length vr"
    and "set vr \<subseteq> refs_typed TyText \<Longrightarrow> length ss = length vr \<Longrightarrow> \<exists>ys. get_cells (shown_text V m) vr ss = Some ys \<and> length ys = length vr"
proof -
  assume "set vr \<subseteq> refs_typed TyDouble" "length xs = length vr"
  with double_in_typed [OF assms refs_typedD] show "\<exists>ys. get_cells (double_in V m) vr xs = Some ys \<and> length ys = length vr"
    by (intro get_cells_run) blast+
next
  assume "set vr \<subseteq> refs_typed TyLong" "length ns = length vr"
  with int_in_typed [OF assms refs_typedD] show "\<exists>ys. get_cells (int_in V m) vr ns = Some ys \<and> length ys = length vr"
    by (intro get_cells_run) blast+
next
  assume r: "set vr \<subseteq> refs_typed TyText" "length ss = length vr"
  have "\<exists>y. shown_text V m (example_key v) = Some y" if "v \<in> set vr" for v
    using text_in_typed [OF assms refs_typedD [OF r(1) that]] by (auto simp: shown_text_def)
  with r(2) show "\<exists>ys. get_cells (shown_text V m) vr ss = Some ys \<and> length ys = length vr"
    by (intro get_cells_run)
qed

lemma example_set_typed:
  assumes "typed V (ex_var f)" "length xs = length vr"
    "\<And>m v x. typed V m \<Longrightarrow> v \<in> set vr \<Longrightarrow> typed V (put m (example_key v) x)"
  shows "\<exists>g. example_set put f vr xs = Some (FmiOK, g) \<and> typed V (ex_var g)"
proof -
  from set_cells_run [where P = "typed V" and put = put, OF assms(1) _ assms(2)] assms(3) obtain m1 where
    "set_cells put (ex_var f) vr xs = Some m1" "typed V m1" by blast
  then show ?thesis by (simp add: example_set_def)
qed

lemma set_typed:
  assumes "value_map_ok V" "typed V (ex_var f)"
  shows "set vr \<subseteq> refs_typed TyDouble \<Longrightarrow> length xs = length vr \<Longrightarrow> \<exists>g. example_set_real V f vr xs = Some (FmiOK, g) \<and> typed V (ex_var g)"
    and "set vr \<subseteq> refs_typed TyLong \<Longrightarrow> length ns = length vr \<Longrightarrow> \<exists>g. example_set_integer V f vr ns = Some (FmiOK, g) \<and> typed V (ex_var g)"
    and "set vr \<subseteq> refs_typed TyLong \<Longrightarrow> length ns = length vr \<Longrightarrow> \<exists>g. example_set_boolean V f vr ns = Some (FmiOK, g) \<and> typed V (ex_var g)"
    and "set vr \<subseteq> refs_typed TyText \<Longrightarrow> length ss = length vr \<Longrightarrow> \<exists>g. example_set_string V f vr ss = Some (FmiOK, g) \<and> typed V (ex_var g)"
  unfolding example_set_real_def example_set_integer_def example_set_boolean_def example_set_string_def
  by (rule example_set_typed [where V = V], rule assms(2), assumption,
      simp add: typed_set [OF assms(1)] typed_remove [OF assms(1)] refs_typedD split: option.split)+

lemma example_call_run:
  assumes "value_map_ok V" "typed V (ex_var f)" "call_typed V f c"
  shows "\<exists>g. run_example L D V f c = Some (FmiOK, g) \<and> typed V (ex_var g)"
proof (cases c)
  case (ExGetReal vr xs)
  with assms get_typed(1) [OF assms(2), of vr xs] show ?thesis by (auto simp: example_get_real_def)
next
  case (ExGetInteger vr ns)
  with assms get_typed(2) [OF assms(2), of vr ns] show ?thesis by (auto simp: example_get_integer_def)
next
  case (ExGetBoolean vr ns)
  with assms get_typed(2) [OF assms(2), of vr ns] show ?thesis by (auto simp: example_get_boolean_def)
next
  case (ExGetString vr ss)
  with assms get_typed(3) [OF assms(2), of vr ss] show ?thesis by (auto simp: example_get_string_def)
qed (use assms(3) set_typed [OF assms(1,2)] do_step_typed [OF assms(1,2)] in simp_all)

text \<open>
  C28: The example FMU keeps its variables typed and does not get stuck: on an instance reached
  from an instantiation by calls with references of variables of the type, each variable holds a
  value of its type, and each further such call returns \<open>fmi2OK\<close> - a step when its sums of ints fit.
\<close>

theorem example_stays_typed:
  assumes "value_map_ok V" "example_reaches L D V f"
  shows "typed V (ex_var f) \<and> (call_typed V f c \<longrightarrow> (\<exists>g. run_example L D V f c = Some (FmiOK, g)))"
proof -
  from assms(2) have "typed V (ex_var f)"
  proof induction
    case (start name cosim guid loc callbacks logging f)
    then have "callbacks = Some (True, True)" by (simp add: example_instantiate_def split: if_splits)
    with start instantiate_typed [OF assms(1), of name cosim guid loc logging] show ?case by auto
  next
    case (call f c st g)
    from example_call_run [OF assms(1) call.IH call.hyps(2), of L D] call.hyps(3) show ?case by auto
  qed
  with example_call_run [OF assms(1)] show ?thesis by blast
qed

lemma example_keys:
  "example_key 0 = ''0''" "example_key 2 = ''2''" "example_key 8 = ''8''" "example_key 10 = ''10''"
  "example_key 100 = ''100''" "example_key 101 = ''101''" "example_key 102 = ''102''" "example_key 103 = ''103''"
  by (simp_all add: example_key_def fmt_i_def snprintf_def show_int_def show_nat.simps digit_char_def char_of_def bit_iff_odd)

text \<open>
  C29: A step moves the text of 100 to 101 and writes the encoded bytes of 102 to 103 in reverse
  order - but only up to their first NUL: the bytes from there on stay in place. The inputs are
  consumed.
\<close>

theorem example_moves_texts:
  assumes "value_map_ok V" "ascii85_ok L" "typed V (ex_var f)" "step_fits V (ex_var f)"
  shows "\<exists>g h. example_set_string V f [100, 102] [Some t, Some (ascii85_encode L s)] = Some (FmiOK, g) \<and>
    example_do_step L D V g point step_size = Some (FmiOK, h) \<and>
    example_get_string V h [101, 103, 100, 102] [None, None, None, None] = Some (FmiOK, [null_if_empty t,
      null_if_empty (ascii85_encode L (rev (takeWhile (\<lambda>b. b \<noteq> 0) s) @ dropWhile (\<lambda>b. b \<noteq> 0) s)), None, None])"
proof -
  let ?m = "vm_set V (vm_set V (ex_var f) ''100'' (CellText t)) ''102'' (CellText (ascii85_encode L s))"
  have 1: "example_set_string V f [100, 102] [Some t, Some (ascii85_encode L s)] = Some (FmiOK, f\<lparr>ex_var := ?m\<rparr>)"
    by (simp add: example_set_string_def example_set_def example_keys)
  have ty: "typed V ?m" using assms(3) by (simp add: typed_set [OF assms(1)] types_eqs)
  have "step_fits V ?m" using assms(4) by (simp add: step_fits_def int_in_def value_map_okD [OF assms(1)])
  from step_numbers_typed [OF assms(1) ty this, of D] obtain m1 where 2: "step_numbers D V ?m = Some m1"
    "\<And>k. k \<in> set text_keys \<Longrightarrow> vm_get V m1 k = vm_get V ?m k" by metis
  then have m1: "vm_get V m1 ''100'' = Some (CellText t)" "vm_get V m1 ''102'' = Some (CellText (ascii85_encode L s))"
    by (simp_all add: text_keys_def value_map_okD [OF assms(1)])
  let ?m2 = "vm_remove V (vm_set V m1 ''101'' (CellText t)) ''100''"
  let ?m3 = "vm_remove V (vm_set V ?m2 ''103''
    (CellText (ascii85_encode L (rev (takeWhile (\<lambda>b. b \<noteq> 0) s) @ dropWhile (\<lambda>b. b \<noteq> 0) s)))) ''102''"
  have "move_text V m1 = Some ?m2" by (simp add: move_text_def text_in_def m1)
  moreover have "reverse_text L V ?m2 = Some ?m3"
    by (simp add: reverse_text_def text_in_def value_map_okD [OF assms(1)] m1 swap_ends_reverses ascii85_okD [OF assms(2)] Let_def)
  ultimately have "example_do_step L D V (f\<lparr>ex_var := ?m\<rparr>) point step_size = Some (FmiOK, f\<lparr>ex_var := ?m3\<rparr>)"
    by (simp add: example_do_step_def 2(1))
  moreover have "example_get_string V (f\<lparr>ex_var := ?m3\<rparr>) [101, 103, 100, 102] [None, None, None, None] = Some (FmiOK, [null_if_empty t,
      null_if_empty (ascii85_encode L (rev (takeWhile (\<lambda>b. b \<noteq> 0) s) @ dropWhile (\<lambda>b. b \<noteq> 0) s)), None, None])"
    by (simp add: example_get_string_def example_keys shown_text_def text_in_def value_map_okD [OF assms(1)])
  ultimately show ?thesis using 1 by blast
qed

subsection \<open>Behind the MCL\<close>

text \<open>The functions as the MCL's adapter finds them in the library; it passes both callbacks for memory.\<close>

definition example_vtable :: "'c clib \<Rightarrow> double_ops \<Rightarrow> 'm value_map \<Rightarrow> 'm fmu2_data fmi2_vtable" where
  "example_vtable L D V = \<lparr>
     v_instantiate = (\<lambda>name cosim guid loc. example_instantiate V name cosim guid loc (Some (True, True)) True),
     v_enter_initialization = (\<lambda>f. map_option (\<lambda>st. (status_no st, f)) (example_enter_initialization (Some f))),
     v_exit_initialization = (\<lambda>f. Some (status_no (example_exit_initialization (Some f)), f)),
     v_get_real = (\<lambda>f vr xs. map_option (\<lambda>(st, ys). (status_no st, f, ys)) (example_get_real V f vr xs)),
     v_get_integer = (\<lambda>f vr ns. map_option (\<lambda>(st, ys). (status_no st, f, ys)) (example_get_integer V f vr ns)),
     v_get_boolean = (\<lambda>f vr ns. map_option (\<lambda>(st, ys). (status_no st, f, ys)) (example_get_boolean V f vr ns)),
     v_get_string = (\<lambda>f vr ss. map_option (\<lambda>(st, ys). (status_no st, f, ys)) (example_get_string V f vr ss)),
     v_set_real = (\<lambda>f vr xs. st_no (example_set_real V f vr xs)),
     v_set_integer = (\<lambda>f vr ns. st_no (example_set_integer V f vr ns)),
     v_set_boolean = (\<lambda>f vr ns. st_no (example_set_boolean V f vr ns)),
     v_set_string = (\<lambda>f vr ss. st_no (example_set_string V f vr ss)),
     v_do_step = (\<lambda>f point step_size. st_no (example_do_step L D V f point step_size)),
     v_free_instance = (\<lambda>f. Some ())\<rparr>"

interpretation xc: fmi2_component "example_vtable L D V" "\<lambda>f. value_map_ok V \<and> typed V (ex_var f)"
    "refs_typed TyDouble" "refs_typed TyLong" "refs_typed TyLong"
  for L :: "'c clib" and D :: double_ops and V :: "'m value_map"
proof
  fix i :: "'m fmu2_data" and vr :: "u32 list" and xs :: "f64 list"
  assume i: "value_map_ok V \<and> typed V (ex_var i)" and r: "set vr \<subseteq> refs_typed TyDouble" "length xs = length vr"
  then show "\<exists>i1 ys. v_get_real (example_vtable L D V) i vr xs = Some (0, i1, ys) \<and> (value_map_ok V \<and> typed V (ex_var i1)) \<and> length ys = length vr"
    and "\<exists>i1. v_set_real (example_vtable L D V) i vr xs = Some (0, i1) \<and> value_map_ok V \<and> typed V (ex_var i1)"
    using get_typed(1) [OF _ r] set_typed(1) [OF _ _ r] by (fastforce simp: example_vtable_def example_get_real_def)+
next
  fix i :: "'m fmu2_data" and vr :: "u32 list" and ns :: "u32 list"
  assume i: "value_map_ok V \<and> typed V (ex_var i)" and r: "set vr \<subseteq> refs_typed TyLong" "length ns = length vr"
  then show "\<exists>i1 ms. v_get_integer (example_vtable L D V) i vr ns = Some (0, i1, ms) \<and> (value_map_ok V \<and> typed V (ex_var i1)) \<and> length ms = length vr"
    and "\<exists>i1 ms. v_get_boolean (example_vtable L D V) i vr ns = Some (0, i1, ms) \<and> (value_map_ok V \<and> typed V (ex_var i1)) \<and> length ms = length vr"
    and "\<exists>i1. v_set_integer (example_vtable L D V) i vr ns = Some (0, i1) \<and> value_map_ok V \<and> typed V (ex_var i1)"
    and "\<exists>i1. v_set_boolean (example_vtable L D V) i vr ns = Some (0, i1) \<and> value_map_ok V \<and> typed V (ex_var i1)"
    using get_typed(2) [OF _ r] set_typed(2,3) [OF _ _ r]
    by (fastforce simp: example_vtable_def example_get_integer_def example_get_boolean_def)+
qed

text \<open>
  C27: The MCL drives its example FMU: over a table of scalar groups whose references are
  variables of their type, marshalling out, the step (when its sums of ints fit) and marshalling
  in succeed one after the other, the model time reaches the end of the step, and the FMU's
  variables stay typed.
\<close>

theorem mcl_drives_example:
  assumes "value_map_ok V" "out_ok M" "table_fits (fm_data m)" "fm_adapter m = Some a" "ad_inst a = Some f"
    "ready (example_vtable L D V) a" "typed V (ex_var f)"
    "\<forall>mg \<in> set (fd_mg_table (fm_data m)). scalar_group mg \<and> refs_of (refs_typed TyDouble) (refs_typed TyLong) (refs_typed TyLong) mg"
  shows "\<exists>m1 g. fmi2mcl_marshal_out M m = Some (0, m1) \<and> fm_adapter m1 = Some (a\<lparr>ad_inst := Some g\<rparr>) \<and> typed V (ex_var g) \<and>
    (step_fits V (ex_var g) \<longrightarrow> (\<exists>m2 m3 h. fmi2mcl_step sub m1 t e = Some (0, m2, e) \<and> fmi2mcl_marshal_in M m2 = Some (0, m3) \<and>
       fm_adapter m3 = Some (a\<lparr>ad_inst := Some h\<rparr>) \<and> typed V (ex_var h)))"
proof -
  let ?ok = "\<lambda>mg. scalar_group mg \<and> refs_of (refs_typed TyDouble) (refs_typed TyLong) (refs_typed TyLong) mg"
  have inv: "value_map_ok V \<and> typed V (ex_var f)" using assms by simp
  from assms(2,3) obtain u where u: "ml_out M (fm_data m) = (fm_data m)\<lparr>fd_mg_table := u\<rparr>" "list_all2 same_shape (fd_mg_table (fm_data m)) u"
    unfolding out_ok_def by blast
  have ok: "\<forall>mg \<in> set u. ?ok mg"
  proof
    fix mg assume "mg \<in> set u"
    from same_shape_set [OF u(2) this] obtain b where b: "b \<in> set (fd_mg_table (fm_data m))" "same_shape b mg" by blast
    with assms(8) same_shape_fields [OF b(2)] show "?ok mg" by (auto simp: same_shape_def refs_of_def)
  qed
  from xc.marshal_out_returns [OF assms(6,4,5) inv, of M] u(1) ok obtain g where
    g: "fmi2mcl_marshal_out M m = Some (0, m\<lparr>fm_adapter := Some (a\<lparr>ad_inst := Some g\<rparr>), fm_data := (fm_data m)\<lparr>fd_mg_table := u\<rparr>\<rparr>)"
      (is "_ = Some (0, ?m1)") "typed V (ex_var g)" by auto
  have "\<exists>m2 m3 h. fmi2mcl_step sub ?m1 t e = Some (0, m2, e) \<and> fmi2mcl_marshal_in M m2 = Some (0, m3) \<and>
       fm_adapter m3 = Some (a\<lparr>ad_inst := Some h\<rparr>) \<and> typed V (ex_var h)" if fit: "step_fits V (ex_var g)"
  proof -
    from do_step_typed [OF assms(1) g(2) fit, of L D t "sub e t"] obtain h where
      h: "example_do_step L D V g t (sub e t) = Some (FmiOK, h)" "typed V (ex_var h)" by blast
    let ?a = "a\<lparr>ad_inst := Some h\<rparr>" and ?m2 = "?m1\<lparr>fm_adapter := Some (a\<lparr>ad_inst := Some h\<rparr>)\<rparr>"
    have "ready (example_vtable L D V) (a\<lparr>ad_inst := Some g\<rparr>)" "ready (example_vtable L D V) ?a"
      using assms(6) by (simp_all add: ready_def)
    with h(1) ready_entry [of "example_vtable L D V" "a\<lparr>ad_inst := Some g\<rparr>" "''fmi2DoStep''" v_do_step]
    have "fmi2mcl_step sub ?m1 t e = Some (0, ?m2, e)" by (simp add: fmi2mcl_step_def fmi2_func_names_def example_vtable_def)
    moreover from xc.marshal_in_returns [OF \<open>ready _ ?a\<close>, of ?m2 h M] h(2) assms(1) ok obtain k m3 where
      "fmi2mcl_marshal_in M ?m2 = Some (0, m3)" "fm_adapter m3 = Some (?a\<lparr>ad_inst := Some k\<rparr>)" "typed V (ex_var k)" by auto
    ultimately show ?thesis by auto
  qed
  with g show ?thesis by auto
qed

subsection \<open>Witnesses\<close>

definition demo_ops :: double_ops where
  "demo_ops = \<lparr>dbl_add = (+), dbl_of_int = word_of_int\<rparr>"

definition demo_example :: "(string \<times> cell) list fmu2_data" where
  "demo_example = \<lparr>ex_name = None, ex_cosim = True, ex_resources = None, ex_guid = None, ex_log_enabled = True,
     ex_var = rev initial_cells\<rparr>"

lemma demo_example_start:
  "example_instantiate ref_value_map None True None None (Some (True, True)) True = Some demo_example"
  by (simp add: example_instantiate_def demo_example_def ref_value_map_def initial_cells_def text_keys_def)

lemma demo_example_typed: "typed ref_value_map (ex_var demo_example)"
  using instantiate_typed [OF ref_value_map_ok, of None True None None True] demo_example_start by simp

lemma demo_example_fits: "step_fits ref_value_map (ex_var demo_example)"
  by (simp add: step_fits_def int_in_def ref_value_map_def demo_example_def initial_cells_def add_int_def)

theorem example_stays_typed_witness:
  "typed ref_value_map (ex_var demo_example) \<and>
     (\<exists>g. run_example ref_clib demo_ops ref_value_map demo_example (ExDoStep 0 1) = Some (FmiOK, g))"
  using example_stays_typed [OF ref_value_map_ok example_reaches.start [OF demo_example_start],
      where L = ref_clib and D = demo_ops and c = "ExDoStep 0 1"] demo_example_fits by simp

theorem example_moves_texts_witness:
  "\<exists>g h. example_set_string ref_value_map demo_example [100, 102] [Some [7], Some (ref_encode [1, 2, 0, 3])] = Some (FmiOK, g) \<and>
    example_do_step ref_clib demo_ops ref_value_map g 0 1 = Some (FmiOK, h) \<and>
    example_get_string ref_value_map h [101, 103, 100, 102] [None, None, None, None] =
      Some (FmiOK, [Some [7], Some (ref_encode [2, 1, 0, 3]), None, None])"
  using example_moves_texts [OF ref_value_map_ok ref_ascii85_ok demo_example_typed demo_example_fits,
      of "[7]" "[1, 2, 0, 3]" demo_ops 0 1]
  by (simp add: null_if_empty_def ref_clib_def ref_encode_def)

definition demo_group :: "marshal_dir \<Rightarrow> u32 \<Rightarrow> nat \<Rightarrow> marshal_group" where
  "demo_group d v off = \<lparr>mg_name = ''mg'', mg_kind = KindPrimitive, mg_dir = d, mg_type = TypeDouble, mg_count = 1, mg_ref = [v],
     mg_target = TargetDouble [0], mg_binary_len = None, mg_offset = off, mg_encode = None, mg_decode = None\<rparr>"

definition demo_driver :: "(nat, (string \<times> cell) list fmu2_data adapter) fmu_model" where
  "demo_driver = zero_model\<lparr>fm_adapter := Some (demo_adapter demo_example (example_vtable ref_clib demo_ops ref_value_map)),
     fm_data := zero_data\<lparr>fd_count := 2, fd_scalar := [5, 0], fd_mg_table := [demo_group DirTxOnly 8 0, demo_group DirRxOnly 10 1]\<rparr>\<rparr>"

theorem mcl_drives_example_witness:
  "\<exists>m1 m2 m3 h. fmi2mcl_marshal_out ref_marshal demo_driver = Some (0, m1) \<and>
     fmi2mcl_step (-) m1 0 1 = Some (0, m2, 1) \<and> fmi2mcl_marshal_in ref_marshal m2 = Some (0, m3) \<and>
     fm_adapter m3 = Some (demo_adapter h (example_vtable ref_clib demo_ops ref_value_map)) \<and> typed ref_value_map (ex_var h)"
proof -
  let ?W = "example_vtable ref_clib demo_ops ref_value_map" and ?a = "demo_adapter demo_example (example_vtable ref_clib demo_ops ref_value_map)"
  let ?g = "demo_example\<lparr>ex_var := (''8'', CellDouble 5) # ex_var demo_example\<rparr>"
  have p: "table_fits (fm_data demo_driver)" "fm_adapter demo_driver = Some ?a" "ad_inst ?a = Some demo_example" "ready ?W ?a"
    by (auto simp: demo_driver_def table_fits_def demo_group_def in_block_def demo_adapter_def ready_def nth_Cons')
  have "8 \<in> refs_typed TyDouble" "10 \<in> refs_typed TyDouble" by (simp_all add: refs_typed_def example_keys types_eqs)
  then have t: "\<forall>mg \<in> set (fd_mg_table (fm_data demo_driver)). scalar_group mg \<and> refs_of (refs_typed TyDouble) (refs_typed TyLong) (refs_typed TyLong) mg"
    by (simp add: demo_driver_def demo_group_def scalar_group_def refs_of_def)
  have o: "fmi2mcl_marshal_out ref_marshal demo_driver = Some (0, m1) \<Longrightarrow> fm_adapter m1 = Some (demo_adapter ?g ?W)" for m1
    by (auto simp: fmi2mcl_marshal_out_def demo_driver_def demo_adapter_def demo_group_def ref_marshal_def ref_out_def ref_target_def
        writes_group_def double_group_def block_def set_group_def entry_def fmi2_func_names_def example_vtable_def example_set_real_def
        example_set_def example_keys ref_value_map_def)
  have f: "step_fits ref_value_map (ex_var ?g)"
    by (simp add: step_fits_def int_in_def ref_value_map_def demo_example_def initial_cells_def add_int_def)
  from mcl_drives_example [OF ref_value_map_ok ref_out_ok p demo_example_typed t, of "(-)" 0 1] obtain m1 g where
    1: "fmi2mcl_marshal_out ref_marshal demo_driver = Some (0, m1)" "fm_adapter m1 = Some (?a\<lparr>ad_inst := Some g\<rparr>)"
    "step_fits ref_value_map (ex_var g) \<Longrightarrow> \<exists>m2 m3 h. fmi2mcl_step (-) m1 0 1 = Some (0, m2, 1) \<and> fmi2mcl_marshal_in ref_marshal m2 = Some (0, m3) \<and>
       fm_adapter m3 = Some (?a\<lparr>ad_inst := Some h\<rparr>) \<and> typed ref_value_map (ex_var h)" by blast
  from o [OF 1(1)] 1(2) have "g = ?g" by (simp add: demo_adapter_def)
  with 1(1,3) f show ?thesis by (auto simp: demo_adapter_def)
qed

end
