(* ===== verification/SignalGroups.thy ===== *)
theory SignalGroups
  imports Fmi2Session MclParser
begin

section \<open>The annotated signals of a ModelC simulation\<close>

text \<open>
  What the ModelC FMU (dse/fmimodelc) and the gateway (dse/fmigateway) share: the vectors of the
  model instances with their annotations, the search of the signal groups for an annotation
  list, and the walk over the signals of all instances. Both files carry their own copy of these
  functions. The schema search of ModelC is the parameter \<open>search\<close> (the objects a channel selector
  visits, none when there is no selector, each as the signal objects below \<open>spec/signals\<close>) and
  the array of a YAML node the parameter \<open>arr\<close>.
\<close>

text \<open>A vector of a model instance; \<open>sm_annotation i name\<close> is \<open>signal_annotation(sv, i, name, NULL)\<close>.\<close>

record sim_vector =
  sm_name :: string
  sm_alias :: string
  sm_is_binary :: bool
  sm_signal :: "string list"
  sm_annotation :: "nat \<Rightarrow> string \<Rightarrow> string option"

record 'y sim_instance =
  si_name :: string
  si_spec :: 'y
  si_vectors :: "sim_vector list"

record 'y channel_spec =
  cs_name :: string
  cs_alias :: "string option"
  cs_node :: 'y

record 'y signal_object =
  so_signal :: "string option"
  so_data :: 'y

subsection \<open>Annotation lists of a signal\<close>

text \<open>
  The handler of the schema search keeps the first matching signal of an object. It returns 0
  in any case, so that the search goes on and a match in a later object replaces this one.
\<close>

fun signal_group_match_handler ::
  "string \<Rightarrow> 'y signal_object option \<Rightarrow> 'y signal_object list \<Rightarrow> 'y signal_object option option" where
  "signal_group_match_handler name found [] = Some found"
| "signal_group_match_handler name found (so # sos) = do {
     s \<leftarrow> so_signal so;
     if s = name then Some (Some so) else signal_group_match_handler name found sos }"

definition model_build_channel_spec :: "'y yaml \<Rightarrow> 'y sim_instance \<Rightarrow> string \<Rightarrow> 'y channel_spec option" where
  "model_build_channel_spec Y mi channel_name =
     (let by_name = y_find_in_seq Y (si_spec mi) ''channels'' [(''name'', channel_name)];
          c = (case by_name of Some n \<Rightarrow> Some n
               | None \<Rightarrow> y_find_in_seq Y (si_spec mi) ''channels'' [(''alias'', channel_name)])
      in case c of None \<Rightarrow> None
         | Some n \<Rightarrow> Some \<lparr>
             cs_name = (case Option.bind (y_find Y n ''name'') (y_scalar Y) of None \<Rightarrow> channel_name | Some s \<Rightarrow> s),
             cs_alias = Option.bind (y_find Y n ''alias'') (y_scalar Y),
             cs_node = n\<rparr>)"

type_synonym 'y schema_search = "'y sim_instance \<Rightarrow> 'y channel_spec option \<Rightarrow> string \<Rightarrow> 'y signal_object list list"

definition annotation_list ::
  "'y schema_search \<Rightarrow> ('y \<Rightarrow> string \<Rightarrow> string list option) \<Rightarrow> 'y yaml \<Rightarrow> 'y sim_instance \<Rightarrow> sim_vector \<Rightarrow> string \<Rightarrow> string
     \<Rightarrow> string list option option" where
  "annotation_list search arr Y mi sv signal name = do {
     let cs = model_build_channel_spec Y mi (sm_name sv);
     found \<leftarrow> foldM (signal_group_match_handler signal) None (search mi cs ''SignalGroup'');
     Some (case found of None \<Rightarrow> None
       | Some so \<Rightarrow> (case y_find Y (so_data so) ''annotations'' of None \<Rightarrow> None | Some a \<Rightarrow> arr a name)) }"

definition objects_named :: "'y schema_search \<Rightarrow> 'y sim_instance \<Rightarrow> bool" where
  "objects_named search mi \<longleftrightarrow> (\<forall>cs. \<forall>sos \<in> set (search mi cs ''SignalGroup''). \<forall>so \<in> set sos. so_signal so \<noteq> None)"

lemma match_handler_run: "\<forall>so \<in> set sos. so_signal so \<noteq> None \<Longrightarrow> \<exists>r. signal_group_match_handler name found sos = Some r"
  by (induction sos) auto

lemma annotation_list_run:
  assumes "objects_named search mi"
  shows "\<exists>r. annotation_list search arr Y mi sv signal name = Some r"
proof -
  let ?objs = "search mi (model_build_channel_spec Y mi (sm_name sv)) ''SignalGroup''"
  have "\<exists>t. foldM (signal_group_match_handler signal) None ?objs = Some t \<and> True"
  proof (rule foldM_total)
    fix u sos assume "sos \<in> set ?objs"
    with assms have "\<forall>so \<in> set sos. so_signal so \<noteq> None" unfolding objects_named_def by blast
    from match_handler_run [OF this] show "\<exists>v. signal_group_match_handler signal u sos = Some v \<and> True" by simp
  qed simp
  then obtain t where "foldM (signal_group_match_handler signal) None ?objs = Some t" by blast
  then show ?thesis unfolding annotation_list_def Let_def by simp
qed

subsection \<open>Text encodings\<close>

text \<open>An encoding that is not annotated is compared as a null pointer.\<close>

definition encoding_of :: "sim_vector \<Rightarrow> nat \<Rightarrow> string option" where
  "encoding_of sv i = sm_annotation sv i ''dse.standards.fmi-ls-binary-to-text.encoding''"

definition encode_signal ::
  "'m clib \<Rightarrow> ('y sim_instance \<Rightarrow> sim_vector \<Rightarrow> string \<Rightarrow> string \<Rightarrow> string list option option) \<Rightarrow> 'y sim_instance \<Rightarrow> sim_vector
     \<Rightarrow> ('m, 'd) fmu \<Rightarrow> nat \<Rightarrow> ('m, 'd) fmu option" where
  "encode_signal L lst mi sv f i = (if sm_annotation sv i ''fmi_variable_vref'' = None then Some f
     else do {
       encoding \<leftarrow> encoding_of sv i;
       if encoding \<noteq> ''ascii85'' then Some f
       else do {
         signal \<leftarrow> nth_opt (sm_signal sv) i;
         vref_list \<leftarrow> lst mi sv signal ''dse.standards.fmi-ls-binary-to-text.vref'';
         Some (case vref_list of None \<Rightarrow> f | Some vs \<Rightarrow>
           f\<lparr>encode_func := foldl (\<lambda>m v. hm_set L m v PEncode) (encode_func f) vs,
             decode_func := foldl (\<lambda>m v. hm_set L m v PDecode) (decode_func f) vs\<rparr>) } })"

lemma encode_signal_run:
  assumes "hashmap_ok L" "fmu_wf L f" "i < length (sm_signal sv)" "\<And>s n. \<exists>r. lst mi sv s n = Some r"
    "sm_annotation sv i ''fmi_variable_vref'' \<noteq> None \<longrightarrow> encoding_of sv i \<noteq> None"
  shows "\<exists>e d. encode_signal L lst mi sv f i = Some (f\<lparr>encode_func := e, decode_func := d\<rparr>) \<and>
    func_map_ok L PEncode e \<and> func_map_ok L PDecode d"
proof (cases "sm_annotation sv i ''fmi_variable_vref'' = None \<or> encoding_of sv i \<noteq> Some ''ascii85''")
  case True
  with assms(5) have "encode_signal L lst mi sv f i = Some f"
    by (cases "sm_annotation sv i ''fmi_variable_vref''"; cases "encoding_of sv i") (simp_all add: encode_signal_def)
  with assms(2) show ?thesis
    by (intro exI [of _ "encode_func f"] exI [of _ "decode_func f"]) (simp add: fmu_wf_def)
next
  case False
  let ?s = "sm_signal sv ! i"
  from assms(4) obtain l where l: "lst mi sv ?s ''dse.standards.fmi-ls-binary-to-text.vref'' = Some l" by blast
  have ok: "func_map_ok L w (foldl (\<lambda>m v. hm_set L m v w) m vs)" if "func_map_ok L w m" for w m vs
    using that by (induction vs arbitrary: m) (simp_all add: func_map_set [OF assms(1)])
  let ?vs = "case l of None \<Rightarrow> [] | Some vs \<Rightarrow> vs"
  have "encode_signal L lst mi sv f i = Some (f\<lparr>encode_func := foldl (\<lambda>m v. hm_set L m v PEncode) (encode_func f) ?vs,
      decode_func := foldl (\<lambda>m v. hm_set L m v PDecode) (decode_func f) ?vs\<rparr>)"
    using False assms(3) l by (auto simp: encode_signal_def split: option.splits)
  with assms(2) ok show ?thesis unfolding fmu_wf_def by blast
qed

subsection \<open>Binary variables\<close>

text \<open>The entries of one list: every value reference gets the index of the signal, if there is one.\<close>

definition index_refs :: "'m clib \<Rightarrow> svi option \<Rightarrow> 'm \<Rightarrow> string list \<Rightarrow> 'm" where
  "index_refs L x = foldl (\<lambda>m vref. case x of None \<Rightarrow> m | Some y \<Rightarrow> hm_set L m vref (PIndex y))"

definition index_topology ::
  "'m clib \<Rightarrow> ('y sim_instance \<Rightarrow> sim_vector \<Rightarrow> string \<Rightarrow> string \<Rightarrow> string list option option)
     \<Rightarrow> (sim_vector \<Rightarrow> string \<Rightarrow> svi option) \<Rightarrow> 'y sim_instance \<Rightarrow> sim_vector \<Rightarrow> ('m, 'd) fmu \<Rightarrow> nat \<Rightarrow> ('m, 'd) fmu option" where
  "index_topology L lst look mi sv f i = (if sm_annotation sv i ''fmi_variable_vref'' = None then Some f
     else do {
       signal \<leftarrow> nth_opt (sm_signal sv) i;
       rx_list \<leftarrow> lst mi sv signal ''dse.standards.fmi-ls-bus-topology.rx_vref'';
       let f1 = (case rx_list of None \<Rightarrow> f | Some vs \<Rightarrow> f\<lparr>binary_rx := index_refs L (look sv signal) (binary_rx f) vs\<rparr>);
       tx_list \<leftarrow> lst mi sv signal ''dse.standards.fmi-ls-bus-topology.tx_vref'';
       Some (case tx_list of None \<Rightarrow> f1 | Some vs \<Rightarrow> f1\<lparr>binary_tx := index_refs L (look sv signal) (binary_tx f1) vs\<rparr>) })"

lemma index_refs_ok:
  assumes "hashmap_ok L" "\<And>y. x = Some y \<Longrightarrow> svi_ok ms y" "binary_map_ok L ms m"
  shows "binary_map_ok L ms (index_refs L x m vs)"
  using assms(3)
proof (induction vs arbitrary: m)
  case (Cons v vs)
  then show ?case using assms(1,2)
    by (auto simp: index_refs_def binary_map_set split: option.splits)
qed (simp add: index_refs_def)

lemma index_topology_run:
  assumes "hashmap_ok L" "fmu_wf L f" "i < length (sm_signal sv)" "\<And>s n. \<exists>r. lst mi sv s n = Some r"
    "\<And>y. look sv (sm_signal sv ! i) = Some y \<Longrightarrow> svi_ok (mem_sv f) y"
  shows "\<exists>rx tx. index_topology L lst look mi sv f i = Some (f\<lparr>binary_rx := rx, binary_tx := tx\<rparr>) \<and>
    binary_map_ok L (mem_sv f) rx \<and> binary_map_ok L (mem_sv f) tx"
proof (cases "sm_annotation sv i ''fmi_variable_vref''")
  case None
  with assms(2) show ?thesis
    by (intro exI [of _ "binary_rx f"] exI [of _ "binary_tx f"]) (simp add: index_topology_def fmu_wf_def)
next
  case (Some vref)
  let ?s = "sm_signal sv ! i"
  from assms(4) obtain rx where rx: "lst mi sv ?s ''dse.standards.fmi-ls-bus-topology.rx_vref'' = Some rx" by blast
  from assms(4) obtain tx where tx: "lst mi sv ?s ''dse.standards.fmi-ls-bus-topology.tx_vref'' = Some tx" by blast
  let ?upd = "\<lambda>l m. case l of None \<Rightarrow> m | Some vs \<Rightarrow> index_refs L (look sv ?s) m vs"
  have ok: "binary_map_ok L (mem_sv f) (?upd l m)" if "binary_map_ok L (mem_sv f) m" for l m
    using that index_refs_ok [OF assms(1) assms(5) that] by (cases l) simp_all
  have "index_topology L lst look mi sv f i = Some (f\<lparr>binary_rx := ?upd rx (binary_rx f), binary_tx := ?upd tx (binary_tx f)\<rparr>)"
    using Some assms(3) rx tx by (simp add: index_topology_def Let_def split: option.splits)
  with assms(2) ok show ?thesis unfolding fmu_wf_def by blast
qed

subsection \<open>Walking over the signals\<close>

text \<open>The nested loops visit the positions (instance, vector, index) in order.\<close>

definition each_binary ::
  "'y sim_instance list \<Rightarrow> ('y sim_instance \<Rightarrow> sim_vector \<Rightarrow> 's \<Rightarrow> nat \<Rightarrow> 's option) \<Rightarrow> 's \<Rightarrow> 's option" where
  "each_binary mis body s = foldM (\<lambda>s mi. foldM (\<lambda>s sv. if \<not> sm_is_binary sv then Some s
       else foldM (body mi sv) s [0..<length (sm_signal sv)]) s (si_vectors mi)) s mis"

definition instance_positions :: "bool \<Rightarrow> 'y sim_instance \<Rightarrow> ('y sim_instance \<times> sim_vector \<times> nat) list" where
  "instance_positions b mi = concat (map (\<lambda>sv. map (\<lambda>i. (mi, sv, i)) [0..<length (sm_signal sv)])
     (filter (\<lambda>sv. sm_is_binary sv = b) (si_vectors mi)))"

definition positions :: "'y sim_instance list \<Rightarrow> bool \<Rightarrow> ('y sim_instance \<times> sim_vector \<times> nat) list" where
  "positions mis b = concat (map (instance_positions b) mis)"

lemma foldM_concat: "foldM (\<lambda>s x. foldM f s (g x)) s xs = foldM f s (concat (map g xs))"
  by (induction xs arbitrary: s) (simp_all add: foldM_append)

lemma foldM_filter: "foldM (\<lambda>s x. if p x then Some s else f s x) s xs = foldM f s (filter (\<lambda>x. \<not> p x) xs)"
  by (induction xs arbitrary: s) simp_all

lemma foldM_map: "foldM f s (map h xs) = foldM (\<lambda>s x. f s (h x)) s xs"
  by (induction xs arbitrary: s) simp_all

lemma in_positions: "(mi, sv, i) \<in> set (positions mis b) \<longleftrightarrow>
    mi \<in> set mis \<and> sv \<in> set (si_vectors mi) \<and> sm_is_binary sv = b \<and> i < length (sm_signal sv)"
proof -
  have "(mi, sv, i) \<in> set (instance_positions b mj) \<longleftrightarrow>
      mj = mi \<and> sv \<in> set (si_vectors mi) \<and> sm_is_binary sv = b \<and> i < length (sm_signal sv)" for mj
    by (auto simp: instance_positions_def image_iff)
  then show ?thesis by (simp add: positions_def)
qed

lemma each_binary_positions: "each_binary mis body s = foldM (\<lambda>s (mi, sv, i). body mi sv s i) s (positions mis True)"
proof -
  have "foldM (\<lambda>s sv. if \<not> sm_is_binary sv then Some s else foldM (body mi sv) s [0..<length (sm_signal sv)]) s (si_vectors mi) =
      foldM (\<lambda>s (mi, sv, i). body mi sv s i) s (instance_positions True mi)" for s mi
    by (simp add: instance_positions_def foldM_filter foldM_map flip: foldM_concat)
  then show ?thesis by (simp add: each_binary_def positions_def flip: foldM_concat)
qed

text \<open>What indexing keeps of an instance.\<close>

definition keeps_vectors :: "'m clib \<Rightarrow> ('m, 'd) fmu \<Rightarrow> ('m, 'd) fmu \<Rightarrow> bool" where
  "keeps_vectors L f g \<longleftrightarrow> fmu_wf L g \<and> mem_sv g = mem_sv f \<and> fmu_data g = fmu_data f \<and> nc_heap g = nc_heap f"

lemma keeps_vectors_refl: "fmu_wf L f \<Longrightarrow> keeps_vectors L f f"
  by (simp add: keeps_vectors_def)

lemma keeps_vectors_trans: "keeps_vectors L f g \<Longrightarrow> keeps_vectors L g h \<Longrightarrow> keeps_vectors L f h"
  by (simp add: keeps_vectors_def)

text \<open>A walk over the binary signals whose steps keep everything of the instance but its binary maps.\<close>

definition keeps_scalars :: "'m clib \<Rightarrow> ('m, 'd) fmu \<Rightarrow> ('m, 'd) fmu \<Rightarrow> bool" where
  "keeps_scalars L f g \<longleftrightarrow> keeps_vectors L f g \<and> scalar_input g = scalar_input f \<and> di_map g = di_map f"

lemma each_binary_run:
  assumes "keeps_scalars L f0 f"
    "\<And>mi sv i u. keeps_scalars L f0 u \<Longrightarrow> (mi, sv, i) \<in> set (positions mis True) \<Longrightarrow> \<exists>v. body mi sv u i = Some v \<and> keeps_scalars L f0 v"
  shows "\<exists>g. each_binary mis body f = Some g \<and> keeps_scalars L f0 g"
  unfolding each_binary_positions
proof (rule foldM_total)
  fix u x assume u: "keeps_scalars L f0 u" and x: "x \<in> set (positions mis True)"
  obtain mi sv j where p: "x = (mi, sv, j)" by (cases x)
  with assms(2) [OF u] x show "\<exists>v. (case x of (mi, sv, i) \<Rightarrow> body mi sv u i) = Some v \<and> keeps_scalars L f0 v" by simp
qed (rule assms(1))

lemma topology_walk:
  assumes "hashmap_ok L" "fmu_wf L f"
    "\<And>mi sv i. (mi, sv, i) \<in> set (positions mis True) \<Longrightarrow> (\<forall>s n. \<exists>r. lst mi sv s n = Some r) \<and>
       (\<forall>y. look sv (sm_signal sv ! i) = Some y \<longrightarrow> svi_ok (mem_sv f) y)"
  shows "\<exists>g. each_binary mis (index_topology L lst look) f = Some g \<and> keeps_scalars L f g"
proof (rule each_binary_run)
  show "keeps_scalars L f f" using assms(2) by (simp add: keeps_scalars_def keeps_vectors_def)
  fix mi sv i and u assume u: "keeps_scalars L f u" and p: "(mi, sv, i) \<in> set (positions mis True)"
  then have w: "fmu_wf L u" "mem_sv u = mem_sv f" by (simp_all add: keeps_scalars_def keeps_vectors_def)
  from p have i: "i < length (sm_signal sv)" by (simp add: in_positions)
  from assms(3) [OF p] have l: "\<exists>r. lst mi sv s n = Some r" for s n by blast
  from assms(3) [OF p] w(2) have y: "look sv (sm_signal sv ! i) = Some y \<Longrightarrow> svi_ok (mem_sv u) y" for y by simp
  from index_topology_run [OF assms(1) w(1) i, of lst mi look, OF l y] obtain rx tx where
    v: "index_topology L lst look mi sv u i = Some (u\<lparr>binary_rx := rx, binary_tx := tx\<rparr>)"
    "binary_map_ok L (mem_sv u) rx" "binary_map_ok L (mem_sv u) tx" by blast
  have "fmu_wf L (u\<lparr>binary_rx := rx, binary_tx := tx\<rparr>)" using w(1) v(2,3) by (simp add: fmu_wf_def)
  with u v(1) show "\<exists>v. index_topology L lst look mi sv u i = Some v \<and> keeps_scalars L f v"
    by (simp add: keeps_scalars_def keeps_vectors_def)
qed

lemma encode_walk:
  assumes "hashmap_ok L" "fmu_wf L f"
    "\<And>mi sv i. (mi, sv, i) \<in> set (positions mis True) \<Longrightarrow> (\<forall>s n. \<exists>r. lst mi sv s n = Some r) \<and>
       (sm_annotation sv i ''fmi_variable_vref'' \<noteq> None \<longrightarrow> encoding_of sv i \<noteq> None)"
  shows "\<exists>g. each_binary mis (encode_signal L lst) f = Some g \<and> keeps_scalars L f g"
proof (rule each_binary_run)
  show "keeps_scalars L f f" using assms(2) by (simp add: keeps_scalars_def keeps_vectors_def)
  fix mi sv i and u assume u: "keeps_scalars L f u" and p: "(mi, sv, i) \<in> set (positions mis True)"
  then have w: "fmu_wf L u" by (simp add: keeps_scalars_def keeps_vectors_def)
  from p have i: "i < length (sm_signal sv)" by (simp add: in_positions)
  from assms(3) [OF p] have l: "\<exists>r. lst mi sv s n = Some r" for s n by blast
  from encode_signal_run [OF assms(1) w i, of lst mi, OF l] assms(3) [OF p] obtain e d where
    v: "encode_signal L lst mi sv u i = Some (u\<lparr>encode_func := e, decode_func := d\<rparr>)"
    "func_map_ok L PEncode e" "func_map_ok L PDecode d" by blast
  have "fmu_wf L (u\<lparr>encode_func := e, decode_func := d\<rparr>)" using w v(2,3) by (simp add: fmu_wf_def)
  with u v(1) show "\<exists>v. encode_signal L lst mi sv u i = Some v \<and> keeps_scalars L f v"
    by (simp add: keeps_scalars_def keeps_vectors_def)
qed

end
