(* ===== verification/ModelcFmu.thy ===== *)
theory ModelcFmu
  imports SignalGroups
begin

section \<open>The ModelC FMU (dse/fmimodelc)\<close>

text \<open>
  A user FMU that runs a whole ModelC simulation. The ModelC runtime (its creation, step,
  SimBus lookup and schema search) is not part of this repository and is the parameter \<open>modelc\<close>;
  the YAML library is the parameter \<open>yaml\<close> of the MCL parser. The SimBus vectors are signal
  vectors of the instance's store \<open>mem_sv\<close>, so that a SimBus scalar is a \<open>dloc\<close> and a SimBus
  binary signal an \<open>svi\<close>. \<open>None\<close> is a fault (a failed \<open>assert\<close>, \<open>strcmp\<close> of a null pointer).
\<close>

subsection \<open>The runtime's data\<close>

text \<open>\<open>RuntimeModelDesc\<close>: the parameters \<open>fmu_create\<close> sets, and the loaded simulation.\<close>

record ('y, 'k) runtime =
  rd_runtime_model :: string
  rd_model_name :: string
  rd_sim_path :: string
  rd_simulation_yaml :: string
  rd_end_time :: nat
  rd_log_level :: nat
  rd_sim_spec :: "'y option"
  rd_instances :: "'y sim_instance list"
  rd_state :: 'k

text \<open>\<open>SimbusVectorIndex\<close>: a null \<open>sbv\<close> is \<open>None\<close>, and so is a null bypass map.\<close>

record simbus_index =
  sx_ref :: "svi option"
  sx_map :: "bytes option"
  sx_size :: u64

text \<open>
  The runtime's operations. \<open>mr_create\<close> returns \<open>errno\<close>, the loaded description and the store
  extended with the SimBus vectors, \<open>mr_step\<close> its return code and the new state, \<open>mr_search\<close> the schema
  objects a channel selector visits (none when there is no selector), each as the signal objects
  below \<open>spec/signals\<close>; \<open>mr_set\<close> is the order in which \<open>set_to_array\<close> lists added names.
\<close>

record ('y, 'k) modelc =
  mr_path_cat :: "string \<Rightarrow> string \<Rightarrow> string"
  mr_create :: "('y, 'k) runtime \<Rightarrow> signal_vector list \<Rightarrow> (int \<times> ('y, 'k) runtime \<times> signal_vector list) option"
  mr_step :: "('y, 'k) runtime \<Rightarrow> signal_vector list \<Rightarrow> bytes option \<Rightarrow> f64 \<Rightarrow> f64
     \<Rightarrow> (int \<times> ('y, 'k) runtime \<times> signal_vector list \<times> bytes option) option"
  mr_destroy :: "('y, 'k) runtime \<Rightarrow> unit option"
  mr_lookup :: "('y, 'k) runtime \<Rightarrow> string \<Rightarrow> string option \<Rightarrow> simbus_index"
  mr_binary_reset :: "('y, 'k) runtime \<Rightarrow> signal_vector list \<Rightarrow> signal_vector list"
  mr_set :: "string list \<Rightarrow> string list"
  mr_search :: "'y sim_instance \<Rightarrow> 'y channel_spec option \<Rightarrow> string \<Rightarrow> 'y signal_object list list"
  mr_mapping :: "'y \<Rightarrow> (string \<times> 'y) list"
  mr_array :: "'y \<Rightarrow> string \<Rightarrow> string list option"

type_synonym ('m, 'y, 'k) modelc_fmu = "('m, ('y, 'k) runtime option) fmu"

definition signal_annotation_list ::
  "('y, 'k) modelc \<Rightarrow> 'y yaml \<Rightarrow> 'y sim_instance \<Rightarrow> sim_vector \<Rightarrow> string \<Rightarrow> string \<Rightarrow> string list option option" where
  "signal_annotation_list M = annotation_list (mr_search M) (mr_array M)"

subsection \<open>Indexing the scalar signals\<close>

text \<open>
  The search for the bypass map runs once per vector name but looks up the first name each
  time (\<open>vname[0]\<close>).
\<close>

fun bypass_search ::
  "('y, 'k) modelc \<Rightarrow> ('y, 'k) runtime \<Rightarrow> string list \<Rightarrow> nat \<Rightarrow> ('m, 'y, 'k) modelc_fmu \<Rightarrow> ('m, 'y, 'k) modelc_fmu option" where
  "bypass_search M rd vname 0 f = Some f"
| "bypass_search M rd vname (Suc n) f = do {
     v \<leftarrow> nth_opt vname 0;
     let x = mr_lookup M rd v None;
     if sx_ref x \<noteq> None \<and> sx_map x \<noteq> None
     then Some (f\<lparr>di_map := sx_map x, di_size := ucast (sx_size x)\<rparr>)
     else bypass_search M rd vname n f }"

definition scalar_names :: "('y, 'k) runtime \<Rightarrow> string list" where
  "scalar_names rd = concat (map (\<lambda>mi. map sm_name (filter (\<lambda>sv. \<not> sm_is_binary sv) (si_vectors mi))) (rd_instances rd))"

definition index_scalar_signal ::
  "'m clib \<Rightarrow> ('y, 'k) modelc \<Rightarrow> ('y, 'k) runtime \<Rightarrow> sim_vector \<Rightarrow> ('m, 'y, 'k) modelc_fmu \<Rightarrow> nat \<Rightarrow> ('m, 'y, 'k) modelc_fmu option" where
  "index_scalar_signal L M rd sv f i = (case sm_annotation sv i ''fmi_variable_vref'' of
      None \<Rightarrow> Some f
    | Some vref \<Rightarrow> do {
        signal \<leftarrow> nth_opt (sm_signal sv) i;
        case sx_ref (mr_lookup M rd (sm_name sv) (Some signal)) of
          None \<Rightarrow> Some f
        | Some x \<Rightarrow> do {
            let scalar = PDouble (DScalar (svi_sv x) (unat (svi_vi x)));
            causality \<leftarrow> sm_annotation sv i ''fmi_variable_causality'';
            Some (if causality = ''output'' then f\<lparr>scalar_output := hm_set L (scalar_output f) vref scalar\<rparr>
                  else if causality = ''input'' then f\<lparr>scalar_input := hm_set L (scalar_input f) vref scalar\<rparr>
                  else f) } })"

definition index_scalar_vector ::
  "'m clib \<Rightarrow> ('y, 'k) modelc \<Rightarrow> ('y, 'k) runtime \<Rightarrow> ('m, 'y, 'k) modelc_fmu \<Rightarrow> sim_vector \<Rightarrow> ('m, 'y, 'k) modelc_fmu option" where
  "index_scalar_vector L M rd f sv = (if sm_is_binary sv then Some f
     else foldM (index_scalar_signal L M rd sv) f [0..<length (sm_signal sv)])"

definition fmimodelc_index_scalar_signals ::
  "'m clib \<Rightarrow> ('y, 'k) modelc \<Rightarrow> ('m, 'y, 'k) modelc_fmu \<Rightarrow> ('m, 'y, 'k) modelc_fmu option" where
  "fmimodelc_index_scalar_signals L M f = do {
     rd \<leftarrow> fmu_data f;
     let vname = mr_set M (scalar_names rd);
     f1 \<leftarrow> bypass_search M rd vname (length vname) f;
     if di_map f1 \<noteq> None then Some f1
     else foldM (\<lambda>g mi. foldM (index_scalar_vector L M rd) g (si_vectors mi)) f1 (rd_instances rd) }"

subsection \<open>Indexing the binary signals\<close>

text \<open>The place of a signal on the SimBus.\<close>

definition simbus_place :: "('y, 'k) modelc \<Rightarrow> ('y, 'k) runtime \<Rightarrow> sim_vector \<Rightarrow> string \<Rightarrow> svi option" where
  "simbus_place M rd sv signal = sx_ref (mr_lookup M rd (sm_name sv) (Some signal))"

definition index_binary_signal ::
  "'m clib \<Rightarrow> ('y, 'k) modelc \<Rightarrow> 'y yaml \<Rightarrow> ('y, 'k) runtime \<Rightarrow> 'y sim_instance \<Rightarrow> sim_vector
     \<Rightarrow> ('m, 'y, 'k) modelc_fmu \<Rightarrow> nat \<Rightarrow> ('m, 'y, 'k) modelc_fmu option" where
  "index_binary_signal L M Y rd = index_topology L (signal_annotation_list M Y) (simbus_place M rd)"

definition fmimodelc_index_binary_signals ::
  "'m clib \<Rightarrow> ('y, 'k) modelc \<Rightarrow> 'y yaml \<Rightarrow> ('m, 'y, 'k) modelc_fmu \<Rightarrow> ('m, 'y, 'k) modelc_fmu option" where
  "fmimodelc_index_binary_signals L M Y f = do {
     rd \<leftarrow> fmu_data f;
     each_binary (rd_instances rd) (index_binary_signal L M Y rd) f }"

definition index_encoding ::
  "'m clib \<Rightarrow> ('y, 'k) modelc \<Rightarrow> 'y yaml \<Rightarrow> 'y sim_instance \<Rightarrow> sim_vector
     \<Rightarrow> ('m, 'y, 'k) modelc_fmu \<Rightarrow> nat \<Rightarrow> ('m, 'y, 'k) modelc_fmu option" where
  "index_encoding L M Y = encode_signal L (signal_annotation_list M Y)"

definition fmimodelc_index_text_encoding ::
  "'m clib \<Rightarrow> ('y, 'k) modelc \<Rightarrow> 'y yaml \<Rightarrow> ('m, 'y, 'k) modelc_fmu \<Rightarrow> ('m, 'y, 'k) modelc_fmu option" where
  "fmimodelc_index_text_encoding L M Y f = do {
     rd \<leftarrow> fmu_data f;
     each_binary (rd_instances rd) (index_encoding L M Y) f }"

subsection \<open>The environment of the models\<close>

definition envar_key :: "string \<Rightarrow> string \<Rightarrow> string" where
  "envar_key inst name = (if inst = ''simbus'' then name
     else List.map toupper (snprintf 100 (inst @ ''__'' @ name)))"

text \<open>\<open>envars\<close> is the hash map of the settings; entries without a scalar are skipped.\<close>

definition add_envars :: "'y yaml \<Rightarrow> ('y, 'k) modelc \<Rightarrow> (string \<Rightarrow> string) \<Rightarrow> 'y option \<Rightarrow> (string \<rightharpoonup> string) \<Rightarrow> string \<rightharpoonup> string" where
  "add_envars Y M key env_node envars = (case env_node of None \<Rightarrow> envars
     | Some n \<Rightarrow> foldl (\<lambda>e (name, value). case y_scalar Y value of None \<Rightarrow> e | Some s \<Rightarrow> e(key name \<mapsto> s)) envars (mr_mapping M n))"

text \<open>\<open>fmimodelc_setenv\<close> with a value overwrites the variable.\<close>

definition fmimodelc_setenv :: "(string \<rightharpoonup> string) \<Rightarrow> string \<Rightarrow> string option \<Rightarrow> string \<rightharpoonup> string" where
  "fmimodelc_setenv env name value = env(name := value)"

text \<open>
  The stack's settings first, then those of the instances; \<open>envar_iterator\<close> sets each entry of
  the map, in an order that does not matter because the names differ.
\<close>

definition model_envars :: "'y yaml \<Rightarrow> ('y, 'k) modelc \<Rightarrow> ('y, 'k) runtime \<Rightarrow> string \<rightharpoonup> string" where
  "model_envars Y M rd = foldl (\<lambda>e mi. add_envars Y M (envar_key (si_name mi)) (y_find Y (si_spec mi) ''runtime/env'') e)
     (add_envars Y M (\<lambda>name. name) (Option.bind (rd_sim_spec rd) (\<lambda>s. y_find Y s ''spec/runtime/env'')) Map.empty)
     (rd_instances rd)"

definition fmimodelc_set_model_env ::
  "'y yaml \<Rightarrow> ('y, 'k) modelc \<Rightarrow> ('y, 'k) runtime \<Rightarrow> (string \<rightharpoonup> string) \<Rightarrow> string \<rightharpoonup> string" where
  "fmimodelc_set_model_env Y M rd env =
     (\<lambda>k. case model_envars Y M rd k of None \<Rightarrow> env k | Some v \<Rightarrow> fmimodelc_setenv env k (Some v) k)"

subsection \<open>The user FMU (fmimodelc.c)\<close>

definition END_TIME :: nat where "END_TIME = 3 * 24 * 60 * 60"

text \<open>\<open>k0\<close> is the zeroed private state of the description that \<open>calloc\<close> returns.\<close>

definition modelc_create ::
  "('m, ('y, 'k) runtime option) logf \<Rightarrow> ('y, 'k) modelc \<Rightarrow> 'k \<Rightarrow> ('m, 'y, 'k) modelc_fmu
     \<Rightarrow> (int \<times> ('m, 'y, 'k) modelc_fmu \<times> ('m, 'y, 'k) modelc_fmu created) option" where
  "modelc_create lg M k0 f = do {
     let f1 = lg f 0 (Some ''Debug'') ''Create the Model Runtime object'';
     let m = \<lparr>rd_runtime_model = inst_name f, rd_model_name = inst_name f,
              rd_sim_path = mr_path_cat M (inst_resource_location f) ''sim'',
              rd_simulation_yaml = ''data/simulation.yaml'', rd_end_time = END_TIME, rd_log_level = 5,
              rd_sim_spec = None, rd_instances = [], rd_state = k0\<rparr>;
     let f2 = lg f1 0 (Some ''Debug'') ''Call model_runtime_create() ...'';
     (err, rd, ms) \<leftarrow> mr_create M m (mem_sv f2);
     Some (err, f2\<lparr>fmu_data := Some rd, mem_sv := ms\<rparr>, CreatedNull) }"

definition modelc_init ::
  "('m, ('y, 'k) runtime option) logf \<Rightarrow> 'm clib \<Rightarrow> ('y, 'k) modelc \<Rightarrow> 'y yaml \<Rightarrow> ('m, 'y, 'k) modelc_fmu
     \<Rightarrow> (int \<times> ('m, 'y, 'k) modelc_fmu) option" where
  "modelc_init lg L M Y f = do {
     let f1 = lg f 0 (Some ''Debug'') ''Build indexes'';
     f2 \<leftarrow> fmimodelc_index_scalar_signals L M f1;
     f3 \<leftarrow> fmimodelc_index_binary_signals L M Y f2;
     f4 \<leftarrow> fmimodelc_index_text_encoding L M Y f3;
     Some (0, f4) }"

text \<open>\<open>fadd\<close> adds two doubles.\<close>

definition modelc_step ::
  "('m, ('y, 'k) runtime option) logf \<Rightarrow> ('y, 'k) modelc \<Rightarrow> (f64 \<Rightarrow> f64 \<Rightarrow> f64) \<Rightarrow> ('m, 'y, 'k) modelc_fmu \<Rightarrow> f64 \<Rightarrow> f64
     \<Rightarrow> (int \<times> ('m, 'y, 'k) modelc_fmu) option" where
  "modelc_step lg M fadd f communication_point step_size = do {
     rd \<leftarrow> fmu_data f;
     let f1 = lg f 0 (Some ''Debug'') ''Call model_runtime_step() ...'';
     (rc, rd1, ms, dmap) \<leftarrow> mr_step M rd (mem_sv f1) (di_map f1) communication_point (fadd communication_point step_size);
     Some (if rc = 0 then 0 else 1, f1\<lparr>fmu_data := Some rd1, mem_sv := ms, di_map := dmap\<rparr>) }"

definition modelc_destroy ::
  "('m, ('y, 'k) runtime option) logf \<Rightarrow> ('y, 'k) modelc \<Rightarrow> ('m, 'y, 'k) modelc_fmu \<Rightarrow> (int \<times> ('m, 'y, 'k) modelc_fmu) option" where
  "modelc_destroy lg M f = do {
     rd \<leftarrow> fmu_data f;
     let f1 = lg f 0 (Some ''Debug'') ''Call model_runtime_destroy() ...'';
     _ \<leftarrow> mr_destroy M rd;
     Some (0, f1\<lparr>fmu_data := None\<rparr>) }"

definition modelc_fmu ::
  "('m, ('y, 'k) runtime option) logf \<Rightarrow> 'm clib \<Rightarrow> ('y, 'k) modelc \<Rightarrow> 'y yaml \<Rightarrow> 'k \<Rightarrow> (f64 \<Rightarrow> f64 \<Rightarrow> f64)
     \<Rightarrow> ('m, ('y, 'k) runtime option) fmu_impl" where
  "modelc_fmu lg L M Y k0 fadd = \<lparr>im_create = modelc_create lg M k0, im_init = modelc_init lg L M Y,
     im_step = modelc_step lg M fadd, im_destroy = modelc_destroy lg M\<rparr>"

subsection \<open>The signal handlers (signal.c)\<close>

definition modelc_signals_reset :: "('y, 'k) modelc \<Rightarrow> ('m, 'y, 'k) modelc_fmu \<Rightarrow> ('m, 'y, 'k) modelc_fmu option" where
  "modelc_signals_reset M f = do {
     rd \<leftarrow> fmu_data f;
     if signals_reset f then Some f
     else Some (f\<lparr>mem_sv := mr_binary_reset M rd (mem_sv f), signals_reset := True\<rparr>) }"

definition modelc_signals_setup :: "('m, 'd) fmu \<Rightarrow> ('m, 'd) fmu option" where
  "modelc_signals_setup f = Some f"

definition modelc_signals_remove :: "('m, 'd) fmu \<Rightarrow> ('m, 'd) fmu option" where
  "modelc_signals_remove f = Some f"

definition modelc_load_signal_handlers :: "('y, 'k) modelc \<Rightarrow> ('m, ('y, 'k) runtime option) signal_vtable" where
  "modelc_load_signal_handlers M = \<lparr>vt_reset = Some (modelc_signals_reset M),
     vt_setup = Some modelc_signals_setup, vt_remove = Some modelc_signals_remove\<rparr>"

end
