(* ===== verification/ModelcRun.thy ===== *)
theory ModelcRun
  imports ModelcFmu
begin

section \<open>The ModelC FMU at work\<close>

text \<open>
  What ModelC is relied on for, the invariant of an instance of the ModelC FMU, and the contract
  \<open>fmu_model\<close> for it: the sessions of FMI 2 calls, the FMU's initialisation (the indexing of the
  annotated signals) included, never get stuck, and the index leads to the SimBus signals.
\<close>

subsection \<open>What ModelC promises\<close>

text \<open>
  The reset empties the binary signals and touches nothing else, a step returns with the
  vectors in place (the length of an array never changes while the simulation runs) and only
  the private state of the description changed, and the place of a signal stays the same.
\<close>

definition modelc_ok :: "('y, 'k) modelc \<Rightarrow> bool" where
  "modelc_ok M \<longleftrightarrow>
     (\<forall>rd ms. mem_wf ms \<longrightarrow> mem_wf (mr_binary_reset M rd ms) \<and> mem_shape (mr_binary_reset M rd ms) = mem_shape ms \<and>
        map sv_scalar (mr_binary_reset M rd ms) = map sv_scalar ms \<and>
        (\<forall>r i. get_bin (mr_binary_reset M rd ms) r i = map_option bin_reset (get_bin ms r i))) \<and>
     (\<forall>rd ms d t0 t1. mem_wf ms \<longrightarrow> (\<exists>rc k ms1 d1. mr_step M rd ms d t0 t1 = Some (rc, rd\<lparr>rd_state := k\<rparr>, ms1, d1) \<and>
        mem_wf ms1 \<and> mem_shape ms1 = mem_shape ms)) \<and>
     (\<forall>rd k v s. sx_ref (mr_lookup M (rd\<lparr>rd_state := k\<rparr>) v s) = sx_ref (mr_lookup M rd v s))"

text \<open>The SimBus signal of every signal of a vector exists, and is of the vector's kind.\<close>

definition simbus_loc :: "svi \<Rightarrow> dloc" where
  "simbus_loc x = DScalar (svi_sv x) (unat (svi_vi x))"

definition signal_valid :: "('y, 'k) modelc \<Rightarrow> ('y, 'k) runtime \<Rightarrow> signal_vector list \<Rightarrow> sim_vector \<Rightarrow> string \<Rightarrow> bool" where
  "signal_valid M rd ms sv s \<longleftrightarrow> (\<forall>x. sx_ref (mr_lookup M rd (sm_name sv) (Some s)) = Some x \<longrightarrow>
     (if sm_is_binary sv then svi_ok ms x else dloc_ok ms [] (simbus_loc x)))"

text \<open>
  The annotations the indexing needs: a causality for every scalar variable and an encoding for
  every binary one, and a name for the signals in the schema objects.
\<close>

definition signal_annotated :: "sim_vector \<Rightarrow> nat \<Rightarrow> bool" where
  "signal_annotated sv i \<longleftrightarrow> (sm_annotation sv i ''fmi_variable_vref'' \<noteq> None \<longrightarrow>
     (if sm_is_binary sv then sm_annotation sv i ''dse.standards.fmi-ls-binary-to-text.encoding'' \<noteq> None
      else sm_annotation sv i ''fmi_variable_causality'' \<noteq> None))"

definition runtime_ok :: "('y, 'k) modelc \<Rightarrow> ('y, 'k) runtime \<Rightarrow> signal_vector list \<Rightarrow> bool" where
  "runtime_ok M rd ms \<longleftrightarrow> (\<forall>mi \<in> set (rd_instances rd). objects_named (mr_search M) mi \<and> (\<forall>sv \<in> set (si_vectors mi).
     (\<forall>s \<in> set (sm_signal sv). signal_valid M rd ms sv s) \<and> (\<forall>i < length (sm_signal sv). signal_annotated sv i)))"

definition modelc_inv :: "'m clib \<Rightarrow> ('y, 'k) modelc \<Rightarrow> ('m, 'y, 'k) modelc_fmu \<Rightarrow> bool" where
  "modelc_inv L M f \<longleftrightarrow> fmu_wf L f \<and> hashmap_ok L \<and> modelc_ok M \<and>
     (\<exists>rd. fmu_data f = Some rd \<and> runtime_ok M rd (mem_sv f))"

lemma modelc_ok_reset:
  assumes "modelc_ok M" "mem_wf ms"
  shows "mem_wf (mr_binary_reset M rd ms)" "mem_shape (mr_binary_reset M rd ms) = mem_shape ms"
    "map sv_scalar (mr_binary_reset M rd ms) = map sv_scalar ms"
    "get_bin (mr_binary_reset M rd ms) r i = map_option bin_reset (get_bin ms r i)"
  using assms by (simp_all add: modelc_ok_def)

lemma modelc_ok_step:
  assumes "modelc_ok M" "mem_wf ms"
  shows "\<exists>rc k ms1 d1. mr_step M rd ms d t0 t1 = Some (rc, rd\<lparr>rd_state := k\<rparr>, ms1, d1) \<and>
     mem_wf ms1 \<and> mem_shape ms1 = mem_shape ms"
  using assms by (simp add: modelc_ok_def)

lemma modelc_ok_lookup: "modelc_ok M \<Longrightarrow> sx_ref (mr_lookup M (rd\<lparr>rd_state := k\<rparr>) v s) = sx_ref (mr_lookup M rd v s)"
  by (simp add: modelc_ok_def)

lemma signal_valid_shape:
  assumes "mem_shape ms' = mem_shape ms"
  shows "signal_valid M rd ms' sv s = signal_valid M rd ms sv s"
  by (simp add: signal_valid_def svi_ok_shape [OF assms] dloc_ok_shape [OF assms refl])

lemma runtime_ok_shape:
  assumes "mem_shape ms' = mem_shape ms"
  shows "runtime_ok M rd ms' = runtime_ok M rd ms"
  by (simp add: runtime_ok_def signal_valid_shape [OF assms])

lemma runtime_ok_state: "modelc_ok M \<Longrightarrow> runtime_ok M (rd\<lparr>rd_state := k\<rparr>) ms = runtime_ok M rd ms"
  by (simp add: runtime_ok_def signal_valid_def modelc_ok_lookup)

subsection \<open>Indexing runs and keeps the instance\<close>

lemma scalar_loop_positions:
  fixes rd :: "('y, 'k) runtime"
  shows "foldM (\<lambda>g mi. foldM (index_scalar_vector L M rd) g (si_vectors mi)) f (rd_instances rd) =
     foldM (\<lambda>g (mi, sv, i). index_scalar_signal L M rd sv g i) f (positions (rd_instances rd) False)"
proof -
  have v: "index_scalar_vector L M rd = (\<lambda>s sv. if sm_is_binary sv then Some s
      else foldM (index_scalar_signal L M rd sv) s [0..<length (sm_signal sv)])"
    by (intro ext) (simp add: index_scalar_vector_def)
  have "foldM (index_scalar_vector L M rd) s (si_vectors mi) =
      foldM (\<lambda>s (mi, sv, i). index_scalar_signal L M rd sv s i) s (instance_positions False mi)" for s and mi :: "'y sim_instance"
    unfolding v by (simp add: instance_positions_def foldM_filter foldM_map flip: foldM_concat)
  then show ?thesis by (simp add: positions_def flip: foldM_concat)
qed

lemma modelc_inv_keeps: "modelc_inv L M f \<Longrightarrow> keeps_vectors L f g \<Longrightarrow> modelc_inv L M g"
  by (simp add: modelc_inv_def keeps_vectors_def)

text \<open>The entry a scalar signal makes in the map of a causality.\<close>

definition scalar_entry :: "('y, 'k) modelc \<Rightarrow> ('y, 'k) runtime \<Rightarrow> string \<Rightarrow> sim_vector \<Rightarrow> nat \<Rightarrow> (string \<times> dloc) option" where
  "scalar_entry M rd c sv i = do {
     vref \<leftarrow> sm_annotation sv i ''fmi_variable_vref'';
     x \<leftarrow> sx_ref (mr_lookup M rd (sm_name sv) (Some (sm_signal sv ! i)));
     causality \<leftarrow> sm_annotation sv i ''fmi_variable_causality'';
     if causality = c then Some (vref, simbus_loc x) else None }"

definition with_entry :: "'m clib \<Rightarrow> (string \<times> dloc) option \<Rightarrow> 'm \<Rightarrow> 'm" where
  "with_entry L e m = (case e of None \<Rightarrow> m | Some (k, p) \<Rightarrow> hm_set L m k (PDouble p))"

lemma index_scalar_signal_entries:
  assumes "i < length (sm_signal sv)" "\<not> sm_is_binary sv" "signal_annotated sv i"
  shows "index_scalar_signal L M rd sv f i = Some (f\<lparr>scalar_output := with_entry L (scalar_entry M rd ''output'' sv i) (scalar_output f),
     scalar_input := with_entry L (scalar_entry M rd ''input'' sv i) (scalar_input f)\<rparr>)"
proof (cases "sm_annotation sv i ''fmi_variable_vref''")
  case None
  then show ?thesis by (simp add: index_scalar_signal_def scalar_entry_def with_entry_def)
next
  case (Some v)
  with assms obtain c where c: "sm_annotation sv i ''fmi_variable_causality'' = Some c"
    by (auto simp: signal_annotated_def)
  show ?thesis
  proof (cases "sx_ref (mr_lookup M rd (sm_name sv) (Some (sm_signal sv ! i)))")
    case None
    with Some assms(1) show ?thesis by (simp add: index_scalar_signal_def scalar_entry_def with_entry_def)
  next
    case (Some x)
    with \<open>sm_annotation sv i ''fmi_variable_vref'' = Some v\<close> c assms(1) show ?thesis
      by (simp add: index_scalar_signal_def scalar_entry_def with_entry_def simbus_loc_def Let_def)
  qed
qed

lemma scalar_entry_valid:
  assumes "runtime_ok M rd ms" "(mi, sv, i) \<in> set (positions (rd_instances rd) False)" "scalar_entry M rd c sv i = Some (k, p)"
  shows "dloc_ok ms md p"
proof -
  from assms(3) obtain x where x: "sx_ref (mr_lookup M rd (sm_name sv) (Some (sm_signal sv ! i))) = Some x" "p = simbus_loc x"
    by (auto simp: scalar_entry_def bind_eq_Some_conv split: if_splits)
  with assms(1,2) have "signal_valid M rd ms sv (sm_signal sv ! i)" "\<not> sm_is_binary sv"
    by (auto simp: runtime_ok_def in_positions)
  with x show ?thesis by (simp add: signal_valid_def simbus_loc_def dloc_ok_simps)
qed

lemma with_entry_ok:
  "hashmap_ok L \<Longrightarrow> scalar_map_ok L ms md m \<Longrightarrow> (\<And>k p. e = Some (k, p) \<Longrightarrow> dloc_ok ms md p) \<Longrightarrow>
     scalar_map_ok L ms md (with_entry L e m)"
  by (auto simp: with_entry_def intro: scalar_map_set split: option.splits)

lemma index_scalar_step:
  assumes "hashmap_ok L" "runtime_ok M rd (mem_sv f)" "fmu_wf L f" "(mi, sv, i) \<in> set (positions (rd_instances rd) False)"
  shows "\<exists>g. index_scalar_signal L M rd sv f i = Some g \<and> keeps_vectors L f g \<and> di_map g = di_map f \<and>
    scalar_input g = with_entry L (scalar_entry M rd ''input'' sv i) (scalar_input f)"
proof -
  from assms(2,4) have "i < length (sm_signal sv)" "\<not> sm_is_binary sv" "signal_annotated sv i"
    by (auto simp: runtime_ok_def in_positions)
  note r = index_scalar_signal_entries [OF this, of L M rd f]
  have "scalar_map_ok L (mem_sv f) (mem_dbl f) (with_entry L (scalar_entry M rd c sv i) m)"
    if "scalar_map_ok L (mem_sv f) (mem_dbl f) m" for c m
    using with_entry_ok [OF assms(1) that] scalar_entry_valid [OF assms(2,4)] by blast
  with assms(3) r show ?thesis by (simp add: keeps_vectors_def fmu_wf_def)
qed

text \<open>The bypass search changes the direct index only.\<close>

lemma bypass_search_run:
  assumes "vname \<noteq> []"
  shows "bypass_search M rd vname n f = Some (if n \<noteq> 0 \<and> sx_ref (mr_lookup M rd (vname ! 0) None) \<noteq> None \<and>
      sx_map (mr_lookup M rd (vname ! 0) None) \<noteq> None
    then f\<lparr>di_map := sx_map (mr_lookup M rd (vname ! 0) None), di_size := ucast (sx_size (mr_lookup M rd (vname ! 0) None))\<rparr> else f)"
  using assms by (induction n) (simp_all add: Let_def)

lemma bypass_search_keeps:
  assumes "fmu_wf L f"
  shows "\<exists>g. bypass_search M rd vname (length vname) f = Some g \<and> keeps_vectors L f g \<and> scalar_input g = scalar_input f"
proof (cases vname)
  case (Cons v vs)
  with assms show ?thesis by (simp add: bypass_search_run keeps_vectors_def fmu_wf_def del: bypass_search.simps)
qed (use assms in \<open>simp add: keeps_vectors_refl\<close>)

lemma scalar_loop_run:
  assumes "hashmap_ok L" "fmu_wf L f" "runtime_ok M rd (mem_sv f)"
  shows "\<exists>g. foldM (\<lambda>g (mi, sv, i). index_scalar_signal L M rd sv g i) f (positions (rd_instances rd) False) = Some g \<and>
    keeps_vectors L f g \<and> di_map g = di_map f"
proof (rule foldM_total)
  show "keeps_vectors L f f \<and> di_map f = di_map f" using assms(2) by (simp add: keeps_vectors_def)
  fix u x assume u: "keeps_vectors L f u \<and> di_map u = di_map f" and x: "x \<in> set (positions (rd_instances rd) False)"
  obtain mi sv j where p: "x = (mi, sv, j)" by (cases x)
  have "fmu_wf L u" "runtime_ok M rd (mem_sv u)" using u assms(3) by (simp_all add: keeps_vectors_def)
  from index_scalar_step [OF assms(1) this(2,1), of mi sv j] x p obtain v where
    "index_scalar_signal L M rd sv u j = Some v" "keeps_vectors L u v" "di_map v = di_map u" by blast
  with p u keeps_vectors_trans [of L f u v]
  show "\<exists>v. (case x of (mi, sv, i) \<Rightarrow> index_scalar_signal L M rd sv u i) = Some v \<and> keeps_vectors L f v \<and> di_map v = di_map f"
    by simp
qed

lemma index_scalar_signals_run:
  assumes "modelc_inv L M f"
  shows "\<exists>g. fmimodelc_index_scalar_signals L M f = Some g \<and> keeps_vectors L f g"
proof -
  from assms obtain rd where i: "fmu_wf L f" "hashmap_ok L" "fmu_data f = Some rd" "runtime_ok M rd (mem_sv f)"
    by (auto simp: modelc_inv_def)
  from bypass_search_keeps [OF i(1)] obtain f1 where f1:
    "bypass_search M rd (mr_set M (scalar_names rd)) (length (mr_set M (scalar_names rd))) f = Some f1" "keeps_vectors L f f1" by blast
  have "fmu_wf L f1" "runtime_ok M rd (mem_sv f1)" using f1(2) i(4) by (simp_all add: keeps_vectors_def)
  from scalar_loop_run [OF i(2) this] obtain g where
    "foldM (\<lambda>g (mi, sv, i). index_scalar_signal L M rd sv g i) f1 (positions (rd_instances rd) False) = Some g" "keeps_vectors L f1 g" by blast
  with f1 i(3) keeps_vectors_trans [OF f1(2)] show ?thesis
    by (auto simp: fmimodelc_index_scalar_signals_def scalar_loop_positions)
qed

lemma signal_annotation_list_run: "objects_named (mr_search M) mi \<Longrightarrow> \<exists>r. signal_annotation_list M Y mi sv s n = Some r"
  unfolding signal_annotation_list_def by (rule annotation_list_run)

lemma index_binary_signals_run:
  assumes "modelc_inv L M f"
  shows "\<exists>g. fmimodelc_index_binary_signals L M Y f = Some g \<and> keeps_scalars L f g"
    and "\<exists>g. fmimodelc_index_text_encoding L M Y f = Some g \<and> keeps_scalars L f g"
proof -
  from assms obtain rd where i: "fmu_wf L f" "hashmap_ok L" "fmu_data f = Some rd" "runtime_ok M rd (mem_sv f)"
    by (auto simp: modelc_inv_def)
  have p: "(\<forall>s n. \<exists>r. signal_annotation_list M Y mi sv s n = Some r) \<and> sm_is_binary sv \<and>
      signal_valid M rd (mem_sv f) sv (sm_signal sv ! i) \<and> signal_annotated sv i"
    if "(mi, sv, i) \<in> set (positions (rd_instances rd) True)" for mi sv i
    using that i(4) signal_annotation_list_run [of M mi Y sv] by (auto simp: runtime_ok_def in_positions)
  have "\<exists>g. each_binary (rd_instances rd) (index_topology L (signal_annotation_list M Y) (simbus_place M rd)) f = Some g \<and> keeps_scalars L f g"
    by (rule topology_walk [OF i(2,1)]) (use p in \<open>auto simp: simbus_place_def signal_valid_def\<close>)
  then show "\<exists>g. fmimodelc_index_binary_signals L M Y f = Some g \<and> keeps_scalars L f g"
    by (simp add: fmimodelc_index_binary_signals_def index_binary_signal_def i(3))
  have "\<exists>g. each_binary (rd_instances rd) (encode_signal L (signal_annotation_list M Y)) f = Some g \<and> keeps_scalars L f g"
    by (rule encode_walk [OF i(2,1)]) (use p in \<open>auto simp: signal_annotated_def encoding_of_def\<close>)
  then show "\<exists>g. fmimodelc_index_text_encoding L M Y f = Some g \<and> keeps_scalars L f g"
    by (simp add: fmimodelc_index_text_encoding_def index_encoding_def i(3))
qed

subsection \<open>The contract of the adapters\<close>

lemma modelc_inv_log: "modelc_inv L M f \<Longrightarrow> modelc_inv L M (fmu_log2 f st c msg)"
  using log2.frame [of f st c msg] by (auto simp: modelc_inv_def fmu_wf_def)

lemma log2_fields [simp]:
  "mem_sv (fmu_log2 f st c msg) = mem_sv f" "di_map (fmu_log2 f st c msg) = di_map f"
  "fmu_data (fmu_log2 f st c msg) = fmu_data f" "scalar_input (fmu_log2 f st c msg) = scalar_input f"
proof -
  obtain es where "fmu_log2 f st c msg = f\<lparr>log_out := log_out f @ es\<rparr>" using log2.frame by blast
  then show "mem_sv (fmu_log2 f st c msg) = mem_sv f" "di_map (fmu_log2 f st c msg) = di_map f"
    "fmu_data (fmu_log2 f st c msg) = fmu_data f" "scalar_input (fmu_log2 f st c msg) = scalar_input f" by simp_all
qed

interpretation mh: signal_handlers L "modelc_inv L M" "modelc_load_signal_handlers M" for L M
proof
  fix f :: "('a, ('b, 'c) runtime option) fmu" assume i: "modelc_inv L M f"
  then show wf: "fmu_wf L f" by (simp add: modelc_inv_def)
  from i obtain rd where rd: "modelc_ok M" "fmu_data f = Some rd" "runtime_ok M rd (mem_sv f)" by (auto simp: modelc_inv_def)
  have w: "mem_wf (mem_sv f)" using wf by (simp add: fmu_wf_def)
  note r = modelc_ok_reset [OF rd(1) w, of rd]
  let ?g = "f\<lparr>mem_sv := mr_binary_reset M rd (mem_sv f), signals_reset := True\<rparr>"
  have "fmu_wf L ?g" by (rule fmu_wf_update [OF wf]) (simp_all add: r)
  then have "modelc_inv L M ?g" using i rd runtime_ok_shape [OF r(2), of M rd] by (simp add: modelc_inv_def)
  moreover have "emptied f ?g" by (simp add: emptied_def r)
  ultimately show "\<exists>g. call_handler (vt_reset (modelc_load_signal_handlers M)) f = Some g \<and> modelc_inv L M g \<and>
      (if signals_reset f then g = f else emptied f g)"
    using i rd(2) by (simp add: call_handler_def modelc_load_signal_handlers_def modelc_signals_reset_def)
next
  fix f g :: "('a, ('b, 'c) runtime option) fmu"
  assume "modelc_inv L M f" "fmu_wf L g" "mem_shape (mem_sv g) = mem_shape (mem_sv f)" "fmu_data g = fmu_data f"
  then show "modelc_inv L M g" using runtime_ok_shape [of "mem_sv g" "mem_sv f" M] by (auto simp: modelc_inv_def)
qed

lemma modelc_init_run:
  assumes "modelc_inv L M f"
  shows "\<exists>f2 f3 g. modelc_init fmu_log2 L M Y f = Some (0, g) \<and>
    fmimodelc_index_scalar_signals L M (fmu_log2 f 0 (Some ''Debug'') ''Build indexes'') = Some f2 \<and>
    keeps_vectors L (fmu_log2 f 0 (Some ''Debug'') ''Build indexes'') f2 \<and> keeps_scalars L f2 f3 \<and> keeps_scalars L f3 g \<and> modelc_inv L M g"
proof -
  let ?f = "fmu_log2 f 0 (Some ''Debug'') ''Build indexes''"
  have i1: "modelc_inv L M ?f" by (rule modelc_inv_log [OF assms])
  from index_scalar_signals_run [OF i1] obtain f2 where f2: "fmimodelc_index_scalar_signals L M ?f = Some f2" "keeps_vectors L ?f f2" by blast
  have i2: "modelc_inv L M f2" by (rule modelc_inv_keeps [OF i1 f2(2)])
  from index_binary_signals_run(1) [OF i2] obtain f3 where f3: "fmimodelc_index_binary_signals L M Y f2 = Some f3" "keeps_scalars L f2 f3" by blast
  have i3: "modelc_inv L M f3" by (rule modelc_inv_keeps [OF i2]) (use f3(2) in \<open>simp add: keeps_scalars_def\<close>)
  from index_binary_signals_run(2) [OF i3] obtain g where g: "fmimodelc_index_text_encoding L M Y f3 = Some g" "keeps_scalars L f3 g" by blast
  have i4: "modelc_inv L M g" by (rule modelc_inv_keeps [OF i3]) (use g(2) in \<open>simp add: keeps_scalars_def\<close>)
  have "modelc_init fmu_log2 L M Y f = Some (0, g)" using f2(1) f3(1) g(1) by (simp add: modelc_init_def)
  with f2 f3(2) g(2) i4 show ?thesis by blast
qed

interpretation mm: fmu_model L "modelc_inv L M" "modelc_load_signal_handlers M" "modelc_fmu fmu_log2 L M Y k0 fadd"
  for L M Y k0 fadd
proof
  fix f :: "('a, ('b, 'c) runtime option) fmu" and point step_size assume i: "modelc_inv L M f"
  from modelc_init_run [OF i, of Y] show "\<exists>rc g. im_init (modelc_fmu fmu_log2 L M Y k0 fadd) f = Some (rc, g) \<and> modelc_inv L M g"
    unfolding modelc_fmu_def fmu_impl.select_convs by blast
  let ?f = "fmu_log2 f 0 (Some ''Debug'') ''Call model_runtime_step() ...''"
  have i1: "modelc_inv L M ?f" by (rule modelc_inv_log [OF i])
  then have wf: "fmu_wf L ?f" by (simp add: modelc_inv_def)
  from i obtain rd where rd: "modelc_ok M" "fmu_data f = Some rd" "runtime_ok M rd (mem_sv f)" by (auto simp: modelc_inv_def)
  have w: "mem_wf (mem_sv f)" using wf by (simp add: fmu_wf_def)
  from modelc_ok_step [OF rd(1) w, of rd "di_map f" point "fadd point step_size"] obtain rc k ms1 d1 where
    st: "mr_step M rd (mem_sv f) (di_map f) point (fadd point step_size) = Some (rc, rd\<lparr>rd_state := k\<rparr>, ms1, d1)"
      "mem_wf ms1" "mem_shape ms1 = mem_shape (mem_sv f)" by blast
  let ?g = "?f\<lparr>fmu_data := Some (rd\<lparr>rd_state := k\<rparr>), mem_sv := ms1, di_map := d1\<rparr>"
  have "fmu_wf L ?g" by (rule fmu_wf_update [OF wf]) (simp_all add: st)
  then have "modelc_inv L M ?g" using i rd runtime_ok_shape [OF st(3), of M rd] by (simp add: modelc_inv_def runtime_ok_state)
  moreover have "modelc_step fmu_log2 M fadd f point step_size = Some (if rc = 0 then 0 else 1, ?g)"
    using rd(2) st(1) by (simp add: modelc_step_def)
  ultimately show "\<exists>rc g. im_step (modelc_fmu fmu_log2 L M Y k0 fadd) f point step_size = Some (rc, g) \<and> modelc_inv L M g"
    by (simp add: modelc_fmu_def)
qed

subsection \<open>Sessions\<close>


subsection \<open>From a value reference to the SimBus\<close>

definition entry_at :: "('y, 'k) modelc \<Rightarrow> ('y, 'k) runtime \<Rightarrow> string \<Rightarrow> 'y sim_instance \<times> sim_vector \<times> nat \<Rightarrow> (string \<times> dloc) option" where
  "entry_at M rd c x = (case x of (mi, sv, i) \<Rightarrow> scalar_entry M rd c sv i)"

definition has_entry :: "'m clib \<Rightarrow> string \<Rightarrow> dloc \<Rightarrow> ('m, 'd) fmu \<Rightarrow> bool" where
  "has_entry L k p f \<longleftrightarrow> hm_get L (scalar_input f) k = Some (PDouble p)"

lemma has_entry_step:
  assumes "hashmap_ok L" "scalar_input g = with_entry L e (scalar_input f)" "\<And>q. e = Some (k, q) \<Longrightarrow> q = p"
  shows "has_entry L k p f \<Longrightarrow> has_entry L k p g" "e = Some (k, p) \<Longrightarrow> has_entry L k p g"
proof -
  have g: "hm_get L (scalar_input g) k = (case e of None \<Rightarrow> hm_get L (scalar_input f) k
      | Some (k', q) \<Rightarrow> if k = k' then Some (PDouble q) else hm_get L (scalar_input f) k)"
    unfolding assms(2) with_entry_def by (simp add: hashmap_okD [OF assms(1)] split: option.splits)
  show "has_entry L k p g" if "has_entry L k p f"
  proof (cases e)
    case (Some a)
    obtain k' q where a: "a = (k', q)" by (cases a)
    show ?thesis
    proof (cases "k' = k")
      case True
      with Some a have "q = p" by (intro assms(3)) simp
      with g Some a True show ?thesis by (simp add: has_entry_def)
    qed (use g Some a that in \<open>simp add: has_entry_def\<close>)
  qed (use g that in \<open>simp add: has_entry_def\<close>)
  show "has_entry L k p g" if "e = Some (k, p)" using g that by (simp add: has_entry_def)
qed

lemma index_loop_entry:
  assumes "hashmap_ok L"
  shows "set ps \<subseteq> set (positions (rd_instances rd) False) \<Longrightarrow> runtime_ok M rd (mem_sv f) \<Longrightarrow> fmu_wf L f \<Longrightarrow>
    \<forall>x \<in> set ps. \<forall>q. entry_at M rd ''input'' x = Some (k, q) \<longrightarrow> q = p \<Longrightarrow>
    \<exists>g. foldM (\<lambda>g (mi, sv, i). index_scalar_signal L M rd sv g i) f ps = Some g \<and> di_map g = di_map f \<and>
      (has_entry L k p f \<or> (\<exists>x \<in> set ps. entry_at M rd ''input'' x = Some (k, p)) \<longrightarrow> has_entry L k p g)"
proof (induction ps arbitrary: f)
  case (Cons x ps)
  obtain mi sv i where x: "x = (mi, sv, i)" by (cases x)
  with Cons.prems(1) have "(mi, sv, i) \<in> set (positions (rd_instances rd) False)" by simp
  moreover have "scalar_entry M rd ''input'' sv i = entry_at M rd ''input'' x" by (simp add: entry_at_def x)
  ultimately obtain u where
    u: "index_scalar_signal L M rd sv f i = Some u" "keeps_vectors L f u" "di_map u = di_map f"
      "scalar_input u = with_entry L (entry_at M rd ''input'' x) (scalar_input f)"
    using index_scalar_step [OF assms Cons.prems(2,3), of mi sv i] by metis
  have w: "runtime_ok M rd (mem_sv u)" "fmu_wf L u" using u(2) Cons.prems(2) by (simp_all add: keeps_vectors_def)
  have "\<And>q. entry_at M rd ''input'' x = Some (k, q) \<Longrightarrow> q = p" using Cons.prems(4) by simp
  note e = has_entry_step [OF assms u(4) this]
  have "set ps \<subseteq> set (positions (rd_instances rd) False)" "\<forall>x \<in> set ps. \<forall>q. entry_at M rd ''input'' x = Some (k, q) \<longrightarrow> q = p"
    using Cons.prems(1,4) by simp_all
  from Cons.IH [OF this(1) w this(2)] obtain g where
    g: "foldM (\<lambda>g (mi, sv, i). index_scalar_signal L M rd sv g i) u ps = Some g" "di_map g = di_map u"
      "has_entry L k p u \<or> (\<exists>x \<in> set ps. entry_at M rd ''input'' x = Some (k, p)) \<longrightarrow> has_entry L k p g" by blast
  have "foldM (\<lambda>g (mi, sv, i). index_scalar_signal L M rd sv g i) f (x # ps) = Some g" using u(1) g(1) by (simp add: x)
  moreover have "di_map g = di_map f" using g(2) u(3) by simp
  ultimately show ?case using g(3) e by (intro exI [of _ g]) force
qed simp

lemma index_scalar_entry:
  assumes "modelc_inv L M f" "fmu_data f = Some rd" "di_map f = None" "\<And>w. sx_map (mr_lookup M rd w None) = None"
    "x \<in> set (positions (rd_instances rd) False)" "entry_at M rd ''input'' x = Some (k, p)"
    "\<forall>y \<in> set (positions (rd_instances rd) False). \<forall>q. entry_at M rd ''input'' y = Some (k, q) \<longrightarrow> q = p"
  shows "\<exists>g. fmimodelc_index_scalar_signals L M f = Some g \<and> di_map g = None \<and> hm_get L (scalar_input g) k = Some (PDouble p)"
proof -
  from assms(1,2) have i: "fmu_wf L f" "hashmap_ok L" "runtime_ok M rd (mem_sv f)" by (auto simp: modelc_inv_def)
  have b: "bypass_search M rd vname (length vname) f = Some f" for vname
    by (cases vname) (simp_all add: bypass_search_run assms(4) del: bypass_search.simps(2))
  from index_loop_entry [OF i(2) order_refl i(3,1) assms(7)] obtain g where
    g: "foldM (\<lambda>g (mi, sv, i). index_scalar_signal L M rd sv g i) f (positions (rd_instances rd) False) = Some g" "di_map g = di_map f"
      "has_entry L k p f \<or> (\<exists>x \<in> set (positions (rd_instances rd) False). entry_at M rd ''input'' x = Some (k, p)) \<longrightarrow> has_entry L k p g" by blast
  have e: "has_entry L k p g" using g(3) assms(5,6) by blast
  have "fmimodelc_index_scalar_signals L M f = Some g"
    using assms(2,3) g(1) by (simp add: fmimodelc_index_scalar_signals_def scalar_loop_positions b)
  with g(2) e assms(3) show ?thesis by (simp add: has_entry_def)
qed


subsection \<open>The bypass map\<close>

text \<open>
  The bypass map is looked for under the first vector name only, however many names there
  are. When the SimBus gives one there, it becomes the direct index (its size cut to 32 bits)
  and no variable is put into the maps; otherwise the direct index stays as it was, whatever
  maps the other vectors have.
\<close>

theorem modelc_bypass_first:
  assumes "modelc_inv L M f" "fmu_data f = Some rd" "mr_set M (scalar_names rd) = w # ws"
  shows "\<exists>g. fmimodelc_index_scalar_signals L M f = Some g \<and> modelc_inv L M g \<and>
    (case (sx_ref (mr_lookup M rd w None), sx_map (mr_lookup M rd w None)) of
       (Some r, Some m) \<Rightarrow> g = f\<lparr>di_map := Some m, di_size := ucast (sx_size (mr_lookup M rd w None))\<rparr>
     | _ \<Rightarrow> di_map g = di_map f)"
proof (cases "sx_ref (mr_lookup M rd w None) \<noteq> None \<and> sx_map (mr_lookup M rd w None) \<noteq> None")
  case True
  then obtain r m where rm: "sx_ref (mr_lookup M rd w None) = Some r" "sx_map (mr_lookup M rd w None) = Some m" by blast
  let ?g = "f\<lparr>di_map := Some m, di_size := ucast (sx_size (mr_lookup M rd w None))\<rparr>"
  have "fmimodelc_index_scalar_signals L M f = Some ?g"
    using rm by (simp add: fmimodelc_index_scalar_signals_def assms(2,3))
  moreover have "modelc_inv L M ?g" using assms(1) by (simp add: modelc_inv_def fmu_wf_def)
  ultimately show ?thesis using rm by simp
next
  case False
  have i: "fmu_wf L f" "hashmap_ok L" "runtime_ok M rd (mem_sv f)" using assms(1,2) by (auto simp: modelc_inv_def)
  have b: "bypass_search M rd (w # ws) (length (w # ws)) f = Some f"
    using False by (subst bypass_search_run) auto
  have r: "(case (sx_ref (mr_lookup M rd w None), sx_map (mr_lookup M rd w None)) of
      (Some r, Some m) \<Rightarrow> g = f\<lparr>di_map := Some m, di_size := ucast (sx_size (mr_lookup M rd w None))\<rparr>
     | _ \<Rightarrow> di_map g = di_map f) \<longleftrightarrow> di_map g = di_map f" for g
    using False by (auto split: option.splits)
  show ?thesis
  proof (cases "di_map f")
    case None
    from scalar_loop_run [OF i(2,1,3)] obtain g where
      g: "foldM (\<lambda>g (mi, sv, i). index_scalar_signal L M rd sv g i) f (positions (rd_instances rd) False) = Some g" "keeps_vectors L f g" "di_map g = di_map f" by blast
    have "fmimodelc_index_scalar_signals L M f = Some g"
      using b None g(1) assms(2,3) by (simp add: fmimodelc_index_scalar_signals_def Let_def scalar_loop_positions del: bypass_search.simps)
    with g(3) modelc_inv_keeps [OF assms(1) g(2)] show ?thesis unfolding r by blast
  next
    case (Some m)
    then have "fmimodelc_index_scalar_signals L M f = Some f"
      using b assms(2,3) by (simp add: fmimodelc_index_scalar_signals_def Let_def del: bypass_search.simps)
    with assms(1) show ?thesis unfolding r by blast
  qed
qed

subsection \<open>Missing annotations\<close>

lemma foldM_fault: "x \<in> set xs \<Longrightarrow> (\<And>u. f u x = None) \<Longrightarrow> foldM f s xs = None"
  by (induction xs arbitrary: s) (auto simp: bind_eq_None_conv)

text \<open>
  C26: A variable with a value reference but without the annotation the indexing compares is a
  fault, not an ignored variable: a binary variable without an encoding makes
  \<open>fmimodelc_index_text_encoding\<close> compare a null pointer, and a scalar variable without a
  causality does the same in \<open>fmimodelc_index_scalar_signals\<close> (when no bypass map is in use).
\<close>

theorem modelc_missing_annotation:
  assumes "fmu_data f = Some rd" "mi \<in> set (rd_instances rd)" "sv \<in> set (si_vectors mi)" "i < length (sm_signal sv)"
    and "sm_annotation sv i ''fmi_variable_vref'' = Some v"
    and "if sm_is_binary sv then sm_annotation sv i ''dse.standards.fmi-ls-binary-to-text.encoding'' = None
         else sm_annotation sv i ''fmi_variable_causality'' = None \<and> di_map f = None \<and>
           (\<forall>w. sx_map (mr_lookup M rd w None) = None) \<and> sx_ref (mr_lookup M rd (sm_name sv) (Some (sm_signal sv ! i))) \<noteq> None"
  shows "if sm_is_binary sv then fmimodelc_index_text_encoding L M Y f = None else fmimodelc_index_scalar_signals L M f = None"
proof (cases "sm_is_binary sv")
  case True
  with assms have "(mi, sv, i) \<in> set (positions (rd_instances rd) True)" "\<And>u. index_encoding L M Y mi sv u i = None"
    by (simp_all add: in_positions index_encoding_def encode_signal_def encoding_of_def)
  from foldM_fault [OF this(1), of "\<lambda>s (mi, sv, i). index_encoding L M Y mi sv s i"] this(2) True assms(1) show ?thesis
    by (simp add: fmimodelc_index_text_encoding_def each_binary_positions)
next
  case False
  with assms have "(mi, sv, i) \<in> set (positions (rd_instances rd) False)" "\<And>u. index_scalar_signal L M rd sv u i = None"
    by (auto simp: in_positions index_scalar_signal_def)
  from foldM_fault [OF this(1), of "\<lambda>s (mi, sv, i). index_scalar_signal L M rd sv s i"] this(2) have
    n: "foldM (\<lambda>s (mi, sv, i). index_scalar_signal L M rd sv s i) u (positions (rd_instances rd) False) = None" for u by simp
  have "bypass_search M rd vname (length vname) f = Some f" for vname
    using False assms(6) by (cases vname) (simp_all add: bypass_search_run del: bypass_search.simps(2))
  with n False assms(1,6) show ?thesis
    by (simp add: fmimodelc_index_scalar_signals_def scalar_loop_positions Let_def)
qed

subsection \<open>The environment of the models\<close>

text \<open>The settings in the order the code puts them into its map.\<close>

definition envars_of :: "'y yaml \<Rightarrow> ('y, 'k) modelc \<Rightarrow> (string \<Rightarrow> string) \<Rightarrow> 'y option \<Rightarrow> (string \<times> string) list" where
  "envars_of Y M key node = (case node of None \<Rightarrow> []
     | Some n \<Rightarrow> List.map_filter (\<lambda>(name, value). map_option (Pair (key name)) (y_scalar Y value)) (mr_mapping M n))"

definition model_settings :: "'y yaml \<Rightarrow> ('y, 'k) modelc \<Rightarrow> ('y, 'k) runtime \<Rightarrow> (string \<times> string) list" where
  "model_settings Y M rd =
     envars_of Y M (\<lambda>name. name) (Option.bind (rd_sim_spec rd) (\<lambda>s. y_find Y s ''spec/runtime/env'')) @
     concat (map (\<lambda>mi. envars_of Y M (envar_key (si_name mi)) (y_find Y (si_spec mi) ''runtime/env'')) (rd_instances rd))"

lemma add_envars_settings: "add_envars Y M key node e = e ++ map_of (rev (envars_of Y M key node))"
proof (cases node)
  case (Some n)
  have "foldl (\<lambda>e (name, value). case y_scalar Y value of None \<Rightarrow> e | Some s \<Rightarrow> e(key name \<mapsto> s)) e xs =
      e ++ map_of (rev (List.map_filter (\<lambda>(name, value). map_option (Pair (key name)) (y_scalar Y value)) xs))" for xs
    by (induction xs arbitrary: e) (auto simp: List.map_filter_simps map_add_assoc split: option.splits)
  with Some show ?thesis by (simp add: add_envars_def envars_of_def)
qed (simp add: add_envars_def envars_of_def)

lemma model_envars_settings: "model_envars Y M rd = map_of (rev (model_settings Y M rd))"
proof -
  have "foldl (\<lambda>e mi. add_envars Y M (key mi) (node mi) e) e mis =
      e ++ map_of (rev (concat (map (\<lambda>mi. envars_of Y M (key mi) (node mi)) mis)))" for key node e mis
    by (induction mis arbitrary: e) (simp_all add: add_envars_settings map_add_assoc)
  then show ?thesis by (simp add: model_envars_def model_settings_def add_envars_settings)
qed

lemma envar_key_short:
  "inst \<noteq> ''simbus'' \<Longrightarrow> length inst + length name < 98 \<Longrightarrow> envar_key inst name = List.map toupper (inst @ ''__'' @ name)"
  by (simp add: envar_key_def snprintf_def)

text \<open>
  After \<open>fmimodelc_set_model_env\<close> an environment variable holds the last value the
  simulation gives it, the settings of the stack coming first, under their own names, and those
  of the model instances after them in order, under the upper case name \<open>INSTANCE__NAME\<close>
  (cut at 99 characters; an instance called simbus sets the plain name). Every other variable
  keeps its value.
\<close>

theorem modelc_env_settings:
  "fmimodelc_set_model_env Y M rd env = env ++ map_of (rev (model_settings Y M rd))"
  by (rule ext) (simp add: fmimodelc_set_model_env_def fmimodelc_setenv_def model_envars_settings map_add_def split: option.split)

subsection \<open>A concrete simulation\<close>

text \<open>One instance with a scalar input (reference 1) and a binary signal (reference 4).\<close>

definition demo_sim_vectors :: "sim_vector list" where
  "demo_sim_vectors = [
     \<lparr>sm_name = ''scalar'', sm_alias = ''scalar'', sm_is_binary = False, sm_signal = [''a''],
      sm_annotation = (\<lambda>i n. if n = ''fmi_variable_vref'' then Some ''1''
         else if n = ''fmi_variable_causality'' then Some ''input'' else None)\<rparr>,
     \<lparr>sm_name = ''binary'', sm_alias = ''binary'', sm_is_binary = True, sm_signal = [''c''],
      sm_annotation = (\<lambda>i n. if n = ''fmi_variable_vref'' then Some ''4''
         else if n = ''dse.standards.fmi-ls-binary-to-text.encoding'' then Some ''ascii85'' else None)\<rparr>]"

definition demo_runtime :: "sim_vector list \<Rightarrow> (nat, nat) runtime" where
  "demo_runtime svs = \<lparr>rd_runtime_model = ''fmu'', rd_model_name = ''fmu'', rd_sim_path = ''sim'',
     rd_simulation_yaml = ''data/simulation.yaml'', rd_end_time = END_TIME, rd_log_level = 5, rd_sim_spec = Some 0,
     rd_instances = [\<lparr>si_name = ''inst'', si_spec = 0, si_vectors = svs\<rparr>], rd_state = 0\<rparr>"

definition demo_modelc :: "bytes option \<Rightarrow> (nat, nat) modelc" where
  "demo_modelc bypass = \<lparr>mr_path_cat = (\<lambda>a b. a @ ''/'' @ b), mr_create = (\<lambda>rd ms. Some (0, rd, ms)),
     mr_step = (\<lambda>rd ms d t0 t1. Some (0, rd\<lparr>rd_state := rd_state rd + 1\<rparr>, ms, d)), mr_destroy = (\<lambda>_. Some ()),
     mr_lookup = (\<lambda>rd v s. \<lparr>sx_ref = Some \<lparr>svi_sv = (if v = ''scalar'' then 0 else 1), svi_vi = 0\<rparr>,
        sx_map = (if s = None then bypass else None), sx_size = 16\<rparr>),
     mr_binary_reset = (\<lambda>rd ms. map (\<lambda>sv. sv\<lparr>sv_length := map (\<lambda>_. 0) (sv_length sv)\<rparr>) ms),
     mr_set = remdups, mr_search = (\<lambda>mi cs kind. [[\<lparr>so_signal = Some ''c'', so_data = 0\<rparr>]]),
     mr_mapping = (\<lambda>_. []), mr_array = (\<lambda>_ _. Some [''4''])\<rparr>"

text \<open>Every node has an annotations node and no scalar.\<close>

definition demo_sim_yaml :: "nat yaml" where
  "demo_sim_yaml = \<lparr>y_find = (\<lambda>n path. Some n), y_scalar = (\<lambda>_. None), y_string = (\<lambda>_ _. None), y_uint = (\<lambda>_ _. None),
     y_bool = (\<lambda>_ _. None), y_double = (\<lambda>_ _. None), y_find_in_seq = (\<lambda>n _ _. Some n), schema_search = (\<lambda>_. None),
     schema_nodes = (\<lambda>_ _. [])\<rparr>"

definition demo_modelc_fmu :: "sim_vector list \<Rightarrow> ((string \<times> vptr) list, nat, nat) modelc_fmu" where
  "demo_modelc_fmu svs = (zero_fmu [] (Some (demo_runtime svs)))\<lparr>mem_sv := [demo_scalar_sv, demo_bin_sv\<lparr>sv_ncodec := [None]\<rparr>]\<rparr>"

lemma demo_modelc_ok: "modelc_ok (demo_modelc bypass)"
proof -
  let ?h = "\<lambda>sv. sv\<lparr>sv_length := map (\<lambda>_. 0) (sv_length sv)\<rparr>"
  have "sv_wf sv \<Longrightarrow> sv_wf (?h sv)" for sv
    by (auto simp: sv_wf_def bin_wf_def split: option.splits)
  then have "mem_wf ms \<Longrightarrow> mem_wf (map ?h ms)" for ms by (auto simp: mem_wf_def)
  moreover have "mem_shape (map ?h ms) = mem_shape ms" for ms by (simp add: mem_shape_def sv_shape_def)
  moreover have "map sv_scalar (map ?h ms) = map sv_scalar ms" for ms by simp
  moreover have "get_bin (map ?h ms) r i = map_option bin_reset (get_bin ms r i)" for ms r i
    by (cases "r < length ms"; cases "sv_binary (ms ! r)")
      (auto simp: get_bin_def bin_reset_def nth_opt_def)
  moreover have "\<exists>k. rd\<lparr>rd_state := Suc (rd_state rd)\<rparr> = rd\<lparr>rd_state := k\<rparr>" for rd :: "(nat, nat) runtime"
    by (rule exI) (rule refl)
  ultimately show ?thesis by (simp add: modelc_ok_def demo_modelc_def)
qed

lemma demo_modelc_inv: "modelc_inv ref_clib (demo_modelc bypass) (demo_modelc_fmu demo_sim_vectors)"
proof -
  let ?ms = "[demo_scalar_sv, demo_bin_sv\<lparr>sv_ncodec := [None]\<rparr>]"
  have "fmu_wf ref_clib (demo_modelc_fmu demo_sim_vectors)"
    by (auto simp: fmu_wf_def demo_modelc_fmu_def zero_fmu_def mem_wf_def sv_wf_def demo_scalar_sv_def demo_bin_sv_def bin_wf_def
        scalar_map_ok_def binary_map_ok_def func_map_ok_def ref_clib_def)
  moreover have "runtime_ok (demo_modelc bypass) (demo_runtime demo_sim_vectors) ?ms"
    by (auto simp: runtime_ok_def objects_named_def demo_modelc_def demo_runtime_def demo_sim_vectors_def signal_valid_def
        signal_annotated_def simbus_loc_def dloc_ok_simps svi_ok_iff demo_scalar_sv_def demo_bin_sv_def)
  ultimately show ?thesis using demo_modelc_ok
    by (simp add: modelc_inv_def ref_hashmap_ok demo_modelc_fmu_def zero_fmu_def)
qed

lemma demo_modelc_data: "fmu_data (demo_modelc_fmu svs) = Some (demo_runtime svs)" "di_map (demo_modelc_fmu svs) = None"
  by (simp_all add: demo_modelc_fmu_def zero_fmu_def)

lemma demo_modelc_nomap: "sx_map (mr_lookup (demo_modelc None) rd w None) = None"
  by (simp add: demo_modelc_def)



theorem modelc_bypass_first_witness:
  "\<exists>g. fmimodelc_index_scalar_signals ref_clib (demo_modelc (Some [1, 2])) (demo_modelc_fmu demo_sim_vectors) = Some g \<and>
     di_map g = Some [1, 2] \<and> di_size g = 16"
  using modelc_bypass_first [OF demo_modelc_inv [of "Some [1, 2]"] demo_modelc_data(1), where w = "''scalar''" and ws = "[]"]
  by (auto simp: demo_runtime_def demo_sim_vectors_def demo_modelc_def scalar_names_def)

definition demo_unannotated :: "sim_vector list" where
  "demo_unannotated = [\<lparr>sm_name = ''scalar'', sm_alias = ''scalar'', sm_is_binary = False, sm_signal = [''a''],
     sm_annotation = (\<lambda>i n. if n = ''fmi_variable_vref'' then Some ''1'' else None)\<rparr>]"

theorem modelc_missing_annotation_witness:
  "fmimodelc_index_scalar_signals ref_clib (demo_modelc None) (demo_modelc_fmu demo_unannotated) = None"
  using modelc_missing_annotation [OF demo_modelc_data(1) [of demo_unannotated],
      where mi = "\<lparr>si_name = ''inst'', si_spec = 0, si_vectors = demo_unannotated\<rparr>" and sv = "demo_unannotated ! 0" and i = 0
        and v = "''1''" and M = "demo_modelc None" and L = ref_clib]
  by (simp add: demo_runtime_def demo_unannotated_def demo_modelc_def demo_modelc_data)

end
