(* ===== verification/XmlLoader.thy ===== *)
theory XmlLoader
  imports FmuVariable
begin

section \<open>Reading objects from an XML document (dse/fmu/xml.c)\<close>

text \<open>
  The enumeration of the nodes of an XPath expression and the loader that fills the fields of a
  struct from a table of field specifications. The XPath evaluation of libxml2 is the parameter
  \<open>xp\<close> (\<open>None\<close> when there is no object or no node set). A field of the target struct is named where
  the C code has its offset, and \<open>put\<close> stores a value of the field's type into the struct.
\<close>

subsection \<open>The enumerator\<close>

text \<open>
  A generator may fault, may change its context, and returns \<open>None\<close> for a null pointer. The index
  is compared as a signed int.
\<close>

type_synonym ('s, 'o) xml_generator = "xml_node \<Rightarrow> 's \<Rightarrow> ('o option \<times> 's) option"

definition xml_object_enumerator ::
  "xpath \<Rightarrow> xml_node \<Rightarrow> string \<Rightarrow> u32 \<Rightarrow> ('s, 'o) xml_generator \<Rightarrow> 's \<Rightarrow> ('o option \<times> u32 \<times> 's) option" where
  "xml_object_enumerator xp ctx path index generator s = (case xp ctx path of
      None \<Rightarrow> Some (None, index, s)
    | Some nodes \<Rightarrow>
        if nodes = [] then Some (None, index, s)
        else if int (length nodes) \<le> sint index then Some (None, index, s)
        else do {
          node \<leftarrow> nth_opt nodes (unat index);
          (obj, t) \<leftarrow> generator node s;
          Some (obj, index + 1, t) })"

text \<open>The loop of the callers: collect objects until the enumerator returns a null pointer.\<close>

partial_function (option) xml_enumerate ::
  "xpath \<Rightarrow> xml_node \<Rightarrow> string \<Rightarrow> ('s, 'o) xml_generator \<Rightarrow> u32 \<Rightarrow> 's \<Rightarrow> ('o list \<times> 's) option" where
  "xml_enumerate xp ctx path generator index s = do {
     (obj, index1, t) \<leftarrow> xml_object_enumerator xp ctx path index generator s;
     case obj of None \<Rightarrow> Some ([], t)
     | Some x \<Rightarrow> do { (xs, u) \<leftarrow> xml_enumerate xp ctx path generator index1 t; Some (x # xs, u) } }"

subsection \<open>The field loader\<close>

datatype xml_field_type =
  XmlFieldTypeU8 | XmlFieldTypeU16 | XmlFieldTypeU32 | XmlFieldTypeD | XmlFieldTypeB | XmlFieldTypeS | XmlFieldTypeI | XmlFieldTypeNONE

datatype xml_value = VU8 u8 | VU16 u16 | VU32 u32 | VDouble f64 | VBool bool | VString string | VInt int

record xml_field_spec =
  xf_type :: xml_field_type
  xf_xpath :: string
  xf_field :: string
  xf_attr :: "string option"
  xf_map :: "(string \<times> int) list option"

text \<open>The conversion of the text by the field's type; an \<open>int\<close> keeps the low 32 bits of the \<open>long\<close>.\<close>

definition xml_convert :: "(string \<Rightarrow> f64) \<Rightarrow> xml_field_type \<Rightarrow> string \<Rightarrow> xml_value option" where
  "xml_convert strtod t raw = (case t of
      XmlFieldTypeU8 \<Rightarrow> Some (VU8 (word_of_int (strtol 10 raw)))
    | XmlFieldTypeU16 \<Rightarrow> Some (VU16 (word_of_int (strtol 10 raw)))
    | XmlFieldTypeU32 \<Rightarrow> Some (VU32 (ucast (strtoul 10 raw)))
    | XmlFieldTypeD \<Rightarrow> Some (VDouble (strtod raw))
    | XmlFieldTypeB \<Rightarrow> Some (VBool (raw = ''true'' \<or> raw = ''1''))
    | XmlFieldTypeS \<Rightarrow> Some (VString raw)
    | XmlFieldTypeI \<Rightarrow> Some (VInt (sint (word_of_int (strtol 10 raw) :: u32)))
    | XmlFieldTypeNONE \<Rightarrow> None)"

text \<open>What one specification reads: nothing, or the value for its field.\<close>

definition xml_field_value :: "xpath \<Rightarrow> (string \<Rightarrow> f64) \<Rightarrow> xml_node \<Rightarrow> xml_field_spec \<Rightarrow> xml_value option" where
  "xml_field_value xp strtod ctx spec = (case xp ctx (xf_xpath spec) of
      None \<Rightarrow> None
    | Some [] \<Rightarrow> None
    | Some (node # _) \<Rightarrow> (case (case xf_attr spec of Some a \<Rightarrow> xml_prop node a | None \<Rightarrow> xn_text node) of
        None \<Rightarrow> None
      | Some raw \<Rightarrow> (case xf_map spec of
          Some m \<Rightarrow> map_option VInt (map_of m raw)
        | None \<Rightarrow> xml_convert strtod (xf_type spec) raw)))"

definition xml_load_object ::
  "xpath \<Rightarrow> (string \<Rightarrow> f64) \<Rightarrow> (string \<Rightarrow> xml_value \<Rightarrow> 's \<Rightarrow> 's) \<Rightarrow> xml_node \<Rightarrow> xml_field_spec list \<Rightarrow> 's \<Rightarrow> 's" where
  "xml_load_object xp strtod put ctx specs s =
     foldl (\<lambda>s spec. case xml_field_value xp strtod ctx spec of None \<Rightarrow> s | Some v \<Rightarrow> put (xf_field spec) v s) s specs"

subsection \<open>The enumeration ends\<close>

text \<open>The objects of the nodes in document order, up to the first null pointer.\<close>

fun generate_all :: "('s, 'o) xml_generator \<Rightarrow> xml_node list \<Rightarrow> 's \<Rightarrow> ('o list \<times> 's) option" where
  "generate_all g [] s = Some ([], s)"
| "generate_all g (n # ns) s = do {
     (obj, t) \<leftarrow> g n s;
     case obj of None \<Rightarrow> Some ([], t)
     | Some x \<Rightarrow> do { (xs, u) \<leftarrow> generate_all g ns t; Some (x # xs, u) } }"

lemma sint_of_small: "n < 2 ^ 31 \<Longrightarrow> sint (word_of_nat n :: u32) = int n"
  by (simp add: sint_uint unsigned_of_nat signed_take_bit_int_eq_self take_bit_nat_eq_self)

lemma xml_enumerate_from:
  assumes "xp ctx path = Some nodes" "length nodes < 2 ^ 31"
  shows "i \<le> length nodes \<Longrightarrow> xml_enumerate xp ctx path g (word_of_nat i) s = generate_all g (drop i nodes) s"
proof (induction "length nodes - i" arbitrary: i s)
  case 0
  then have "nodes = [] \<or> int (length nodes) \<le> sint (word_of_nat i :: u32)"
    using assms(2) by (simp add: sint_of_small)
  with 0 show ?case by (subst xml_enumerate.simps) (auto simp: xml_object_enumerator_def assms(1))
next
  case (Suc k)
  then have i: "i < length nodes" "i < 2 ^ 31" using assms(2) by simp_all
  then have n: "unat (word_of_nat i :: u32) = i" "sint (word_of_nat i :: u32) = int i"
    by (simp_all add: sint_of_small unsigned_of_nat take_bit_nat_eq_self)
  have "nodes \<noteq> []" using i(1) by auto
  then have e: "xml_object_enumerator xp ctx path (word_of_nat i) g s = do {
      (obj, t) \<leftarrow> g (nodes ! i) s; Some (obj, word_of_nat (Suc i), t) }"
    using i(1) n by (simp add: xml_object_enumerator_def assms(1) add.commute)
  have IH: "xml_enumerate xp ctx path g (word_of_nat (Suc i)) t = generate_all g (drop (Suc i) nodes) t" for t
    by (rule Suc.hyps(1)) (use Suc.hyps(2) i(1) in simp_all)
  have "xml_enumerate xp ctx path g (word_of_nat i) s = do {
      (obj, t) \<leftarrow> g (nodes ! i) s;
      case obj of None \<Rightarrow> Some ([], t)
      | Some x \<Rightarrow> do { (xs, u) \<leftarrow> xml_enumerate xp ctx path g (word_of_nat (Suc i)) t; Some (x # xs, u) } }"
    by (subst xml_enumerate.simps) (cases "g (nodes ! i) s"; simp add: e split_beta cong: option.case_cong)
  also have "\<dots> = generate_all g (drop i nodes) s"
    unfolding IH using i(1) by (simp flip: Cons_nth_drop_Suc)
  finally show ?case .
qed

text \<open>
  C30: The loop over \<open>xml_object_enumerator\<close> ends for every node set of less than 2^31 nodes: it
  runs the generator on the nodes in document order, each once, and stops after the last one or
  at the first node for which the generator returns a null pointer. It faults only where the
  generator does.
\<close>

theorem xml_enumerate_visits:
  assumes "case xp ctx path of None \<Rightarrow> nodes = [] | Some ns \<Rightarrow> nodes = ns" "length nodes < 2 ^ 31"
  shows "xml_enumerate xp ctx path g 0 s = generate_all g nodes s"
proof (cases "xp ctx path")
  case None
  with assms show ?thesis by (subst xml_enumerate.simps) (simp add: xml_object_enumerator_def)
next
  case (Some ns)
  with xml_enumerate_from [of xp ctx path nodes 0 g s] assms show ?thesis by simp
qed

definition demo_nodes :: "xml_node list" where
  "demo_nodes = [XmlNode True ''A'' [(''name'', ''x'')] None [], XmlNode True ''A'' [(''name'', ''y'')] None [],
     XmlNode True ''A'' [] None [], XmlNode True ''A'' [(''name'', ''z'')] None []]"

theorem xml_enumerate_visits_witness:
  "xml_enumerate (\<lambda>_ _. Some demo_nodes) (XmlNode True ''R'' [] None []) ''//A'' (\<lambda>n s. Some (xml_prop n ''name'', s + 1)) 0 (0 :: nat) =
     Some ([''x'', ''y''], 3)"
  by (subst xml_enumerate_visits [where nodes = demo_nodes]) (simp_all add: demo_nodes_def xml_prop_def)

end
