(* ===== verification/GatewayXml.thy ===== *)
theory GatewayXml
  imports FmuSignal SignalGroups XmlLoader
begin

section \<open>The FMI gateway: its data and the model description (dse/fmigateway/fmigateway.h, parse_fmi.c)\<close>

text \<open>
  The gateway is a user FMU that connects the importer to a running ModelC simulation. This
  theory has its data and the reading of its settings from the model description. The XPath
  evaluation and the file parser of libxml2, \<open>strtod\<close>, the printing of a double (\<open>%f\<close>) and the log
  level \<open>LOG_ERROR\<close> of ModelC are the fields of the parameter \<open>gw_xml_lib\<close>; the connection to the
  simulation (\<open>ModelGatewayDesc\<close> of ModelC) is a value of type \<open>'g\<close>.
\<close>

record gw_xml_lib =
  gx_xpath :: xpath
  gx_parse :: "string \<Rightarrow> xml_node option"
  gx_strtod :: "string \<Rightarrow> f64"
  gx_fmt_f :: "f64 \<Rightarrow> string"
  gx_log_error :: int

subsection \<open>Data\<close>

text \<open>\<open>FmiGatewayParameter\<close>; a list of them ends at the first one without a name.\<close>

record gw_param =
  gp_name :: "string option"
  gp_type :: string
  gp_vref :: "string option"
  gp_default :: "string option"

record windows_model =
  wm_exe :: "string option"
  wm_args :: "string option"
  wm_name :: "string option"
  wm_step_size :: f64
  wm_end_time :: f64
  wm_log_level :: int
  wm_yaml :: "string option"
  wm_timeout :: f64
  wm_stacked :: bool
  wm_envar :: "gw_param list"

text \<open>
  \<open>FmiGatewaySession\<close>. The three visibility flags, the logging flag and the padding before the
  next double are eight bytes in this order, because the parser writes four bytes at each flag.
\<close>

record 'y gw_session =
  gs_model_stack :: "string option"
  gs_stack_files :: "'y list option"
  gs_w_models :: "windows_model list"
  gs_simbus :: "windows_model option"
  gs_transport :: "windows_model option"
  gs_flags :: bytes
  gs_last_step :: f64

definition zero_session :: "'y gw_session" where
  "zero_session = \<lparr>gs_model_stack = None, gs_stack_files = None, gs_w_models = [], gs_simbus = None, gs_transport = None,
     gs_flags = replicate 8 0, gs_last_step = 0\<rparr>"

datatype gw_state = GwCreated | GwInitialized | GwRunning | GwStopped | GwTerminated

definition FMIGATEWAY_RUNTIME_LEGACY :: int where "FMIGATEWAY_RUNTIME_LEGACY = 0"

definition FMIGATEWAY_RUNTIME_SIMER :: int where "FMIGATEWAY_RUNTIME_SIMER = 1"

record ('y, 'g) gateway =
  gw_model :: 'g
  gw_state :: gw_state
  gw_doc_list :: "'y list option"
  gw_yaml_files :: "string list"
  gw_model_name :: "string option"
  gw_step_size :: f64
  gw_end_time :: f64
  gw_log_level :: int
  gw_session :: "'y gw_session option"
  gw_runtime_type :: int
  gw_cmds :: "string list"
  gw_log_location :: "string option"
  gw_startup_cmd :: "string option"
  gw_shutdown_cmd :: "string option"
  gw_envar :: "gw_param list"

text \<open>The zeroed gateway \<open>fmu_create\<close> allocates, around the zeroed connection \<open>g0\<close>.\<close>

definition zero_gateway :: "'g \<Rightarrow> ('y, 'g) gateway" where
  "zero_gateway g0 = \<lparr>gw_model = g0, gw_state = GwCreated, gw_doc_list = None, gw_yaml_files = [], gw_model_name = None,
     gw_step_size = 0, gw_end_time = 0, gw_log_level = 0, gw_session = None, gw_runtime_type = 0, gw_cmds = [],
     gw_log_location = None, gw_startup_cmd = None, gw_shutdown_cmd = None, gw_envar = []\<rparr>"

text \<open>
  What the gateway does to its process: the environment variables, and the commands and calls to
  the simulation in the order it makes them.
\<close>

datatype gw_event = RanCommand string | GwSetup | GwSync f64 | GwExit

record ('y, 'g) gw_data =
  gd_gateway :: "('y, 'g) gateway option"
  gd_env :: "string \<rightharpoonup> string"
  gd_trace :: "gw_event list"

type_synonym ('m, 'y, 'g) gateway_fmu = "('m, ('y, 'g) gw_data) fmu"

definition get_gw :: "('m, 'y, 'g) gateway_fmu \<Rightarrow> ('y, 'g) gateway option" where
  "get_gw f = gd_gateway (fmu_data f)"

definition set_gw :: "('m, 'y, 'g) gateway_fmu \<Rightarrow> ('y, 'g) gateway \<Rightarrow> ('m, 'y, 'g) gateway_fmu" where
  "set_gw f g = f\<lparr>fmu_data := (fmu_data f)\<lparr>gd_gateway := Some g\<rparr>\<rparr>"

subsection \<open>The XPath expressions\<close>

definition quoted :: "string \<Rightarrow> string" where
  "quoted s = [CHR 0x27] @ s @ [CHR 0x27]"

definition FMI2_TOOL :: string where
  "FMI2_TOOL = ''//VendorAnnotations/Tool[@name='' @ quoted ''dse.fmi.config'' @ '']/*[local-name()='' @ quoted ''annotations'' @
     '']/*[local-name()='' @ quoted ''Annotation'' @ '']''"

definition FMI2_ANN :: "string \<Rightarrow> string" where
  "FMI2_ANN key = FMI2_TOOL @ ''[@name='' @ quoted (''dse.fmi.gateway.'' @ key) @ '']''"

definition FMI2_ANN_FMT :: "string \<Rightarrow> string" where
  "FMI2_ANN_FMT key = FMI2_TOOL @ ''[starts-with(@name,'' @ quoted (''dse.fmi.gateway.'' @ key) @ '')]''"

definition FMI2_MV :: "string \<Rightarrow> string \<Rightarrow> string" where
  "FMI2_MV element key = ''//ModelVariables/ScalarVariable[@causality='' @ quoted ''parameter'' @ ''][''  @ element @
     ''][Annotations/Tool[@name='' @ quoted (''dse.fmi.gateway.'' @ key) @ '']]''"

definition FMI3_ANN :: "string \<Rightarrow> string" where
  "FMI3_ANN key = ''//fmiModelDescription/Annotations/Annotation[@type='' @ quoted (''dse.fmi.gateway.'' @ key) @ '']''"

definition FMI3_ANN_FMT :: "string \<Rightarrow> string" where
  "FMI3_ANN_FMT key = ''//fmiModelDescription/Annotations/Annotation[starts-with(@type,'' @ quoted (''dse.fmi.gateway.'' @ key) @ '')]''"

definition FMI3_MV :: "string \<Rightarrow> string \<Rightarrow> string" where
  "FMI3_MV element key = ''//ModelVariables/'' @ element @ ''[@causality='' @ quoted ''parameter'' @
     ''][Annotations/Annotation[@type='' @ quoted (''dse.fmi.gateway.'' @ key) @ '']]''"

text \<open>\<open>FmiParseConfig\<close>; the formats with a \<open>%s\<close> are functions of the runtime's name.\<close>

record fmi_parse_config =
  pc_runtime :: string
  pc_cmd :: "string \<Rightarrow> string"
  pc_logloc :: string
  pc_loglevel :: string
  pc_str_rt_param :: "string \<Rightarrow> string"
  pc_float_rt_param :: "string \<Rightarrow> string"
  pc_str_envar :: string
  pc_float_envar :: string
  pc_fmi_version :: nat

definition cfg_fmi2 :: fmi_parse_config where
  "cfg_fmi2 = \<lparr>pc_runtime = FMI2_ANN ''runtime'', pc_cmd = (\<lambda>rt. FMI2_ANN_FMT (rt @ ''.cmd.'')),
     pc_logloc = FMI2_ANN ''loglocation'', pc_loglevel = FMI2_ANN ''loglevel'',
     pc_str_rt_param = (\<lambda>rt. FMI2_MV ''String'' (rt @ ''.parameter'')),
     pc_float_rt_param = (\<lambda>rt. FMI2_MV ''Real'' (rt @ ''.parameter'')),
     pc_str_envar = FMI2_MV ''String'' ''script.parameter'', pc_float_envar = FMI2_MV ''Real'' ''script.parameter'',
     pc_fmi_version = 2\<rparr>"

definition cfg_fmi3 :: fmi_parse_config where
  "cfg_fmi3 = \<lparr>pc_runtime = FMI3_ANN ''runtime'', pc_cmd = (\<lambda>rt. FMI3_ANN_FMT (rt @ ''.cmd.'')),
     pc_logloc = FMI3_ANN ''loglocation'', pc_loglevel = FMI3_ANN ''loglevel'',
     pc_str_rt_param = (\<lambda>rt. FMI3_MV ''String'' (rt @ ''.parameter'')),
     pc_float_rt_param = (\<lambda>rt. FMI3_MV ''Float64'' (rt @ ''.parameter'')),
     pc_str_envar = FMI3_MV ''String'' ''script.parameter'', pc_float_envar = FMI3_MV ''Float64'' ''script.parameter'',
     pc_fmi_version = 3\<rparr>"

subsection \<open>Simulation settings\<close>

definition runtime_map :: "(string \<times> int) list" where
  "runtime_map = [(''simer'', FMIGATEWAY_RUNTIME_SIMER)]"

definition settings_spec :: "fmi_parse_config \<Rightarrow> xml_field_spec list" where
  "settings_spec cfg = [
     \<lparr>xf_type = XmlFieldTypeS, xf_xpath = ''/*'', xf_field = ''model_name'', xf_attr = Some ''modelName'', xf_map = None\<rparr>,
     \<lparr>xf_type = XmlFieldTypeD, xf_xpath = ''//DefaultExperiment'', xf_field = ''end_time'', xf_attr = Some ''stopTime'', xf_map = None\<rparr>,
     \<lparr>xf_type = XmlFieldTypeD, xf_xpath = ''//DefaultExperiment'', xf_field = ''step_size'', xf_attr = Some ''stepSize'', xf_map = None\<rparr>,
     \<lparr>xf_type = XmlFieldTypeI, xf_xpath = pc_runtime cfg, xf_field = ''runtime.type'', xf_attr = None, xf_map = Some runtime_map\<rparr>,
     \<lparr>xf_type = XmlFieldTypeS, xf_xpath = pc_logloc cfg, xf_field = ''runtime.log_location'', xf_attr = None, xf_map = None\<rparr>,
     \<lparr>xf_type = XmlFieldTypeI, xf_xpath = pc_loglevel cfg, xf_field = ''log_level'', xf_attr = None, xf_map = None\<rparr>]"

text \<open>The store into the fields of \<open>FmiGateway.settings\<close>.\<close>

definition put_setting :: "string \<Rightarrow> xml_value \<Rightarrow> ('y, 'g) gateway \<Rightarrow> ('y, 'g) gateway" where
  "put_setting field v g = (case v of
      VString s \<Rightarrow> if field = ''model_name'' then g\<lparr>gw_model_name := Some s\<rparr>
                   else if field = ''runtime.log_location'' then g\<lparr>gw_log_location := Some s\<rparr> else g
    | VDouble x \<Rightarrow> if field = ''end_time'' then g\<lparr>gw_end_time := x\<rparr>
                   else if field = ''step_size'' then g\<lparr>gw_step_size := x\<rparr> else g
    | VInt i \<Rightarrow> if field = ''runtime.type'' then g\<lparr>gw_runtime_type := i\<rparr>
                else if field = ''log_level'' then g\<lparr>gw_log_level := i\<rparr> else g
    | _ \<Rightarrow> g)"

definition parse_simulation_settings ::
  "gw_xml_lib \<Rightarrow> xml_node \<Rightarrow> fmi_parse_config \<Rightarrow> ('m, 'y, 'g) gateway_fmu \<Rightarrow> ('m, 'y, 'g) gateway_fmu option" where
  "parse_simulation_settings X ctx cfg f = do {
     g \<leftarrow> get_gw f;
     let g1 = xml_load_object (gx_xpath X) (gx_strtod X) put_setting ctx (settings_spec cfg)
                (g\<lparr>gw_log_level := gx_log_error X, gw_runtime_type := FMIGATEWAY_RUNTIME_LEGACY\<rparr>);
     let loc = gw_log_location g1;
     Some (set_gw f (if loc = None \<or> loc = Some [] then g1\<lparr>gw_log_location := Some (inst_resource_location f)\<rparr> else g1)) }"

subsection \<open>Runtime parameters and commands\<close>

definition runtime_name :: "int \<Rightarrow> string" where
  "runtime_name t = (if t = FMIGATEWAY_RUNTIME_SIMER then ''simer'' else ''legacy'')"

text \<open>\<open>hashmap_set_double\<close> stores the value in a double of its own, \<open>hashmap_set_string\<close> a copy.\<close>

definition set_double_input :: "'m clib \<Rightarrow> ('m, 'd) fmu \<Rightarrow> string \<Rightarrow> f64 \<Rightarrow> ('m, 'd) fmu" where
  "set_double_input L f k x = f\<lparr>mem_dbl := mem_dbl f @ [x], scalar_input := hm_set L (scalar_input f) k (PDouble (DHeap (length (mem_dbl f))))\<rparr>"

definition text_bytes :: "string \<Rightarrow> bytes" where
  "text_bytes s = map of_char s"

definition set_string_input :: "'m clib \<Rightarrow> ('m, 'd) fmu \<Rightarrow> string \<Rightarrow> string \<Rightarrow> ('m, 'd) fmu" where
  "set_string_input L f k s = f\<lparr>string_input := hm_set L (string_input f) k (PString (text_bytes s))\<rparr>"

definition cmd_generator :: "(('m, 'y, 'g) gateway_fmu, unit) xml_generator" where
  "cmd_generator node f = do {
     g \<leftarrow> get_gw f;
     let cmd = (case xn_text node of None \<Rightarrow> [] | Some t \<Rightarrow> t);
     Some (Some (), set_gw f (g\<lparr>gw_cmds := gw_cmds g @ [cmd]\<rparr>)) }"

definition rt_param_generator :: "'m clib \<Rightarrow> bool \<Rightarrow> (('m, 'y, 'g) gateway_fmu, unit) xml_generator" where
  "rt_param_generator L is_string node f = (case xml_prop node ''valueReference'' of
      None \<Rightarrow> Some (Some (), f)
    | Some vref \<Rightarrow> Some (Some (), if is_string then set_string_input L f vref [] else set_double_input L f vref 0))"

definition parse_runtime ::
  "'m clib \<Rightarrow> gw_xml_lib \<Rightarrow> xml_node \<Rightarrow> fmi_parse_config \<Rightarrow> ('m, 'y, 'g) gateway_fmu \<Rightarrow> ('m, 'y, 'g) gateway_fmu option" where
  "parse_runtime L X ctx cfg f = do {
     g \<leftarrow> get_gw f;
     if gw_runtime_type g = FMIGATEWAY_RUNTIME_LEGACY then Some f
     else do {
       let rt = runtime_name (gw_runtime_type g);
       (_, f1) \<leftarrow> xml_enumerate (gx_xpath X) ctx (snprintf 256 (pc_str_rt_param cfg rt)) (rt_param_generator L True) 0 f;
       (_, f2) \<leftarrow> xml_enumerate (gx_xpath X) ctx (snprintf 256 (pc_float_rt_param cfg rt)) (rt_param_generator L False) 0 f1;
       g2 \<leftarrow> get_gw f2;
       (_, f3) \<leftarrow> xml_enumerate (gx_xpath X) ctx (snprintf 256 (pc_cmd cfg rt)) cmd_generator 0 (set_gw f2 (g2\<lparr>gw_cmds := []\<rparr>));
       Some f3 } }"

subsection \<open>Environment variables of the scripts\<close>

definition NUMERIC_ENVAR_LEN :: nat where "NUMERIC_ENVAR_LEN = 24"

text \<open>The property of the first child element with the name.\<close>

fun child_prop :: "string \<Rightarrow> string \<Rightarrow> xml_node list \<Rightarrow> string option" where
  "child_prop name prop [] = None"
| "child_prop name prop (c # cs) = (if xn_element c \<and> xn_name c = name then xml_prop c prop else child_prop name prop cs)"

definition get_start_value :: "xml_node \<Rightarrow> bool \<Rightarrow> nat \<Rightarrow> string option" where
  "get_start_value var is_string fmi_version =
    (if is_string then
       (if fmi_version = 3 then child_prop ''Start'' ''value'' (xn_children var) else child_prop ''String'' ''start'' (xn_children var))
     else
       (if fmi_version = 3 then xml_prop var ''start'' else child_prop ''Real'' ''start'' (xn_children var)))"

definition envar_generator ::
  "'m clib \<Rightarrow> gw_xml_lib \<Rightarrow> fmi_parse_config \<Rightarrow> bool \<Rightarrow> (('m, 'y, 'g) gateway_fmu, gw_param) xml_generator" where
  "envar_generator L X cfg is_string node f =
    (case (xml_prop node ''valueReference'', xml_prop node ''name'') of
       (Some vref, Some name) \<Rightarrow>
         (let start = get_start_value node is_string (pc_fmi_version cfg) in
          if is_string then
            (let str_val = (case start of None \<Rightarrow> [] | Some s \<Rightarrow> s)
             in Some (Some \<lparr>gp_name = Some name, gp_type = ''String'', gp_vref = Some vref, gp_default = Some str_val\<rparr>,
                      set_string_input L f vref str_val))
          else
            (let value = (case start of None \<Rightarrow> 0 | Some s \<Rightarrow> gx_strtod X s)
             in Some (Some \<lparr>gp_name = Some name, gp_type = ''Real'', gp_vref = Some vref,
                            gp_default = Some (snprintf NUMERIC_ENVAR_LEN (gx_fmt_f X value))\<rparr>,
                      set_double_input L f vref value)))
     | _ \<Rightarrow> Some (None, f))"

definition parse_xml_script_envar ::
  "'m clib \<Rightarrow> gw_xml_lib \<Rightarrow> xml_node \<Rightarrow> fmi_parse_config
     \<Rightarrow> ('m, 'y, 'g) gateway_fmu \<Rightarrow> ('m, 'y, 'g) gateway_fmu option" where
  "parse_xml_script_envar L X ctx cfg f = do {
     (es, f1) \<leftarrow> xml_enumerate (gx_xpath X) ctx (pc_str_envar cfg) (envar_generator L X cfg True) 0 f;
     (fs, f2) \<leftarrow> xml_enumerate (gx_xpath X) ctx (pc_float_envar cfg) (envar_generator L X cfg False) 0 f1;
     g \<leftarrow> get_gw f2;
     Some (set_gw f2 (g\<lparr>gw_envar := es @ fs\<rparr>)) }"

subsection \<open>The whole description\<close>

text \<open>\<open>parse\<close> is \<open>xmlParseFile\<close>; a file that does not parse only prints a message.\<close>

definition fmigateway_parse_xml_config ::
  "'m clib \<Rightarrow> gw_xml_lib \<Rightarrow> fmi_parse_config
     \<Rightarrow> ('m, 'y, 'g) gateway_fmu \<Rightarrow> ('m, 'y, 'g) gateway_fmu option" where
  "fmigateway_parse_xml_config L X cfg f =
    (case gx_parse X (snprintf PATH_MAX (inst_resource_location f @ ''/../modelDescription.xml'')) of
       None \<Rightarrow> Some f
     | Some ctx \<Rightarrow> do {
         f1 \<leftarrow> parse_simulation_settings X ctx cfg f;
         f2 \<leftarrow> parse_runtime L X ctx cfg f1;
         parse_xml_script_envar L X ctx cfg f2 })"

definition fmigateway_parse_xml ::
  "'m clib \<Rightarrow> gw_xml_lib
     \<Rightarrow> ('m, 'y, 'g) gateway_fmu \<Rightarrow> ('m, 'y, 'g) gateway_fmu option" where
  "fmigateway_parse_xml L X f =
     fmigateway_parse_xml_config L X (if inst_version f = 3 then cfg_fmi3 else cfg_fmi2) f"

end
