(* ===== verification/GatewayYaml.thy ===== *)
theory GatewayYaml
  imports GatewayXml
begin

section \<open>The FMI gateway: the stack documents (dse/fmigateway/parser.c)\<close>

text \<open>
  In the legacy layout the gateway reads its settings and the models it has to start from YAML
  documents. The YAML library is the parameter \<open>gw_yaml\<close>: the operations of \<open>yaml\<close> the MCL parser
  uses, and the node types, sequences, mappings, names and the file loader; \<open>gy_search\<close> are the
  documents the schema search visits, with its return code. \<open>env\<close> is the environment and \<open>lg\<close> the
  logger. \<open>None\<close> is a null pointer passed to \<open>strlen\<close> or \<open>strdup\<close>.
\<close>

record 'y gw_yaml =
  gy :: "'y yaml"
  gy_int :: "'y \<Rightarrow> string \<Rightarrow> int option"
  gy_type :: "'y \<Rightarrow> nat"
  gy_seq :: "'y \<Rightarrow> 'y list"
  gy_mapping :: "'y \<Rightarrow> (string \<times> 'y) list"
  gy_name :: "'y \<Rightarrow> string option"
  gy_load :: "string \<Rightarrow> 'y list option \<Rightarrow> 'y list option"
  gy_search :: "'y list option \<Rightarrow> string \<Rightarrow> string \<Rightarrow> 'y list \<times> int"
  gy_path_cat :: "string \<Rightarrow> string \<Rightarrow> string"
  gy_fmt_lf :: "f64 \<Rightarrow> string"

abbreviation get_string :: "'y gw_yaml \<Rightarrow> 'y \<Rightarrow> string \<Rightarrow> string option" where
  "get_string Y n path \<equiv> y_string (gy Y) (Some n) path"

definition DEFAULT_END_TIME :: f64 where "DEFAULT_END_TIME = 0x40AC200000000000"

definition DEFAULT_STEP_SIZE :: f64 where "DEFAULT_STEP_SIZE = 0x3F40624DD2F1A9FC"

definition DEFAULT_LOG_LEVEL :: int where "DEFAULT_LOG_LEVEL = 6"

definition DEFAULT_TIMEOUT :: f64 where "DEFAULT_TIMEOUT = 0x404E000000000000"

definition or_default :: "'a option \<Rightarrow> 'a \<Rightarrow> 'a" where
  "or_default x d = (case x of None \<Rightarrow> d | Some v \<Rightarrow> v)"

subsection \<open>One model\<close>

text \<open>The executable: the node's own, then the environment's, then the document's.\<close>

definition get_exe :: "'y gw_yaml \<Rightarrow> (string \<rightharpoonup> string) \<Rightarrow> 'y \<Rightarrow> 'y \<Rightarrow> string \<Rightarrow> string \<Rightarrow> string option" where
  "get_exe Y env doc node path type = (case get_string Y node path of Some s \<Rightarrow> Some s
     | None \<Rightarrow> (case env type of Some s \<Rightarrow> Some s
       | None \<Rightarrow> (case y_find (gy Y) doc ''spec/runtime/env'' of None \<Rightarrow> None | Some e \<Rightarrow> get_string Y e type)))"

definition build_delimited_str :: "string option \<Rightarrow> string option \<Rightarrow> string \<Rightarrow> string option" where
  "build_delimited_str dest src delim = do {
     s \<leftarrow> src;
     Some (case dest of None \<Rightarrow> s | Some d \<Rightarrow> if d = [] then s else d @ delim @ s) }"

definition generate_yaml_files :: "'y gw_yaml \<Rightarrow> 'y \<Rightarrow> string option option" where
  "generate_yaml_files Y model_n = (case y_find (gy Y) model_n ''runtime/files'' of
      None \<Rightarrow> Some None
    | Some f_node \<Rightarrow> foldM (\<lambda>yaml fi. map_option Some (build_delimited_str yaml (y_scalar (gy Y) fi) '' '')) None (gy_seq Y f_node))"

text \<open>
  Every key of the mapping has an entry; that of a node which is no scalar stays zero and so ends
  the list for its readers.
\<close>

definition no_param :: gw_param where
  "no_param = \<lparr>gp_name = None, gp_type = [], gp_vref = None, gp_default = None\<rparr>"

definition ntl :: "gw_param list \<Rightarrow> gw_param list" where
  "ntl es = takeWhile (\<lambda>e. gp_name e \<noteq> None) es"

definition generate_model_envar :: "'y gw_yaml \<Rightarrow> 'y \<Rightarrow> gw_param list" where
  "generate_model_envar Y model_n = (case y_find (gy Y) model_n ''runtime/env'' of
      None \<Rightarrow> []
    | Some node \<Rightarrow> if gy_type Y node \<noteq> 3 then []
        else ntl (map (\<lambda>(k, n). if gy_type Y n \<noteq> 1 then no_param
               else no_param\<lparr>gp_name := gy_name Y n, gp_default := y_scalar (gy Y) n\<rparr>) (gy_mapping Y node)))"

definition show_str :: "string option \<Rightarrow> string" where
  "show_str s = (case s of None \<Rightarrow> ''(null)'' | Some t \<Rightarrow> t)"

definition print_model_info :: "('m, 'd) logf \<Rightarrow> 'y gw_yaml \<Rightarrow> windows_model \<Rightarrow> ('m, 'd) fmu \<Rightarrow> ('m, 'd) fmu" where
  "print_model_info lg Y m f = foldl (\<lambda>f msg. lg f 4 (Some ''Notice'') msg) f
     [show_str (wm_name m), ''  exe: '' @ show_str (wm_exe m), ''  Yaml: '' @ show_str (wm_yaml m),
      ''  Stepsize: '' @ gy_fmt_lf Y (wm_step_size m), ''  Endtime: '' @ gy_fmt_lf Y (wm_end_time m),
      ''  Timout: '' @ gy_fmt_lf Y (wm_timeout m), ''  Loglevel: '' @ show_int (wm_log_level m)]"

definition gwfmu_model_generator ::
  "('m, 'd) logf \<Rightarrow> 'y gw_yaml \<Rightarrow> (string \<rightharpoonup> string) \<Rightarrow> 'y \<Rightarrow> 'y \<Rightarrow> 'y option \<Rightarrow> string \<Rightarrow> ('m, 'd) fmu
     \<Rightarrow> (windows_model option \<times> ('m, 'd) fmu) option" where
  "gwfmu_model_generator lg Y env model_n gw_doc doc exe f =
    (if Option.bind (y_find (gy Y) model_n ''name'') (y_scalar (gy Y)) = None then Some (None, f)
     else case get_string Y model_n ''name'' of None \<Rightarrow> Some (None, f)
     | Some name \<Rightarrow> do {
         yaml \<leftarrow> generate_yaml_files Y model_n;
         let timeout = (case y_double (gy Y) model_n ''annotations/cli/timeout'' of Some t \<Rightarrow> t
               | None \<Rightarrow> or_default (Option.bind doc (\<lambda>d. y_double (gy Y) d ''spec/runtime/env/timeout'')) DEFAULT_TIMEOUT);
         let m = \<lparr>wm_exe = get_exe Y env gw_doc model_n ''annotations/cli/exe'' exe, wm_args = None, wm_name = Some name,
               wm_step_size = or_default (y_double (gy Y) model_n ''annotations/cli/step_size'') DEFAULT_STEP_SIZE,
               wm_end_time = or_default (y_double (gy Y) model_n ''annotations/cli/end_time'') DEFAULT_END_TIME,
               wm_log_level = or_default (gy_int Y model_n ''annotations/cli/log_level'') DEFAULT_LOG_LEVEL,
               wm_yaml = yaml, wm_timeout = timeout, wm_stacked = False, wm_envar = generate_model_envar Y model_n\<rparr>;
         Some (Some m, print_model_info lg Y m f) })"

subsection \<open>The models of a stack\<close>

definition build_models ::
  "('m, 'd) logf \<Rightarrow> 'y gw_yaml \<Rightarrow> (string \<rightharpoonup> string) \<Rightarrow> 'y list \<Rightarrow> 'y \<Rightarrow> 'y \<Rightarrow> windows_model list \<times> ('m, 'd) fmu
     \<Rightarrow> (windows_model list \<times> ('m, 'd) fmu) option" where
  "build_models lg Y env nodes gw_doc doc s = foldM (\<lambda>(ms, f) n. do {
     (m, g) \<leftarrow> gwfmu_model_generator lg Y env n gw_doc (Some doc) ''MODELC_EXE_PATH'' f;
     Some (case m of None \<Rightarrow> (ms, g) | Some m \<Rightarrow> (ms @ [m], g)) }) s nodes"

text \<open>The names and the YAML files of all models of the stack, models without a name left out.\<close>

definition stacked_step :: "'y gw_yaml \<Rightarrow> string option \<times> string option \<Rightarrow> 'y \<Rightarrow> (string option \<times> string option) option" where
  "stacked_step Y s n = (case s of (names, yaml) \<Rightarrow> (case get_string Y n ''name'' of None \<Rightarrow> Some (names, yaml)
     | Some name \<Rightarrow> do {
         names1 \<leftarrow> build_delimited_str names (Some name) '','';
         model_yaml \<leftarrow> generate_yaml_files Y n;
         case model_yaml of None \<Rightarrow> Some (Some names1, yaml)
         | Some y \<Rightarrow> do { yaml1 \<leftarrow> build_delimited_str yaml (Some y) '' ''; Some (Some names1, Some yaml1) } }))"

definition build_stacked_model ::
  "('m, 'd) logf \<Rightarrow> 'y gw_yaml \<Rightarrow> (string \<rightharpoonup> string) \<Rightarrow> string \<Rightarrow> 'y list \<Rightarrow> 'y \<Rightarrow> 'y \<Rightarrow> windows_model list \<times> ('m, 'd) fmu
     \<Rightarrow> (windows_model list \<times> ('m, 'd) fmu) option" where
  "build_stacked_model lg Y env stack_name nodes gw_doc doc s = do {
     (names, yaml) \<leftarrow> foldM (stacked_step Y) (None, Some stack_name) nodes;
     let m = \<lparr>wm_exe = get_exe Y env gw_doc doc ''spec/runtime/env/MODELC_EXE_PATH'' ''MODELC_EXE_PATH'', wm_args = None,
           wm_name = names,
           wm_step_size = or_default (y_double (gy Y) doc ''spec/runtime/env/step_size'') DEFAULT_STEP_SIZE,
           wm_end_time = or_default (y_double (gy Y) doc ''spec/runtime/env/end_time'') DEFAULT_END_TIME,
           wm_log_level = or_default (gy_int Y doc ''spec/runtime/env/log_level'') DEFAULT_LOG_LEVEL,
           wm_yaml = yaml, wm_timeout = or_default (y_double (gy Y) doc ''spec/runtime/env/timeout'') DEFAULT_TIMEOUT,
           wm_stacked = True, wm_envar = []\<rparr>;
     case s of (ms, f) \<Rightarrow> Some (ms @ [m], print_model_info lg Y m f) }"

definition parse_models ::
  "('m, 'd) logf \<Rightarrow> 'y gw_yaml \<Rightarrow> (string \<rightharpoonup> string) \<Rightarrow> string \<Rightarrow> 'y \<Rightarrow> 'y \<Rightarrow> bool \<Rightarrow> windows_model list \<times> ('m, 'd) fmu
     \<Rightarrow> (windows_model list \<times> ('m, 'd) fmu) option" where
  "parse_models lg Y env stack_name gw_doc doc stacked s = (case y_find (gy Y) doc ''spec/models'' of None \<Rightarrow> Some s
     | Some n \<Rightarrow> if gy_type Y n \<noteq> 2 \<or> gy_seq Y n = [] then Some s
         else if stacked then build_stacked_model lg Y env stack_name (gy_seq Y n) gw_doc doc s
         else build_models lg Y env (gy_seq Y n) gw_doc doc s)"

definition parse_stack_doc ::
  "('m, 'd) logf \<Rightarrow> 'y gw_yaml \<Rightarrow> (string \<rightharpoonup> string) \<Rightarrow> string \<Rightarrow> 'y \<Rightarrow> windows_model list \<times> ('m, 'd) fmu \<Rightarrow> 'y
     \<Rightarrow> (windows_model list \<times> ('m, 'd) fmu) option" where
  "parse_stack_doc lg Y env stack_name gw_doc s doc =
    (if Option.bind (y_find (gy Y) doc ''kind'') (y_scalar (gy Y)) \<noteq> Some ''Stack'' then Some s
     else parse_models lg Y env stack_name gw_doc doc (or_default (y_bool (gy Y) doc ''spec/runtime/stacked'') False) s)"

text \<open>The loaded documents are kept in the session of the instance, the last stack's in the end.\<close>

definition upd_session :: "('m, 'y, 'g) gateway_fmu \<Rightarrow> ('y gw_session \<Rightarrow> 'y gw_session) \<Rightarrow> ('m, 'y, 'g) gateway_fmu option" where
  "upd_session f h = do { g \<leftarrow> get_gw f; s \<leftarrow> gw_session g; Some (set_gw f (g\<lparr>gw_session := Some (h s)\<rparr>)) }"

definition parse_stack ::
  "('m, ('y, 'g) gw_data) logf \<Rightarrow> 'y gw_yaml \<Rightarrow> 'y \<Rightarrow> windows_model list \<times> ('m, 'y, 'g) gateway_fmu \<Rightarrow> string
     \<Rightarrow> (windows_model list \<times> ('m, 'y, 'g) gateway_fmu) option" where
  "parse_stack lg Y gw_doc s stack_name = (case s of (ms, f) \<Rightarrow> do {
     let f1 = lg f 0 (Some ''Debug'') (''Loading stack: '' @ stack_name);
     let files = gy_load Y (gy_path_cat Y (inst_resource_location f1) stack_name) None;
     f2 \<leftarrow> upd_session f1 (\<lambda>ss. ss\<lparr>gs_stack_files := files\<rparr>);
     case files of None \<Rightarrow> Some (ms, f2)
     | Some docs \<Rightarrow> foldM (parse_stack_doc lg Y (gd_env (fmu_data f2)) stack_name gw_doc) (ms, f2) docs })"

text \<open>\<open>strtok_r\<close> with the delimiters semicolon and comma.\<close>

definition stack_names :: "string \<Rightarrow> string list" where
  "stack_names s = tokens (CHR '';'') (map (\<lambda>c. if c = CHR '','' then CHR '';'' else c) s)"

definition parse_model_stacks ::
  "('m, ('y, 'g) gw_data) logf \<Rightarrow> 'y gw_yaml \<Rightarrow> 'y \<Rightarrow> ('m, 'y, 'g) gateway_fmu \<Rightarrow> ('m, 'y, 'g) gateway_fmu option" where
  "parse_model_stacks lg Y gw_doc f = (case get_string Y gw_doc ''metadata/annotations/model_stack'' of None \<Rightarrow> Some f
     | Some ms \<Rightarrow> do {
         f1 \<leftarrow> upd_session f (\<lambda>s. s\<lparr>gs_model_stack := Some ms\<rparr>);
         (models, f2) \<leftarrow> foldM (parse_stack lg Y gw_doc) ([], f1) (stack_names ms);
         upd_session f2 (\<lambda>s. s\<lparr>gs_w_models := models\<rparr>) })"

subsection \<open>The gateway's own settings\<close>

definition EINVAL_GW :: int where "EINVAL_GW = 22"

definition parse_gateway :: "'y gw_yaml \<Rightarrow> 'y \<Rightarrow> ('m, 'y, 'g) gateway_fmu \<Rightarrow> (int \<times> ('m, 'y, 'g) gateway_fmu) option" where
  "parse_gateway Y doc f = do {
     g \<leftarrow> get_gw f;
     case y_find_in_seq (gy Y) doc ''spec/models'' [(''name'', ''gateway'')] of None \<Rightarrow> Some (EINVAL_GW, f)
     | Some n \<Rightarrow>
         (let env = gd_env (fmu_data f);
              g1 = g\<lparr>gw_step_size := or_default (y_double (gy Y) n ''annotations/step_size'') (gw_step_size g),
                gw_log_level := or_default (gy_int Y n ''annotations/log_level'') DEFAULT_LOG_LEVEL,
                gw_log_location := (case get_string Y n ''annotations/log_location'' of None \<Rightarrow> gw_log_location g | Some s \<Rightarrow> Some s),
                gw_startup_cmd := (case env ''GATEWAY_INIT_CMD'' of Some c \<Rightarrow> Some c
                   | None \<Rightarrow> get_string Y n ''runtime/env/GATEWAY_INIT_CMD''),
                gw_shutdown_cmd := (case env ''GATEWAY_SHUTDOWN_CMD'' of Some c \<Rightarrow> Some c
                   | None \<Rightarrow> get_string Y n ''runtime/env/GATEWAY_SHUTDOWN_CMD'')\<rparr>
          in Some (0, set_gw f g1)) }"

definition parse_simbus ::
  "('m, ('y, 'g) gw_data) logf \<Rightarrow> 'y gw_yaml \<Rightarrow> 'y \<Rightarrow> ('m, 'y, 'g) gateway_fmu \<Rightarrow> (windows_model option \<times> ('m, 'y, 'g) gateway_fmu) option" where
  "parse_simbus lg Y root f = (case y_find_in_seq (gy Y) root ''spec/models'' [(''name'', ''simbus'')] of
      None \<Rightarrow> Some (None, lg f 0 (Some ''Info'') ''Simbus not running on windows.'')
    | Some n \<Rightarrow> gwfmu_model_generator lg Y (gd_env (fmu_data f)) n root None ''SIMBUS_EXE_PATH'' f)"

text \<open>\<open>strpbrk(s, ":")\<close> and the text after the second colon of \<open>redis://host:port\<close>.\<close>

definition after_colon :: "string \<Rightarrow> string option" where
  "after_colon s = (case dropWhile (\<lambda>c. c \<noteq> CHR '':'') s of [] \<Rightarrow> None | c # t \<Rightarrow> Some t)"

definition redis_port :: "string option \<Rightarrow> string" where
  "redis_port uri = or_default (Option.bind (Option.bind uri after_colon) after_colon) ''6379''"

definition parse_redis :: "'y gw_yaml \<Rightarrow> (string \<rightharpoonup> string) \<Rightarrow> 'y \<Rightarrow> windows_model option" where
  "parse_redis Y env root = (case y_find (gy Y) root ''spec/runtime/env'' of None \<Rightarrow> None
     | Some n_env \<Rightarrow>
         (let uri = (case get_string Y root ''spec/connection/transport/redispubsub/uri'' of Some u \<Rightarrow> Some u
                | None \<Rightarrow> get_string Y root ''spec/connection/transport/redis/uri'');
              exe = (case env ''REDIS_EXE_PATH'' of Some e \<Rightarrow> Some e | None \<Rightarrow> get_string Y n_env ''REDIS_EXE_PATH'')
          in case exe of None \<Rightarrow> None
             | Some e \<Rightarrow> Some \<lparr>wm_exe = Some e, wm_args = Some (redis_port uri), wm_name = Some ''transport'', wm_step_size = 0,
                 wm_end_time = DEFAULT_END_TIME, wm_log_level = 0, wm_yaml = None, wm_timeout = 0, wm_stacked = False, wm_envar = []\<rparr>))"

subsection \<open>The annotations of the stack\<close>

text \<open>
  \<open>dse_yaml_get_uint\<close> stores four bytes, lowest first, at a flag of one byte.
\<close>

definition put_uint :: "nat \<Rightarrow> u32 option \<Rightarrow> bytes \<Rightarrow> bytes" where
  "put_uint i v bs = (case v of None \<Rightarrow> bs
     | Some w \<Rightarrow> bs[i := ucast w, i + 1 := ucast (drop_bit 8 w), i + 2 := ucast (drop_bit 16 w), i + 3 := ucast (drop_bit 24 w)])"

definition get_stack_annotations ::
  "('m, ('y, 'g) gw_data) logf \<Rightarrow> 'y gw_yaml \<Rightarrow> 'y \<Rightarrow> ('m, 'y, 'g) gateway_fmu \<Rightarrow> ('m, 'y, 'g) gateway_fmu option" where
  "get_stack_annotations lg Y doc f = (case y_find (gy Y) doc ''metadata/annotations'' of None \<Rightarrow> Some f
     | Some n \<Rightarrow> do {
         f1 \<leftarrow> upd_session f (\<lambda>s. s\<lparr>gs_flags :=
           put_uint 3 (y_uint (gy Y) n ''create_logfiles'') (put_uint 2 (y_uint (gy Y) n ''show_redis'')
             (put_uint 1 (y_uint (gy Y) n ''show_simbus'') (put_uint 0 (y_uint (gy Y) n ''show_models'') (gs_flags s))))\<rparr>);
         if or_default (y_uint (gy Y) n ''start_redis'') 1 \<noteq> 0 then do {
           f2 \<leftarrow> upd_session f1 (\<lambda>s. s\<lparr>gs_transport := parse_redis Y (gd_env (fmu_data f1)) doc\<rparr>);
           Some (lg f2 0 (Some ''Debug'') ''Redis will be started by the gateway'') }
         else Some (lg f1 0 (Some ''Debug'') ''Redis will NOT be started by the gateway'') })"

subsection \<open>The stack of the gateway\<close>

definition gateway_stack ::
  "('m, ('y, 'g) gw_data) logf \<Rightarrow> 'y gw_yaml \<Rightarrow> ('m, 'y, 'g) gateway_fmu \<Rightarrow> 'y \<Rightarrow> ('m, 'y, 'g) gateway_fmu option" where
  "gateway_stack lg Y f doc = do {
     g \<leftarrow> get_gw f;
     f1 \<leftarrow> get_stack_annotations lg Y doc (set_gw f (g\<lparr>gw_session := Some zero_session\<rparr>));
     (simbus, f2) \<leftarrow> parse_simbus lg Y doc f1;
     f3 \<leftarrow> upd_session f2 (\<lambda>s. s\<lparr>gs_simbus := simbus\<rparr>);
     (_, f4) \<leftarrow> parse_gateway Y doc f3;
     parse_model_stacks lg Y doc f4 }"

definition fmigateway_parse ::
  "('m, ('y, 'g) gw_data) logf \<Rightarrow> 'y gw_yaml \<Rightarrow> ('m, 'y, 'g) gateway_fmu \<Rightarrow> ('m, 'y, 'g) gateway_fmu option" where
  "fmigateway_parse lg Y f = do {
     g \<leftarrow> get_gw f;
     let docs = foldl (\<lambda>docs file. gy_load Y file docs) (gw_doc_list g) (gw_yaml_files g);
     let (visited, rc) = gy_search Y docs ''Stack'' ''gateway'';
     f1 \<leftarrow> foldM (gateway_stack lg Y) (set_gw f (g\<lparr>gw_doc_list := docs\<rparr>)) visited;
     Some (if rc \<noteq> 0 then lg f1 5 (Some ''Fatal'') ''Could not locate stack.yaml'' else f1) }"

subsection \<open>The command line of a stacked model\<close>

fun join_with :: "string \<Rightarrow> string list \<Rightarrow> string" where
  "join_with d [] = []"
| "join_with d [x] = x"
| "join_with d (x # y # zs) = x @ d @ join_with d (y # zs)"

lemma join_with_snoc: "xs \<noteq> [] \<Longrightarrow> join_with d (xs @ [y]) = join_with d xs @ d @ y"
proof (induction d xs rule: join_with.induct)
  case (3 d x y' zs)
  then show ?case by (cases zs) simp_all
qed simp_all

lemma join_with_empty: "join_with d xs = [] \<Longrightarrow> d \<noteq> [] \<Longrightarrow> xs = [] \<or> xs = [[]]"
  by (cases "(d, xs)" rule: join_with.cases) simp_all

text \<open>What the models of the stack contribute: the names, and the YAML files of the named ones.\<close>

definition stack_model_names :: "'y gw_yaml \<Rightarrow> 'y list \<Rightarrow> string list" where
  "stack_model_names Y ns = List.map_filter (\<lambda>n. get_string Y n ''name'') ns"

definition stack_model_files :: "'y gw_yaml \<Rightarrow> 'y list \<Rightarrow> string list" where
  "stack_model_files Y ns = List.map_filter (\<lambda>n. if get_string Y n ''name'' = None then None else Option.bind (generate_yaml_files Y n) id) ns"

definition joined :: "string \<Rightarrow> string list \<Rightarrow> string option" where
  "joined d xs = (if xs = [] then None else Some (join_with d xs))"

lemma build_delimited_joined:
  assumes "d \<noteq> []" "[] \<notin> set xs"
  shows "build_delimited_str (joined d xs) (Some s) d = joined d (xs @ [s])"
  using assms join_with_empty [of d xs] by (auto simp: build_delimited_str_def joined_def join_with_snoc)

lemma stacked_fold:
  assumes "\<forall>n \<in> set ns. get_string Y n ''name'' \<noteq> Some [] \<and> generate_yaml_files Y n \<noteq> None \<and> generate_yaml_files Y n \<noteq> Some (Some [])"
    "[] \<notin> set xs" "[] \<notin> set ys"
  shows "foldM (stacked_step Y) (joined '','' xs, joined '' '' ys) ns =
    Some (joined '','' (xs @ stack_model_names Y ns), joined '' '' (ys @ stack_model_files Y ns))"
  using assms
proof (induction ns arbitrary: xs ys)
  case Nil
  show ?case by (simp add: stack_model_names_def stack_model_files_def List.map_filter_simps)
next
  case (Cons n ns)
  show ?case
  proof (cases "get_string Y n ''name''")
    case None
    with Cons.IH [of xs ys] Cons.prems show ?thesis
      by (simp add: stacked_step_def stack_model_names_def stack_model_files_def List.map_filter_simps)
  next
    case (Some name)
    with Cons.prems have n: "name \<noteq> []" by auto
    from Cons.prems(1) obtain y where y: "generate_yaml_files Y n = Some y" "y \<noteq> Some []" by auto
    show ?thesis
    proof (cases y)
      case None
      with Some y(1) n Cons.IH [of "xs @ [name]" ys] Cons.prems show ?thesis
        using build_delimited_joined [of "'',''" xs name]
        by (simp add: stacked_step_def stack_model_names_def stack_model_files_def List.map_filter_simps joined_def)
    next
      case f: (Some f)
      with Some y n Cons.IH [of "xs @ [name]" "ys @ [f]"] Cons.prems show ?thesis
        using build_delimited_joined [of "'',''" xs name] build_delimited_joined [of "'' ''" ys f]
        by (simp add: stacked_step_def stack_model_names_def stack_model_files_def List.map_filter_simps joined_def)
    qed
  qed
qed

text \<open>
  C34: A stacked model is one model for the whole stack: its name lists the names of the models
  of the stack, separated by commas and in their order, models without a name left out, and its
  YAML argument is the stack file followed by the files of these models, separated by blanks.
\<close>

theorem stacked_model_arguments:
  assumes "\<forall>n \<in> set ns. get_string Y n ''name'' \<noteq> Some [] \<and> generate_yaml_files Y n \<noteq> None \<and> generate_yaml_files Y n \<noteq> Some (Some [])"
    "stack \<noteq> []"
  shows "\<exists>m g. build_stacked_model lg Y env stack ns gw_doc doc (ms, f) = Some (ms @ [m], g) \<and> wm_stacked m \<and>
    wm_name m = joined '','' (stack_model_names Y ns) \<and> wm_yaml m = Some (join_with '' '' (stack # stack_model_files Y ns))"
proof -
  from stacked_fold [OF assms(1), of "[]" "[stack]"] assms(2)
  have "foldM (stacked_step Y) (None, Some stack) ns =
      Some (joined '','' (stack_model_names Y ns), Some (join_with '' '' (stack # stack_model_files Y ns)))"
    by (simp add: joined_def)
  then show ?thesis by (simp add: build_stacked_model_def Let_def)
qed

text \<open>A stack of three models, the second without a name; each has two files.\<close>

definition demo_stack_yaml :: "nat gw_yaml" where
  "demo_stack_yaml = \<lparr>gy = \<lparr>y_find = (\<lambda>n path. if path = ''runtime/files'' then Some n else None),
       y_scalar = (\<lambda>n. if n = 10 then Some ''a.yaml'' else Some ''b.yaml''),
       y_string = (\<lambda>n _. if n = Some 0 then Some ''one'' else if n = Some 2 then Some ''two'' else None), y_uint = (\<lambda>_ _. None),
       y_bool = (\<lambda>_ _. None), y_double = (\<lambda>_ _. None), y_find_in_seq = (\<lambda>n _ _. Some n), schema_search = (\<lambda>_. None),
       schema_nodes = (\<lambda>_ _. [])\<rparr>,
     gy_int = (\<lambda>_ _. None), gy_type = (\<lambda>_. 2), gy_seq = (\<lambda>_. [10, 11]), gy_mapping = (\<lambda>_. []), gy_name = (\<lambda>_. None),
     gy_load = (\<lambda>_ _. None), gy_search = (\<lambda>_ _ _. ([], 0)), gy_path_cat = (\<lambda>a b. a @ ''/'' @ b), gy_fmt_lf = (\<lambda>_. ''0'')\<rparr>"

theorem stacked_model_arguments_witness:
  "\<exists>m g. build_stacked_model (\<lambda>f _ _ _. f) demo_stack_yaml Map.empty ''stack.yaml'' [0, 1, 2] 5 6 ([], zero_fmu () ()) = Some ([m], g) \<and>
    wm_name m = Some ''one,two'' \<and> wm_yaml m = Some ''stack.yaml a.yaml b.yaml a.yaml b.yaml''"
proof -
  have g: "generate_yaml_files demo_stack_yaml n = Some (Some ''a.yaml b.yaml'')" for n
    by (simp add: generate_yaml_files_def demo_stack_yaml_def build_delimited_str_def)
  have "stack_model_names demo_stack_yaml [0, 1, 2] = [''one'', ''two'']"
    "stack_model_files demo_stack_yaml [0, 1, 2] = [''a.yaml b.yaml'', ''a.yaml b.yaml'']"
    using g by (simp_all add: stack_model_names_def stack_model_files_def List.map_filter_simps) (simp_all add: demo_stack_yaml_def)
  then show ?thesis
    using stacked_model_arguments [of "[0, 1, 2]" demo_stack_yaml "''stack.yaml''" "\<lambda>f _ _ _. f" Map.empty 5 6 "[]" "zero_fmu () ()"] g
    by (simp add: joined_def) (auto simp: demo_stack_yaml_def)
qed

end
