(* ===== verification/GatewayFmu.thy ===== *)
theory GatewayFmu
  imports GatewayYaml
begin

section \<open>The FMI gateway: indexing, session and user FMU (dse/fmigateway)\<close>

text \<open>
  The user FMU of the gateway. ModelC's gateway calls (\<open>model_gw_setup\<close>, \<open>model_gw_sync\<close>,
  \<open>model_gw_exit\<close>), its signals and its schema search are the parameter \<open>gw_lib\<close>, and so is the
  outcome of the processes the unix session starts. The vectors of the connection are signal
  vectors of the store \<open>mem_sv\<close>. The model is the unix build (session_unix.c).
\<close>

subsection \<open>The external interface\<close>

text \<open>What \<open>fork\<close>, \<open>execl\<close> and \<open>waitpid\<close> make of a command.\<close>

datatype proc_outcome = ForkFailed | WaitFailed | ProcExited int | ProcKilled

text \<open>
  \<open>gl_vectors\<close> are the vectors of the gateway's model with their place in the store,
  \<open>gl_signal_index\<close> the scalar and the binary signal of an alias and a name, \<open>gl_signal_reset\<close> the
  store after \<open>signal_reset\<close>, \<open>gl_behind\<close> the code \<open>E_GATEWAYBEHIND\<close> and \<open>gl_to_int\<close> the conversion
  of a double to an \<open>int\<close>.
\<close>

record ('y, 'g) gw_lib =
  gl_setup :: "'g \<Rightarrow> string \<Rightarrow> string list \<Rightarrow> int \<Rightarrow> f64 \<Rightarrow> f64 \<Rightarrow> signal_vector list \<Rightarrow> (int \<times> 'g \<times> signal_vector list) option"
  gl_sync :: "'g \<Rightarrow> f64 \<Rightarrow> signal_vector list \<Rightarrow> (int \<times> 'g \<times> signal_vector list) option"
  gl_exit :: "'g \<Rightarrow> 'g option"
  gl_vectors :: "'g \<Rightarrow> (sim_vector \<times> nat) list"
  gl_instances :: "'g \<Rightarrow> 'y sim_instance list"
  gl_signal_index :: "'g \<Rightarrow> string \<Rightarrow> string \<Rightarrow> dloc option \<times> svi option"
  gl_signal_reset :: "'g \<Rightarrow> signal_vector list \<Rightarrow> nat \<Rightarrow> nat \<Rightarrow> signal_vector list option"
  gl_search :: "'y schema_search"
  gl_array :: "'y \<Rightarrow> string \<Rightarrow> string list option"
  gl_behind :: int
  gl_to_int :: "f64 \<Rightarrow> int"
  gl_exists :: "string \<Rightarrow> bool"
  gl_proc :: "(string \<rightharpoonup> string) \<Rightarrow> string \<Rightarrow> string \<Rightarrow> proc_outcome"

type_synonym ('m, 'y, 'g) gw_logf = "('m, ('y, 'g) gw_data) logf"

subsection \<open>Indexing (index.c)\<close>

definition gw_index_scalar_signal ::
  "'m clib \<Rightarrow> ('y, 'g) gw_lib \<Rightarrow> 'g \<Rightarrow> sim_vector \<Rightarrow> ('m, 'd) fmu \<Rightarrow> nat \<Rightarrow> ('m, 'd) fmu option" where
  "gw_index_scalar_signal L G g sv f i = (case sm_annotation sv i ''fmi_variable_vref'' of
      None \<Rightarrow> Some f
    | Some vref \<Rightarrow> do {
        signal \<leftarrow> nth_opt (sm_signal sv) i;
        case fst (gl_signal_index G g (sm_alias sv) signal) of
          None \<Rightarrow> Some f
        | Some p \<Rightarrow> do {
            causality \<leftarrow> sm_annotation sv i ''fmi_variable_causality'';
            Some (if causality = ''output'' then f\<lparr>scalar_output := hm_set L (scalar_output f) vref (PDouble p)\<rparr>
                  else if causality = ''input'' then f\<lparr>scalar_input := hm_set L (scalar_input f) vref (PDouble p)\<rparr>
                  else f) } })"

definition fmigateway_index_scalar_signals ::
  "('m, 'd) logf \<Rightarrow> 'm clib \<Rightarrow> ('y, 'g) gw_lib \<Rightarrow> 'g \<Rightarrow> ('m, 'd) fmu \<Rightarrow> ('m, 'd) fmu option" where
  "fmigateway_index_scalar_signals lg L G g f = do {
     f1 \<leftarrow> foldM (\<lambda>f (sv, _). if sm_is_binary sv then Some f
            else foldM (gw_index_scalar_signal L G g sv) f [0..<length (sm_signal sv)]) f (gl_vectors G g);
     Some (lg f1 0 (Some ''Debug'') (''  Scalar: input='' @ show_nat (hm_number_keys L (scalar_input f1)) @
       '', output='' @ show_nat (hm_number_keys L (scalar_output f1)))) }"

text \<open>
  \<open>_set_binary_variable\<close> copies the pointers of the signal's arrays into a vector of its own; the
  entry is the index of the signal in the store, whose arrays it shares.
\<close>

definition gw_place :: "('y, 'g) gw_lib \<Rightarrow> 'g \<Rightarrow> sim_vector \<Rightarrow> string \<Rightarrow> svi option" where
  "gw_place G g sv signal = snd (gl_signal_index G g (sm_alias sv) signal)"

definition gw_annotation_list ::
  "('y, 'g) gw_lib \<Rightarrow> 'y yaml \<Rightarrow> 'y sim_instance \<Rightarrow> sim_vector \<Rightarrow> string \<Rightarrow> string \<Rightarrow> string list option option" where
  "gw_annotation_list G = annotation_list (gl_search G) (gl_array G)"

definition fmigateway_index_binary_signals ::
  "('m, 'd) logf \<Rightarrow> 'm clib \<Rightarrow> ('y, 'g) gw_lib \<Rightarrow> 'y yaml \<Rightarrow> 'g \<Rightarrow> ('m, 'd) fmu \<Rightarrow> ('m, 'd) fmu option" where
  "fmigateway_index_binary_signals lg L G Y g f = do {
     f1 \<leftarrow> each_binary (gl_instances G g) (index_topology L (gw_annotation_list G Y) (gw_place G g)) f;
     Some (lg f1 0 (Some ''Debug'') (''  Binary: rx='' @ show_nat (hm_number_keys L (binary_rx f1)) @
       '', tx='' @ show_nat (hm_number_keys L (binary_tx f1)))) }"

definition fmigateway_index_text_encoding ::
  "('m, 'd) logf \<Rightarrow> 'm clib \<Rightarrow> ('y, 'g) gw_lib \<Rightarrow> 'y yaml \<Rightarrow> 'g \<Rightarrow> ('m, 'd) fmu \<Rightarrow> ('m, 'd) fmu option" where
  "fmigateway_index_text_encoding lg L G Y g f = do {
     f1 \<leftarrow> each_binary (gl_instances G g) (encode_signal L (gw_annotation_list G Y)) f;
     Some (lg f1 0 (Some ''Debug'') (''  Encoding: enc='' @ show_nat (hm_number_keys L (encode_func f1)) @
       '', dec='' @ show_nat (hm_number_keys L (decode_func f1)))) }"

subsection \<open>Commands and their environment (session.c, session_unix.c)\<close>

definition text_of :: "bytes \<Rightarrow> string" where
  "text_of bs = map (\<lambda>b. char_of (unat b)) (takeWhile (\<lambda>b. b \<noteq> 0) bs)"

text \<open>The string map holds strings only.\<close>

definition get_fmu_env_value :: "'m clib \<Rightarrow> ('y, 'g) gw_lib \<Rightarrow> ('m, 'd) fmu \<Rightarrow> gw_param \<Rightarrow> string option option" where
  "get_fmu_env_value L G f e = (case gp_vref e of None \<Rightarrow> None
     | Some vref \<Rightarrow>
         if gp_type e = ''String'' then
           Some (case hm_get L (string_input f) vref of Some (PString bs) \<Rightarrow> Some (text_of bs) | _ \<Rightarrow> None)
         else if gp_type e = ''Real'' then (case hm_get L (scalar_input f) vref of
             Some (PDouble p) \<Rightarrow> do { x \<leftarrow> load f p; Some (Some (snprintf NUMERIC_ENVAR_LEN (show_int (gl_to_int G x)))) }
           | _ \<Rightarrow> Some None)
         else Some None)"

definition fmigateway_setenv :: "(string \<rightharpoonup> string) \<Rightarrow> string \<Rightarrow> string option \<Rightarrow> string \<rightharpoonup> string" where
  "fmigateway_setenv env name value = env(name := value)"

text \<open>An environment variable that is already set wins over the FMU's value, which wins over the default.\<close>

definition set_one_envar :: "'m clib \<Rightarrow> ('y, 'g) gw_lib \<Rightarrow> ('m, 'd) fmu \<Rightarrow> (string \<rightharpoonup> string) \<Rightarrow> gw_param \<Rightarrow> (string \<rightharpoonup> string) option" where
  "set_one_envar L G f env e = (case gp_name e of None \<Rightarrow> Some env
     | Some name \<Rightarrow> if env name \<noteq> None then Some env
         else do {
           fmu_value \<leftarrow> get_fmu_env_value L G f e;
           Some (case fmu_value of Some v \<Rightarrow> fmigateway_setenv env name (Some v)
             | None \<Rightarrow> (case gp_default e of None \<Rightarrow> env | Some d \<Rightarrow> fmigateway_setenv env name (Some d))) })"

definition set_envar :: "'m clib \<Rightarrow> ('y, 'g) gw_lib \<Rightarrow> ('m, 'y, 'g) gateway_fmu \<Rightarrow> ('m, 'y, 'g) gateway_fmu option" where
  "set_envar L G f = do {
     g \<leftarrow> get_gw f;
     env \<leftarrow> foldM (set_one_envar L G f) (gd_env (fmu_data f)) (ntl (gw_envar g));
     Some (f\<lparr>fmu_data := (fmu_data f)\<lparr>gd_env := env\<rparr>\<rparr>) }"

definition add_event :: "('m, 'y, 'g) gateway_fmu \<Rightarrow> gw_event \<Rightarrow> ('m, 'y, 'g) gateway_fmu" where
  "add_event f e = f\<lparr>fmu_data := (fmu_data f)\<lparr>gd_trace := gd_trace (fmu_data f) @ [e]\<rparr>\<rparr>"

definition ECANCELED :: int where "ECANCELED = 125"

definition fmigateway_run_cmd ::
  "('m, 'y, 'g) gw_logf \<Rightarrow> ('y, 'g) gw_lib \<Rightarrow> ('m, 'y, 'g) gateway_fmu \<Rightarrow> string \<Rightarrow> int \<times> ('m, 'y, 'g) gateway_fmu" where
  "fmigateway_run_cmd lg G f cmd =
    (let f1 = lg f 0 (Some ''Debug'') (''Run cmd: '' @ cmd @ '' (cwd: '' @ inst_resource_location f @ '')'');
         f2 = add_event f1 (RanCommand cmd)
     in case gl_proc G (gd_env (fmu_data f2)) (inst_resource_location f2) cmd of
          ForkFailed \<Rightarrow> (EINVAL_GW, lg f1 3 (Some ''Error'') (''Could not fork to execute cmd '' @ quoted cmd))
        | WaitFailed \<Rightarrow> (EINVAL_GW, lg f2 3 (Some ''Error'') (''waitpid failed for cmd '' @ quoted cmd))
        | ProcExited n \<Rightarrow> if n \<noteq> 0 then (ECANCELED, lg f2 3 (Some ''Error'')
              (''Cmd '' @ quoted cmd @ '' exited with code '' @ show_int n @ ''.'')) else (0, f2)
        | ProcKilled \<Rightarrow> (ECANCELED, lg f2 3 (Some ''Error'') (''Cmd '' @ quoted cmd @ '' exited with code -1.'')))"

definition run_cmd ::
  "('m, 'y, 'g) gw_logf \<Rightarrow> 'm clib \<Rightarrow> ('y, 'g) gw_lib \<Rightarrow> ('m, 'y, 'g) gateway_fmu \<Rightarrow> string option
     \<Rightarrow> (int \<times> ('m, 'y, 'g) gateway_fmu) option" where
  "run_cmd lg L G f cmd = (case cmd of None \<Rightarrow> Some (0, f)
     | Some c \<Rightarrow> do { f1 \<leftarrow> set_envar L G f; Some (fmigateway_run_cmd lg G f1 c) })"

text \<open>A script of the FMU, next to its resources.\<close>

definition fmigateway_file_exists :: "('y, 'g) gw_lib \<Rightarrow> ('m, 'd) fmu \<Rightarrow> string \<Rightarrow> string option" where
  "fmigateway_file_exists G f name =
    (let path = snprintf PATH_MAX (inst_resource_location f @ ''/../'' @ name @ ''.sh'')
     in if gl_exists G path then Some path else None)"

definition session_cmd :: "('y, 'g) gw_lib \<Rightarrow> ('m, 'd) fmu \<Rightarrow> string \<Rightarrow> string option \<Rightarrow> string option" where
  "session_cmd G f name setting = (case fmigateway_file_exists G f name of Some p \<Rightarrow> Some p | None \<Rightarrow> setting)"

subsection \<open>The unix session\<close>

text \<open>Starting models, simer and the parallel set-up are empty on unix.\<close>

definition gw_unix_noop :: "('m, 'd) fmu \<Rightarrow> ('m, 'd) fmu" where
  "gw_unix_noop f = f"

definition fmigateway_start_models :: "('m, 'd) fmu \<Rightarrow> ('m, 'd) fmu" where
  "fmigateway_start_models f = gw_unix_noop f"

definition fmigateway_parallelize :: "('m, 'd) fmu \<Rightarrow> ('m, 'd) fmu" where
  "fmigateway_parallelize f = gw_unix_noop f"

definition fmigateway_teardown :: "('m, 'd) fmu \<Rightarrow> ('m, 'd) fmu" where
  "fmigateway_teardown f = gw_unix_noop f"

definition fmigateway_run_simer :: "('m, 'd) fmu \<Rightarrow> ('m, 'd) fmu" where
  "fmigateway_run_simer f = gw_unix_noop f"

definition fmigateway_stop_simer :: "('m, 'd) fmu \<Rightarrow> ('m, 'd) fmu" where
  "fmigateway_stop_simer f = gw_unix_noop f"

definition gw_exit :: "('y, 'g) gw_lib \<Rightarrow> ('m, 'y, 'g) gateway_fmu \<Rightarrow> ('m, 'y, 'g) gateway_fmu option" where
  "gw_exit G f = do {
     g \<leftarrow> get_gw f;
     m \<leftarrow> gl_exit G (gw_model g);
     Some (add_event (set_gw f (g\<lparr>gw_model := m\<rparr>)) GwExit) }"

definition fmigateway_shutdown_models ::
  "('m, 'y, 'g) gw_logf \<Rightarrow> ('y, 'g) gw_lib \<Rightarrow> ('m, 'y, 'g) gateway_fmu \<Rightarrow> ('m, 'y, 'g) gateway_fmu option" where
  "fmigateway_shutdown_models lg G f = do { f1 \<leftarrow> gw_exit G f; Some (lg f1 0 (Some ''Debug'') ''Gateway exited...'') }"

definition fmigateway_session_start ::
  "('m, 'y, 'g) gw_logf \<Rightarrow> 'm clib \<Rightarrow> ('y, 'g) gw_lib \<Rightarrow> ('m, 'y, 'g) gateway_fmu \<Rightarrow> (int \<times> ('m, 'y, 'g) gateway_fmu) option" where
  "fmigateway_session_start lg L G f = do {
     g \<leftarrow> get_gw f;
     (rc, f1) \<leftarrow> run_cmd lg L G f (session_cmd G f ''startup'' (gw_startup_cmd g));
     if rc \<noteq> 0 then Some (rc, lg f1 0 (Some ''Debug'') (''Startup command failed: '' @ show_int rc))
     else Some (0, if gw_runtime_type g = FMIGATEWAY_RUNTIME_SIMER then fmigateway_run_simer f1 else fmigateway_start_models f1) }"

text \<open>
  Without an initialisation only the parallel set-up is undone. A legacy gateway without a
  session leaves the connection and runs no shutdown command.
\<close>

definition initialized :: "gw_state \<Rightarrow> bool" where
  "initialized s \<longleftrightarrow> s \<noteq> GwCreated"

definition fmigateway_session_end ::
  "('m, 'y, 'g) gw_logf \<Rightarrow> 'm clib \<Rightarrow> ('y, 'g) gw_lib \<Rightarrow> ('m, 'y, 'g) gateway_fmu \<Rightarrow> (int \<times> ('m, 'y, 'g) gateway_fmu) option" where
  "fmigateway_session_end lg L G f = do {
     g \<leftarrow> get_gw f;
     if \<not> initialized (gw_state g) then Some (0, fmigateway_teardown f)
     else if gw_runtime_type g \<noteq> FMIGATEWAY_RUNTIME_SIMER \<and> gw_session g = None then do { f1 \<leftarrow> gw_exit G f; Some (0, f1) }
     else do {
       f1 \<leftarrow> (if gw_runtime_type g = FMIGATEWAY_RUNTIME_SIMER then map_option fmigateway_stop_simer (gw_exit G f)
             else fmigateway_shutdown_models lg G f);
       (rc, f2) \<leftarrow> run_cmd lg L G f1 (session_cmd G f1 ''shutdown'' (gw_shutdown_cmd g));
       if rc \<noteq> 0 then Some (rc, lg f2 0 (Some ''Debug'') (''Shutdown command failed: '' @ show_int rc))
       else Some (0, fmigateway_teardown f2) } }"

subsection \<open>The user FMU (fmigateway.c)\<close>

text \<open>\<open>g0\<close> is the zeroed \<open>ModelGatewayDesc\<close>.\<close>

definition gw_yaml_paths :: "'y gw_yaml \<Rightarrow> ('y, 'g) gateway \<Rightarrow> string \<Rightarrow> string list" where
  "gw_yaml_paths Y g loc =
    (if gw_runtime_type g = FMIGATEWAY_RUNTIME_SIMER then
       [snprintf PATH_MAX (loc @ ''/sim/model/'' @ show_str (gw_model_name g) @ ''/data/model.yaml''),
        snprintf PATH_MAX (loc @ ''/sim/model/'' @ show_str (gw_model_name g) @ ''/data/fmu.yaml''),
        gy_path_cat Y loc ''sim/data/simulation.yaml'']
     else [gy_path_cat Y loc ''model.yaml'', gy_path_cat Y loc ''fmu.yaml'', gy_path_cat Y loc ''stack.yaml''])"

definition gateway_configure ::
  "('m, 'y, 'g) gw_logf \<Rightarrow> 'm clib \<Rightarrow> gw_xml_lib \<Rightarrow> 'y gw_yaml \<Rightarrow> ('m, 'y, 'g) gateway_fmu \<Rightarrow> ('m, 'y, 'g) gateway_fmu option" where
  "gateway_configure lg L X Y f = do {
     f1 \<leftarrow> fmigateway_parse_xml L X f;
     g \<leftarrow> get_gw f1;
     let f2 = set_gw f1 (g\<lparr>gw_yaml_files := gw_yaml_paths Y g (inst_resource_location f1)\<rparr>);
     if gw_runtime_type g = FMIGATEWAY_RUNTIME_SIMER then Some f2 else fmigateway_parse lg Y f2 }"

definition gateway_create ::
  "('m, 'y, 'g) gw_logf \<Rightarrow> 'm clib \<Rightarrow> gw_xml_lib \<Rightarrow> 'y gw_yaml \<Rightarrow> 'g \<Rightarrow> ('m, 'y, 'g) gateway_fmu
     \<Rightarrow> (int \<times> ('m, 'y, 'g) gateway_fmu \<times> ('m, 'y, 'g) gateway_fmu created) option" where
  "gateway_create lg L X Y g0 f = do {
     f1 \<leftarrow> gateway_configure lg L X Y (fmigateway_parallelize (set_gw f (zero_gateway g0)));
     Some (0, f1, CreatedSame) }"

text \<open>The connection to the simulation and the indexing of its signals.\<close>

definition gateway_connect ::
  "('m, 'y, 'g) gw_logf \<Rightarrow> 'm clib \<Rightarrow> ('y, 'g) gw_lib \<Rightarrow> 'y yaml \<Rightarrow> ('m, 'y, 'g) gateway_fmu \<Rightarrow> (int \<times> ('m, 'y, 'g) gateway_fmu) option" where
  "gateway_connect lg L G Y f = do {
     g \<leftarrow> get_gw f;
     let f1 = add_event (lg f 0 (Some ''Debug'') ''Setting up the Simbus connection...'') GwSetup;
     (rc, m, ms) \<leftarrow> gl_setup G (gw_model g) ''gateway'' (gw_yaml_files g) (gw_log_level g) (gw_step_size g) (gw_end_time g) (mem_sv f1);
     let f2 = set_gw (f1\<lparr>mem_sv := ms\<rparr>) (g\<lparr>gw_model := m\<rparr>);
     if rc \<noteq> 0 then Some (rc, f2)
     else do {
       let f3 = lg f2 0 (Some ''Debug'') ''Connected to the Simbus...'';
       f4 \<leftarrow> fmigateway_index_scalar_signals lg L G m f3;
       f5 \<leftarrow> fmigateway_index_binary_signals lg L G Y m f4;
       f6 \<leftarrow> fmigateway_index_text_encoding lg L G Y m f5;
       g6 \<leftarrow> get_gw f6;
       Some (0, set_gw f6 (g6\<lparr>gw_state := GwInitialized\<rparr>)) } }"

definition gateway_init ::
  "('m, 'y, 'g) gw_logf \<Rightarrow> 'm clib \<Rightarrow> ('y, 'g) gw_lib \<Rightarrow> 'y yaml \<Rightarrow> ('m, 'y, 'g) gateway_fmu \<Rightarrow> (int \<times> ('m, 'y, 'g) gateway_fmu) option" where
  "gateway_init lg L G Y f = do {
     (rc, f1) \<leftarrow> fmigateway_session_start lg L G f;
     if rc \<noteq> 0 then Some (rc, f1) else gateway_connect lg L G Y f1 }"

text \<open>Every return code of the synchronisation gives 0; one that is not "behind" also saves the step.\<close>

definition gateway_step ::
  "('y, 'g) gw_lib \<Rightarrow> ('m, 'y, 'g) gateway_fmu \<Rightarrow> f64 \<Rightarrow> f64 \<Rightarrow> (int \<times> ('m, 'y, 'g) gateway_fmu) option" where
  "gateway_step G f communication_point step_size = do {
     g \<leftarrow> get_gw f;
     let g1 = (if gw_state g = GwInitialized then g\<lparr>gw_state := GwRunning\<rparr> else g);
     (rc, m, ms) \<leftarrow> gl_sync G (gw_model g1) communication_point (mem_sv f);
     let g2 = g1\<lparr>gw_model := m\<rparr>;
     let g3 = (if rc = gl_behind G then g2
           else case gw_session g2 of None \<Rightarrow> g2
             | Some s \<Rightarrow> g2\<lparr>gw_session := Some (s\<lparr>gs_last_step := communication_point\<rparr>), gw_step_size := step_size\<rparr>);
     Some (0, add_event (set_gw (f\<lparr>mem_sv := ms\<rparr>) g3) (GwSync communication_point)) }"

definition gateway_destroy ::
  "('m, 'y, 'g) gw_logf \<Rightarrow> 'm clib \<Rightarrow> ('y, 'g) gw_lib \<Rightarrow> ('m, 'y, 'g) gateway_fmu \<Rightarrow> (int \<times> ('m, 'y, 'g) gateway_fmu) option" where
  "gateway_destroy lg L G f = do {
     (_, f1) \<leftarrow> fmigateway_session_end lg L G f;
     Some (0, f1\<lparr>fmu_data := (fmu_data f1)\<lparr>gd_gateway := None\<rparr>\<rparr>) }"

definition gateway_fmu_impl ::
  "('m, 'y, 'g) gw_logf \<Rightarrow> 'm clib \<Rightarrow> gw_xml_lib \<Rightarrow> 'y gw_yaml \<Rightarrow> ('y, 'g) gw_lib \<Rightarrow> 'g \<Rightarrow> ('m, ('y, 'g) gw_data) fmu_impl" where
  "gateway_fmu_impl lg L X Y G g0 = \<lparr>im_create = gateway_create lg L X Y g0, im_init = gateway_init lg L G (gy Y),
     im_step = gateway_step G, im_destroy = gateway_destroy lg L G\<rparr>"

subsection \<open>The signal handlers (signal.c)\<close>

definition gw_reset_one :: "('y, 'g) gw_lib \<Rightarrow> 'g \<Rightarrow> nat \<Rightarrow> ('m, 'd) fmu \<Rightarrow> nat \<Rightarrow> ('m, 'd) fmu option" where
  "gw_reset_one G g r f i = do { ms \<leftarrow> gl_signal_reset G g (mem_sv f) r i; Some (f\<lparr>mem_sv := ms\<rparr>) }"

definition gw_signals_reset :: "('y, 'g) gw_lib \<Rightarrow> ('m, 'y, 'g) gateway_fmu \<Rightarrow> ('m, 'y, 'g) gateway_fmu option" where
  "gw_signals_reset G f = do {
     g \<leftarrow> get_gw f;
     if signals_reset f then Some f
     else do {
       f1 \<leftarrow> foldM (\<lambda>f (sv, r). if \<not> sm_is_binary sv then Some f
              else foldM (gw_reset_one G (gw_model g) r) f [0..<length (sm_signal sv)]) f (gl_vectors G (gw_model g));
       Some (f1\<lparr>signals_reset := True\<rparr>) } }"

definition gw_signals_setup :: "('m, 'd) fmu \<Rightarrow> ('m, 'd) fmu option" where
  "gw_signals_setup f = Some f"

definition gw_signals_remove :: "('m, 'd) logf \<Rightarrow> ('m, 'd) fmu \<Rightarrow> ('m, 'd) fmu option" where
  "gw_signals_remove lg f = Some (lg f 0 (Some ''Debug'') ''Removing additional signal data...'')"

definition gw_load_signal_handlers :: "('m, 'y, 'g) gw_logf \<Rightarrow> ('y, 'g) gw_lib \<Rightarrow> ('m, ('y, 'g) gw_data) signal_vtable" where
  "gw_load_signal_handlers lg G = \<lparr>vt_reset = Some (gw_signals_reset G), vt_setup = Some gw_signals_setup,
     vt_remove = Some (gw_signals_remove lg)\<rparr>"

end
