(* ===== verification/GatewayRun.thy ===== *)
theory GatewayRun
  imports GatewayFmu ModelcRun
begin

section \<open>The FMI gateway at work\<close>

text \<open>
  What the gateway relies on of ModelC, the invariant of its instances, the contract \<open>fmu_model\<close>
  for it, and the order of the calls and commands of a session.
\<close>

subsection \<open>What the connection promises\<close>

text \<open>
  The vectors of a connection are in the store, every binary vector of the store is one of them,
  the places of signals are valid, and the documents carry the annotations the indexing needs.
\<close>

definition vector_placed :: "signal_vector list \<Rightarrow> sim_vector \<Rightarrow> nat \<Rightarrow> bool" where
  "vector_placed ms sv r \<longleftrightarrow> (if sm_is_binary sv
     then r < length ms \<and> sv_binary (ms ! r) \<noteq> None \<and> length (sm_signal sv) = unat (sv_count (ms ! r))
     else (\<forall>i < length (sm_signal sv). sm_annotation sv i ''fmi_variable_vref'' \<noteq> None \<longrightarrow>
        sm_annotation sv i ''fmi_variable_causality'' \<noteq> None))"

definition connected :: "('y, 'g) gw_lib \<Rightarrow> 'g \<Rightarrow> signal_vector list \<Rightarrow> bool" where
  "connected G g ms \<longleftrightarrow> (\<forall>(sv, r) \<in> set (gl_vectors G g). vector_placed ms sv r) \<and>
     (\<forall>r < length ms. sv_binary (ms ! r) \<noteq> None \<longrightarrow> (\<exists>sv. (sv, r) \<in> set (gl_vectors G g) \<and> sm_is_binary sv)) \<and>
     (\<forall>a s p. fst (gl_signal_index G g a s) = Some p \<longrightarrow> dloc_ok ms [] p) \<and>
     (\<forall>a s x. snd (gl_signal_index G g a s) = Some x \<longrightarrow> svi_ok ms x) \<and>
     (\<forall>mi \<in> set (gl_instances G g). objects_named (gl_search G) mi \<and> (\<forall>sv \<in> set (si_vectors mi).
        \<forall>i < length (sm_signal sv). sm_is_binary sv \<longrightarrow> sm_annotation sv i ''fmi_variable_vref'' \<noteq> None \<longrightarrow> encoding_of sv i \<noteq> None))"

definition no_codecs :: "signal_vector list \<Rightarrow> bool" where
  "no_codecs xs \<longleftrightarrow> (\<forall>sv \<in> set xs. set (sv_ncodec sv) \<subseteq> {None})"

definition gw_lib_ok :: "('y, 'g) gw_lib \<Rightarrow> bool" where
  "gw_lib_ok G \<longleftrightarrow>
     (\<forall>g name files lv st en ms. mem_wf ms \<longrightarrow> (\<exists>rc m xs. gl_setup G g name files lv st en ms = Some (rc, m, ms @ xs) \<and>
        mem_wf xs \<and> no_codecs xs \<and> connected G m (ms @ xs))) \<and>
     (\<forall>g t ms. mem_wf ms \<longrightarrow> connected G g ms \<longrightarrow> (\<exists>rc m ms1. gl_sync G g t ms = Some (rc, m, ms1) \<and>
        mem_wf ms1 \<and> mem_shape ms1 = mem_shape ms \<and> connected G m ms1)) \<and>
     (\<forall>g. \<exists>m. gl_exit G g = Some m \<and> (\<forall>ms. connected G g ms \<longrightarrow> connected G m ms)) \<and>
     (\<forall>g ms r i b. get_bin ms r i = Some b \<longrightarrow> gl_signal_reset G g ms r i = put_bin ms r i (bin_reset b))"

lemma gw_setup_run:
  "gw_lib_ok G \<Longrightarrow> mem_wf ms \<Longrightarrow> \<exists>rc m xs. gl_setup G g name files lv st en ms = Some (rc, m, ms @ xs) \<and>
     mem_wf xs \<and> no_codecs xs \<and> connected G m (ms @ xs)"
  unfolding gw_lib_ok_def by blast

lemma gw_sync_run:
  "gw_lib_ok G \<Longrightarrow> mem_wf ms \<Longrightarrow> connected G g ms \<Longrightarrow> \<exists>rc m ms1. gl_sync G g t ms = Some (rc, m, ms1) \<and>
     mem_wf ms1 \<and> mem_shape ms1 = mem_shape ms \<and> connected G m ms1"
  unfolding gw_lib_ok_def by blast

lemma gw_exit_ok: "gw_lib_ok G \<Longrightarrow> \<exists>m. gl_exit G g = Some m \<and> (\<forall>ms. connected G g ms \<longrightarrow> connected G m ms)"
  unfolding gw_lib_ok_def by blast

lemma gw_reset_ok: "gw_lib_ok G \<Longrightarrow> get_bin ms r i = Some b \<Longrightarrow> gl_signal_reset G g ms r i = put_bin ms r i (bin_reset b)"
  unfolding gw_lib_ok_def by blast

text \<open>A connection depends on the shape of the store only.\<close>

lemma vector_placed_shape:
  assumes "mem_shape ms' = mem_shape ms"
  shows "vector_placed ms' sv r \<longleftrightarrow> vector_placed ms sv r"
  using shape_vector(1,2) [OF assms, of r] mem_shape_length [OF assms] by (auto simp: vector_placed_def)

lemma connected_shape:
  assumes "mem_shape ms' = mem_shape ms"
  shows "connected G g ms' \<longleftrightarrow> connected G g ms"
proof -
  have "(\<forall>r < length ms'. sv_binary (ms' ! r) \<noteq> None \<longrightarrow> P r) \<longleftrightarrow> (\<forall>r < length ms. sv_binary (ms ! r) \<noteq> None \<longrightarrow> P r)" for P
    using shape_vector(2) [OF assms] mem_shape_length [OF assms] by auto
  then show ?thesis
    unfolding connected_def vector_placed_shape [OF assms] dloc_ok_shape [OF assms refl] svi_ok_shape [OF assms] by simp
qed

subsection \<open>The invariant\<close>

definition params_ok :: "gw_param list \<Rightarrow> bool" where
  "params_ok es \<longleftrightarrow> (\<forall>e \<in> set (ntl es). gp_vref e \<noteq> None)"

definition gateway_inv :: "'m clib \<Rightarrow> ('y, 'g) gw_lib \<Rightarrow> ('m, 'y, 'g) gateway_fmu \<Rightarrow> bool" where
  "gateway_inv L G f \<longleftrightarrow> fmu_wf L f \<and> hashmap_ok L \<and> codecs_ok f \<and> gw_lib_ok G \<and>
     (\<exists>g. get_gw f = Some g \<and> connected G (gw_model g) (mem_sv f) \<and> params_ok (gw_envar g))"

text \<open>A change of the log, the environment and the trace only.\<close>

definition process_only :: "('m, 'y, 'g) gateway_fmu \<Rightarrow> ('m, 'y, 'g) gateway_fmu \<Rightarrow> gw_event list \<Rightarrow> bool" where
  "process_only f g tr \<longleftrightarrow> (\<exists>es env. g = f\<lparr>log_out := log_out f @ es,
     fmu_data := (fmu_data f)\<lparr>gd_env := env, gd_trace := gd_trace (fmu_data f) @ tr\<rparr>\<rparr>)"

lemma process_only_log: "process_only f (fmu_log2 f st c msg) []"
proof -
  obtain es where "fmu_log2 f st c msg = f\<lparr>log_out := log_out f @ es\<rparr>" using log2.frame by blast
  then show ?thesis unfolding process_only_def
    by (intro exI [of _ es] exI [of _ "gd_env (fmu_data f)"]) simp
qed

lemma process_only_refl: "process_only f f []"
  unfolding process_only_def by (intro exI [of _ "[]"] exI [of _ "gd_env (fmu_data f)"]) simp

lemma process_only_event: "process_only f (add_event f e) [e]"
  unfolding process_only_def add_event_def by (intro exI [of _ "[]"] exI [of _ "gd_env (fmu_data f)"]) simp

lemma process_only_trans: "process_only f g tr \<Longrightarrow> process_only g h tr' \<Longrightarrow> process_only f h (tr @ tr')"
  unfolding process_only_def by fastforce

lemma process_only_fields:
  assumes "process_only f g tr"
  shows "get_gw g = get_gw f" "mem_sv g = mem_sv f" "gd_trace (fmu_data g) = gd_trace (fmu_data f) @ tr"
    "inst_resource_location g = inst_resource_location f" "fmu_wf L g = fmu_wf L f" "codecs_ok g = codecs_ok f"
  using assms by (auto simp: process_only_def get_gw_def fmu_wf_def codecs_ok_def)

lemma gateway_inv_process: "gateway_inv L G f \<Longrightarrow> process_only f g tr \<Longrightarrow> gateway_inv L G g"
  by (simp add: gateway_inv_def process_only_fields)

subsection \<open>Commands\<close>

lemma env_value_run:
  assumes "fmu_wf L f" "gp_vref e \<noteq> None"
  shows "\<exists>v. get_fmu_env_value L G f e = Some v"
proof -
  obtain vref where v: "gp_vref e = Some vref" using assms(2) by blast
  have "\<exists>x. load f p = Some x" if "hm_get L (scalar_input f) vref = Some (PDouble p)" for p
  proof -
    from assms(1) that have "dloc_ok (mem_sv f) (mem_dbl f) p" by (force simp: fmu_wf_def scalar_map_ok_def)
    with load_ok [of f p] show ?thesis by auto
  qed
  then show ?thesis by (auto simp: get_fmu_env_value_def v split: option.splits vptr.splits)
qed

lemma set_envar_run:
  assumes "gateway_inv L G f"
  shows "\<exists>g. set_envar L G f = Some g \<and> process_only f g []"
proof -
  from assms obtain g where g: "fmu_wf L f" "get_gw f = Some g" "params_ok (gw_envar g)" by (auto simp: gateway_inv_def)
  have "\<exists>env. foldM (set_one_envar L G f) (gd_env (fmu_data f)) (ntl (gw_envar g)) = Some env \<and> True"
  proof (rule foldM_total)
    fix u e assume "e \<in> set (ntl (gw_envar g))"
    with g(3) have "gp_vref e \<noteq> None" by (simp add: params_ok_def)
    from env_value_run [OF g(1) this, of G] show "\<exists>v. set_one_envar L G f u e = Some v \<and> True"
      by (auto simp: set_one_envar_def split: option.splits)
  qed simp
  then obtain env where "foldM (set_one_envar L G f) (gd_env (fmu_data f)) (ntl (gw_envar g)) = Some env" by blast
  with g(2) show ?thesis
    unfolding process_only_def by (intro exI [of _ "f\<lparr>fmu_data := (fmu_data f)\<lparr>gd_env := env\<rparr>\<rparr>"] conjI exI [of _ "[]"] exI [of _ env])
      (simp_all add: set_envar_def)
qed

text \<open>A command that was started is in the trace, and nothing else.\<close>

lemma unix_run_cmd:
  assumes "fmigateway_run_cmd fmu_log2 G f cmd = (rc, g)"
  shows "process_only f g [] \<or> process_only f g [RanCommand cmd]"
proof -
  let ?f1 = "fmu_log2 f 0 (Some ''Debug'') (''Run cmd: '' @ cmd @ '' (cwd: '' @ inst_resource_location f @ '')'')"
  let ?f2 = "add_event ?f1 (RanCommand cmd)"
  have 1: "process_only f ?f1 []" by (rule process_only_log)
  have 2: "process_only f ?f2 [RanCommand cmd]" using process_only_trans [OF 1 process_only_event] by simp
  have l1: "process_only f (fmu_log2 ?f1 st c m) []" for st c m using process_only_trans [OF 1 process_only_log] by simp
  have l2: "process_only f (fmu_log2 ?f2 st c m) [RanCommand cmd]" for st c m using process_only_trans [OF 2 process_only_log] by simp
  from assms 2 l1 l2 show ?thesis
    by (cases "gl_proc G (gd_env (fmu_data ?f2)) (inst_resource_location ?f2) cmd")
      (auto simp: fmigateway_run_cmd_def Let_def split: if_splits)
qed

definition commands :: "gw_event list \<Rightarrow> bool" where
  "commands tr \<longleftrightarrow> (\<forall>e \<in> set tr. \<exists>c. e = RanCommand c)"

lemma commands_simps [simp]: "commands []" "commands [RanCommand c]" "commands (xs @ ys) \<longleftrightarrow> commands xs \<and> commands ys"
  by (auto simp: commands_def)

lemma run_cmd_run:
  assumes "gateway_inv L G f"
  shows "\<exists>rc g tr. run_cmd fmu_log2 L G f cmd = Some (rc, g) \<and> process_only f g tr \<and> commands tr"
proof (cases cmd)
  case None
  with process_only_refl show ?thesis by (intro exI [of _ 0] exI [of _ f] exI [of _ "[]"]) (simp add: run_cmd_def)
next
  case (Some c)
  from set_envar_run [OF assms] obtain f1 where f1: "set_envar L G f = Some f1" "process_only f f1 []" by blast
  obtain rc g where g: "fmigateway_run_cmd fmu_log2 G f1 c = (rc, g)" by (cases "fmigateway_run_cmd fmu_log2 G f1 c")
  from unix_run_cmd [OF g] have "process_only f g [] \<or> process_only f g [RanCommand c]"
    using process_only_trans [OF f1(2)] by fastforce
  moreover have "run_cmd fmu_log2 L G f cmd = Some (rc, g)" using Some f1(1) g by (simp add: run_cmd_def)
  ultimately show ?thesis using commands_simps(1,2) by blast
qed

lemmas noop_defs = gw_unix_noop_def fmigateway_start_models_def fmigateway_run_simer_def fmigateway_stop_simer_def
  fmigateway_teardown_def fmigateway_parallelize_def

lemma session_start_run:
  assumes "gateway_inv L G f"
  shows "\<exists>rc g tr. fmigateway_session_start fmu_log2 L G f = Some (rc, g) \<and> process_only f g tr \<and> commands tr"
proof -
  from assms obtain gw where gw: "get_gw f = Some gw" by (auto simp: gateway_inv_def)
  from run_cmd_run [OF assms] obtain rc g tr where
    g: "run_cmd fmu_log2 L G f (session_cmd G f ''startup'' (gw_startup_cmd gw)) = Some (rc, g)" "process_only f g tr" "commands tr" by blast
  show ?thesis
  proof (cases "rc = 0")
    case True
    with gw g show ?thesis
      by (intro exI [of _ 0] exI [of _ g] exI [of _ tr]) (simp add: fmigateway_session_start_def noop_defs)
  next
    case False
    let ?h = "fmu_log2 g 0 (Some ''Debug'') (''Startup command failed: '' @ show_int rc)"
    have "process_only f ?h tr" using process_only_trans [OF g(2) process_only_log] by simp
    moreover have "fmigateway_session_start fmu_log2 L G f = Some (rc, ?h)"
      using gw g(1) False by (simp add: fmigateway_session_start_def)
    ultimately show ?thesis using g(3) by blast
  qed
qed

subsection \<open>Indexing\<close>

lemma gw_scalar_step:
  assumes "hashmap_ok L" "connected G g (mem_sv f)" "fmu_wf L f" "(sv, r) \<in> set (gl_vectors G g)" "\<not> sm_is_binary sv"
    "i < length (sm_signal sv)"
  shows "\<exists>h. gw_index_scalar_signal L G g sv f i = Some h \<and> keeps_vectors L f h"
proof (cases "sm_annotation sv i ''fmi_variable_vref''")
  case None
  with assms(3) show ?thesis by (simp add: gw_index_scalar_signal_def keeps_vectors_refl)
next
  case (Some vref)
  from assms(2,4-6) Some obtain c where c: "sm_annotation sv i ''fmi_variable_causality'' = Some c"
    by (fastforce simp: connected_def vector_placed_def)
  show ?thesis
  proof (cases "fst (gl_signal_index G g (sm_alias sv) (sm_signal sv ! i))")
    case None
    with Some assms(3,6) show ?thesis by (simp add: gw_index_scalar_signal_def keeps_vectors_refl)
  next
    case p: (Some p)
    with assms(2) have "dloc_ok (mem_sv f) [] p" by (simp add: connected_def)
    then have "dloc_ok (mem_sv f) (mem_dbl f) p" by (cases p) (simp_all add: dloc_ok_simps)
    note ok = scalar_map_set [OF assms(1) _ this, where k = vref]
    have "fmu_wf L (f\<lparr>scalar_output := hm_set L (scalar_output f) vref (PDouble p)\<rparr>)"
      "fmu_wf L (f\<lparr>scalar_input := hm_set L (scalar_input f) vref (PDouble p)\<rparr>)"
      using assms(3) ok by (simp_all add: fmu_wf_def)
    with Some c p assms(3,6) show ?thesis by (simp add: gw_index_scalar_signal_def keeps_vectors_def)
  qed
qed

lemma gw_scalars_run:
  assumes "hashmap_ok L" "connected G g (mem_sv f)" "fmu_wf L f"
  shows "\<exists>h. foldM (\<lambda>f (sv, _). if sm_is_binary sv then Some f
     else foldM (gw_index_scalar_signal L G g sv) f [0..<length (sm_signal sv)]) f (gl_vectors G g) = Some h \<and> keeps_vectors L f h"
proof (rule foldM_total)
  show "keeps_vectors L f f" by (rule keeps_vectors_refl [OF assms(3)])
  fix u x assume u: "keeps_vectors L f u" and x: "x \<in> set (gl_vectors G g)"
  obtain sv r where p: "x = (sv, r)" by (cases x)
  show "\<exists>v. (case x of (sv, _) \<Rightarrow> if sm_is_binary sv then Some u
     else foldM (gw_index_scalar_signal L G g sv) u [0..<length (sm_signal sv)]) = Some v \<and> keeps_vectors L f v"
  proof (cases "sm_is_binary sv")
    case False
    have "\<exists>v. foldM (gw_index_scalar_signal L G g sv) u [0..<length (sm_signal sv)] = Some v \<and> keeps_vectors L f v"
    proof (rule foldM_total)
      show "keeps_vectors L f u" by (rule u)
      fix w i assume w: "keeps_vectors L f w" and i: "i \<in> set [0..<length (sm_signal sv)]"
      from w assms(2) have "connected G g (mem_sv w)" "fmu_wf L w" by (simp_all add: keeps_vectors_def)
      from gw_scalar_step [OF assms(1) this, of sv r i] x p False i keeps_vectors_trans [OF w]
      show "\<exists>v. gw_index_scalar_signal L G g sv w i = Some v \<and> keeps_vectors L f v" by auto
    qed
    with p False show ?thesis by simp
  qed (use u p in simp)
qed

lemma gw_index_run:
  assumes "hashmap_ok L" "connected G m (mem_sv f)" "fmu_wf L f"
  shows "\<exists>f5 f6 h. fmigateway_index_scalar_signals fmu_log2 L G m f = Some f5 \<and>
    fmigateway_index_binary_signals fmu_log2 L G Y m f5 = Some f6 \<and>
    fmigateway_index_text_encoding fmu_log2 L G Y m f6 = Some h \<and> keeps_vectors L f h"
proof -
  have log: "keeps_vectors L f (fmu_log2 u st c msg)" if "keeps_vectors L f u" for u st c msg
    using that log2.frame [of u st c msg] by (auto simp: keeps_vectors_def fmu_wf_def)
  from gw_scalars_run [OF assms] obtain u where u:
    "foldM (\<lambda>f (sv, _). if sm_is_binary sv then Some f
      else foldM (gw_index_scalar_signal L G m sv) f [0..<length (sm_signal sv)]) f (gl_vectors G m) = Some u" "keeps_vectors L f u" by blast
  then obtain f5 where f5: "fmigateway_index_scalar_signals fmu_log2 L G m f = Some f5" "keeps_vectors L f f5"
    using log by (simp add: fmigateway_index_scalar_signals_def)
  have p: "(\<forall>s n. \<exists>r. gw_annotation_list G Y mi sv s n = Some r) \<and> (\<forall>y. gw_place G m sv (sm_signal sv ! i) = Some y \<longrightarrow> svi_ok (mem_sv f) y) \<and>
      (sm_annotation sv i ''fmi_variable_vref'' \<noteq> None \<longrightarrow> encoding_of sv i \<noteq> None)"
    if "(mi, sv, i) \<in> set (positions (gl_instances G m) True)" for mi sv i
    using that assms(2) annotation_list_run [of "gl_search G" mi "gl_array G" Y sv]
    by (auto simp: connected_def in_positions gw_annotation_list_def gw_place_def)
  have w5: "fmu_wf L f5" "mem_sv f5 = mem_sv f" using f5(2) by (simp_all add: keeps_vectors_def)
  have "\<exists>g. each_binary (gl_instances G m) (index_topology L (gw_annotation_list G Y) (gw_place G m)) f5 = Some g \<and> keeps_scalars L f5 g"
    by (rule topology_walk [OF assms(1) w5(1)]) (use p in \<open>simp add: w5(2)\<close>)
  then obtain v where v: "each_binary (gl_instances G m) (index_topology L (gw_annotation_list G Y) (gw_place G m)) f5 = Some v"
    "keeps_scalars L f5 v" by blast
  then have "keeps_vectors L f v" using keeps_vectors_trans [OF f5(2)] by (simp add: keeps_scalars_def)
  with v(1) obtain f6 where f6: "fmigateway_index_binary_signals fmu_log2 L G Y m f5 = Some f6" "keeps_vectors L f f6"
    using log by (simp add: fmigateway_index_binary_signals_def)
  have w6: "fmu_wf L f6" using f6(2) by (simp add: keeps_vectors_def)
  have "\<exists>g. each_binary (gl_instances G m) (encode_signal L (gw_annotation_list G Y)) f6 = Some g \<and> keeps_scalars L f6 g"
    by (rule encode_walk [OF assms(1) w6]) (use p in simp)
  then obtain w where w: "each_binary (gl_instances G m) (encode_signal L (gw_annotation_list G Y)) f6 = Some w" "keeps_scalars L f6 w" by blast
  then have "keeps_vectors L f w" using keeps_vectors_trans [OF f6(2)] by (simp add: keeps_scalars_def)
  with w(1) have "\<exists>h. fmigateway_index_text_encoding fmu_log2 L G Y m f6 = Some h \<and> keeps_vectors L f h"
    using log by (simp add: fmigateway_index_text_encoding_def)
  with f5(1) f6(1) show ?thesis by blast
qed

subsection \<open>Initialisation, step and release\<close>

lemma set_gw_simps [simp]:
  "get_gw (set_gw f g) = Some g" "mem_sv (set_gw f g) = mem_sv f" "nc_heap (set_gw f g) = nc_heap f"
  "gd_trace (fmu_data (set_gw f g)) = gd_trace (fmu_data f)" "fmu_wf L (set_gw f g) = fmu_wf L f" "codecs_ok (set_gw f g) = codecs_ok f"
  "get_gw (f\<lparr>mem_sv := ms\<rparr>) = get_gw f"
  by (simp_all add: set_gw_def get_gw_def fmu_wf_def codecs_ok_def)

lemma codecs_ok_append:
  assumes "codecs_ok f" "no_codecs xs"
  shows "codecs_ok (f\<lparr>mem_sv := mem_sv f @ xs\<rparr>)"
proof -
  have "sv_ncodec ((mem_sv f @ xs) ! r) ! i \<noteq> Some n"
    if "length (mem_sv f) \<le> r" "r < length (mem_sv f @ xs)" "i < length (sv_ncodec ((mem_sv f @ xs) ! r))" for r i n
  proof -
    have "(mem_sv f @ xs) ! r \<in> set xs" using that(1,2) by (simp add: nth_append)
    with assms(2) have "set (sv_ncodec ((mem_sv f @ xs) ! r)) \<subseteq> {None}" unfolding no_codecs_def by blast
    with nth_mem [OF that(3)] show ?thesis by auto
  qed
  with assms(1) show ?thesis unfolding codecs_ok_def
    by (simp add: nth_append)
qed

lemma gateway_inv_keeps: "gateway_inv L G f \<Longrightarrow> keeps_vectors L f g \<Longrightarrow> gateway_inv L G g"
  by (auto simp: gateway_inv_def keeps_vectors_def codecs_ok_def get_gw_def)

text \<open>The state of the gateway of an instance.\<close>

definition state_of :: "('m, 'y, 'g) gateway_fmu \<Rightarrow> gw_state option" where
  "state_of f = map_option gw_state (get_gw f)"

lemma gateway_connect_run:
  assumes "gateway_inv L G f"
  shows "\<exists>rc h. gateway_connect fmu_log2 L G Y f = Some (rc, h) \<and> gateway_inv L G h \<and>
    gd_trace (fmu_data h) = gd_trace (fmu_data f) @ [GwSetup] \<and> state_of h = (if rc = 0 then Some GwInitialized else state_of f)"
proof -
  let ?f1 = "add_event (fmu_log2 f 0 (Some ''Debug'') ''Setting up the Simbus connection...'') GwSetup"
  have "process_only f ?f1 [GwSetup]" using process_only_trans [OF process_only_log process_only_event] by simp
  note p1 = process_only_fields [OF this] and i1 = gateway_inv_process [OF assms this]
  from assms obtain g where g: "get_gw f = Some g" "params_ok (gw_envar g)" "gw_lib_ok G" "hashmap_ok L" by (auto simp: gateway_inv_def)
  have w1: "fmu_wf L ?f1" "codecs_ok ?f1" using i1 by (simp_all add: gateway_inv_def)
  then have "mem_wf (mem_sv ?f1)" by (simp add: fmu_wf_def)
  from gw_setup_run [OF g(3) this, of "gw_model g" "''gateway''" "gw_yaml_files g" "gw_log_level g" "gw_step_size g" "gw_end_time g"]
  obtain rc m xs where st: "gl_setup G (gw_model g) ''gateway'' (gw_yaml_files g) (gw_log_level g) (gw_step_size g) (gw_end_time g) (mem_sv ?f1)
      = Some (rc, m, mem_sv ?f1 @ xs)" "mem_wf xs" "no_codecs xs" "connected G m (mem_sv ?f1 @ xs)" by blast
  let ?f2 = "set_gw (?f1\<lparr>mem_sv := mem_sv ?f1 @ xs\<rparr>) (g\<lparr>gw_model := m\<rparr>)"
  have i2: "gateway_inv L G ?f2"
    using fmu_wf_append [OF w1(1) st(2)] codecs_ok_append [OF w1(2) st(3)] st(4) g(2-4) by (simp add: gateway_inv_def)
  have t2: "gd_trace (fmu_data ?f2) = gd_trace (fmu_data f) @ [GwSetup]" using p1(3) by simp
  show ?thesis
  proof (cases "rc = 0")
    case False
    have "gateway_connect fmu_log2 L G Y f = Some (rc, ?f2)" using g(1) st(1) False by (simp add: gateway_connect_def Let_def)
    moreover have "state_of ?f2 = state_of f" using g(1) by (simp add: state_of_def)
    ultimately show ?thesis using i2 t2 False by (intro exI [of _ rc] exI [of _ ?f2]) simp
  next
    case rc: True
    let ?f3 = "fmu_log2 ?f2 0 (Some ''Debug'') ''Connected to the Simbus...''"
    have p3: "process_only ?f2 ?f3 []" by (rule process_only_log)
    note q3 = process_only_fields [OF p3] and i3 = gateway_inv_process [OF i2 p3]
    have "connected G m (mem_sv ?f3)" "fmu_wf L ?f3" using q3(2) st(4) i3 by (simp_all add: gateway_inv_def)
    from gw_index_run [OF g(4) this, of Y] obtain f4 f5 h where
      h: "fmigateway_index_scalar_signals fmu_log2 L G m ?f3 = Some f4" "fmigateway_index_binary_signals fmu_log2 L G Y m f4 = Some f5"
        "fmigateway_index_text_encoding fmu_log2 L G Y m f5 = Some h" "keeps_vectors L ?f3 h" by blast
    have ih: "gateway_inv L G h" by (rule gateway_inv_keeps [OF i3 h(4)])
    have d: "fmu_data h = fmu_data ?f3" using h(4) by (simp add: keeps_vectors_def)
    then have "get_gw h = get_gw ?f3" by (simp only: get_gw_def)
    with q3(1) have gh: "get_gw h = Some (g\<lparr>gw_model := m\<rparr>)" by (simp only: set_gw_simps)
    let ?h = "set_gw h (g\<lparr>gw_model := m, gw_state := GwInitialized\<rparr>)"
    have "gateway_connect fmu_log2 L G Y f = Some (0, ?h)"
      using g(1) st(1) rc h(1-3) gh by (simp add: gateway_connect_def Let_def)
    moreover have "gateway_inv L G ?h" using ih gh by (simp add: gateway_inv_def)
    moreover have "gd_trace (fmu_data ?h) = gd_trace (fmu_data f) @ [GwSetup]" using t2 q3(3) d by simp
    ultimately show ?thesis by (intro exI [of _ 0] exI [of _ ?h]) (simp add: state_of_def)
  qed
qed

lemma gateway_init_run:
  assumes "gateway_inv L G f"
  shows "\<exists>rc h cs. gateway_init fmu_log2 L G Y f = Some (rc, h) \<and> gateway_inv L G h \<and> commands cs \<and>
    (if rc = 0 then gd_trace (fmu_data h) = gd_trace (fmu_data f) @ cs @ [GwSetup] \<and> state_of h = Some GwInitialized
     else gd_trace (fmu_data h) \<in> {gd_trace (fmu_data f) @ cs, gd_trace (fmu_data f) @ cs @ [GwSetup]} \<and> state_of h = state_of f)"
proof -
  from session_start_run [OF assms] obtain rc f1 cs where
    f1: "fmigateway_session_start fmu_log2 L G f = Some (rc, f1)" "process_only f f1 cs" "commands cs" by blast
  note p1 = process_only_fields [OF f1(2)]
  have i1: "gateway_inv L G f1" by (rule gateway_inv_process [OF assms f1(2)])
  show ?thesis
  proof (cases "rc = 0")
    case False
    with f1 p1 i1 show ?thesis
      by (intro exI [of _ rc] exI [of _ f1] exI [of _ cs]) (simp add: gateway_init_def state_of_def)
  next
    case True
    from gateway_connect_run [OF i1, of Y] obtain rc2 h where h: "gateway_connect fmu_log2 L G Y f1 = Some (rc2, h)" "gateway_inv L G h"
      "gd_trace (fmu_data h) = gd_trace (fmu_data f1) @ [GwSetup]" "state_of h = (if rc2 = 0 then Some GwInitialized else state_of f1)" by blast
    with f1 True p1(1,3) show ?thesis
      by (intro exI [of _ rc2] exI [of _ h] exI [of _ cs]) (simp add: gateway_init_def state_of_def)
  qed
qed

lemma gw_synced:
  assumes "gateway_inv L G f" "get_gw f = Some g"
  shows "\<exists>rc m ms. gl_sync G (gw_model g) t (mem_sv f) = Some (rc, m, ms) \<and>
    (\<forall>h. gw_model h = m \<longrightarrow> gw_envar h = gw_envar g \<longrightarrow> gateway_inv L G (add_event (set_gw (f\<lparr>mem_sv := ms\<rparr>) h) (GwSync t)))"
proof -
  from assms have g: "connected G (gw_model g) (mem_sv f)" "params_ok (gw_envar g)" "gw_lib_ok G"
    "fmu_wf L f" "codecs_ok f" "hashmap_ok L" by (auto simp: gateway_inv_def)
  then have "mem_wf (mem_sv f)" by (simp add: fmu_wf_def)
  from gw_sync_run [OF g(3) this g(1), of t] obtain rc m ms where
    s: "gl_sync G (gw_model g) t (mem_sv f) = Some (rc, m, ms)" "mem_wf ms" "mem_shape ms = mem_shape (mem_sv f)" "connected G m ms" by blast
  have w: "fmu_wf L (f\<lparr>mem_sv := ms\<rparr>)" by (rule fmu_wf_update [OF g(4)]) (simp_all add: s)
  have c: "codecs_ok (f\<lparr>mem_sv := ms\<rparr>)"
    using g(5) shape_vector(3) [OF s(3)] mem_shape_length [OF s(3)] by (simp add: codecs_ok_def)
  have "gateway_inv L G (add_event (set_gw (f\<lparr>mem_sv := ms\<rparr>) h) (GwSync t))" if "gw_model h = m" "gw_envar h = gw_envar g" for h
  proof (rule gateway_inv_process [OF _ process_only_event])
    show "gateway_inv L G (set_gw (f\<lparr>mem_sv := ms\<rparr>) h)" unfolding gateway_inv_def set_gw_simps using w c g(2,3,6) s(4) that by simp
  qed
  with s(1) show ?thesis by blast
qed

lemma gateway_step_run:
  assumes "gateway_inv L G f"
  shows "\<exists>h. gateway_step G f t dt = Some (0, h) \<and> gateway_inv L G h \<and> gd_trace (fmu_data h) = gd_trace (fmu_data f) @ [GwSync t] \<and>
    (state_of f = Some GwInitialized \<or> state_of f = Some GwRunning \<longrightarrow> state_of h = Some GwRunning)"
proof -
  from assms obtain g where g: "get_gw f = Some g" by (auto simp: gateway_inv_def)
  let ?g1 = "if gw_state g = GwInitialized then g\<lparr>gw_state := GwRunning\<rparr> else g"
  from gw_synced [OF assms g, of t] obtain rc m ms where
    s: "gl_sync G (gw_model g) t (mem_sv f) = Some (rc, m, ms)"
    "\<And>h. gw_model h = m \<Longrightarrow> gw_envar h = gw_envar g \<Longrightarrow> gateway_inv L G (add_event (set_gw (f\<lparr>mem_sv := ms\<rparr>) h) (GwSync t))" by blast
  let ?g2 = "?g1\<lparr>gw_model := m\<rparr>"
  let ?g3 = "if rc = gl_behind G then ?g2 else case gw_session ?g2 of None \<Rightarrow> ?g2
     | Some s \<Rightarrow> ?g2\<lparr>gw_session := Some (s\<lparr>gs_last_step := t\<rparr>), gw_step_size := dt\<rparr>"
  have g3: "gw_model ?g3 = m" "gw_envar ?g3 = gw_envar g" "gw_state ?g3 = gw_state ?g1"
    by (simp_all split: option.split)
  let ?f1 = "set_gw (f\<lparr>mem_sv := ms\<rparr>) ?g3"
  let ?h = "add_event ?f1 (GwSync t)"
  have "gateway_inv L G ?h" by (rule s(2) [OF g3(1,2)])
  moreover have "gateway_step G f t dt = Some (0, ?h)"
    using g(1) s(1) by (simp add: gateway_step_def Let_def split: option.split)
  moreover have "gd_trace (fmu_data ?h) = gd_trace (fmu_data f) @ [GwSync t]" by (simp add: add_event_def)
  moreover have "state_of ?h = Some (gw_state ?g1)"
    using g3(3) by (simp only: state_of_def process_only_fields [OF process_only_event] set_gw_simps option.map)
  moreover have "state_of f = Some (gw_state g)" using g(1) by (simp add: state_of_def)
  ultimately show ?thesis by (intro exI [of _ ?h]) auto
qed

subsection \<open>The contract of the adapters\<close>

lemma gw_reset_one_run:
  assumes "gw_lib_ok G" "mem_wf (mem_sv f)" "codecs_ok f" "get_bin (mem_sv f) r i = Some b"
  shows "\<exists>g. gw_reset_one G c r f i = Some g \<and> resets {(r, i)} f g"
proof -
  obtain ms where ms: "put_bin (mem_sv f) r i (bin_reset b) = Some ms"
    using assms(4) put_bin_ok [of "mem_sv f" r i "bin_reset b"] by auto
  have "gw_reset_one G c r f i = Some (f\<lparr>mem_sv := ms, nc_heap := nc_heap f\<rparr>)"
    using gw_reset_ok [OF assms(1,4), of c] ms by (simp add: gw_reset_one_def)
  with resets_one [OF ms assms(4,2,3), of "nc_heap f"] show ?thesis by auto
qed

lemma gw_reset_vectors:
  assumes "gw_lib_ok G" "mem_wf (mem_sv f)" "codecs_ok f" "connected G c (mem_sv f)"
  shows "\<exists>g. foldM (\<lambda>f (sv, r). if \<not> sm_is_binary sv then Some f
      else foldM (gw_reset_one G c r) f [0..<length (sm_signal sv)]) f (gl_vectors G c) = Some g \<and>
    resets (\<Union>(sv, r) \<in> set (gl_vectors G c). if sm_is_binary sv then {r} \<times> {0..<length (sm_signal sv)} else {}) f g"
proof -
  let ?S = "\<lambda>(sv, r). if sm_is_binary sv then {r} \<times> {0..<length (sm_signal sv)} else {}"
  have "\<exists>g. foldM (\<lambda>f (sv, r). if \<not> sm_is_binary sv then Some f
      else foldM (gw_reset_one G c r) f [0..<length (sm_signal sv)]) f (gl_vectors G c) = Some g \<and>
    resets (\<Union>x \<in> set (gl_vectors G c). ?S x) f g"
  proof (rule resets_fold [OF _ assms(2,3)])
    fix u x assume u: "mem_wf (mem_sv u)" "codecs_ok u" "mem_shape (mem_sv u) = mem_shape (mem_sv f)" and x: "x \<in> set (gl_vectors G c)"
    obtain sv r where p: "x = (sv, r)" by (cases x)
    show "\<exists>v. (case x of (sv, r) \<Rightarrow> if \<not> sm_is_binary sv then Some u
        else foldM (gw_reset_one G c r) u [0..<length (sm_signal sv)]) = Some v \<and> resets (?S x) u v"
    proof (cases "sm_is_binary sv")
      case True
      from assms(4) x p have "vector_placed (mem_sv f) sv r" by (auto simp: connected_def)
      then have pl: "vector_placed (mem_sv u) sv r" by (simp add: vector_placed_shape [OF u(3)])
      have "\<exists>v. foldM (gw_reset_one G c r) u [0..<length (sm_signal sv)] = Some v \<and>
          resets (\<Union>i \<in> set [0..<length (sm_signal sv)]. {(r, i)}) u v"
      proof (rule resets_fold [OF _ u(1,2)])
        fix w i assume w: "mem_wf (mem_sv w)" "codecs_ok w" "mem_shape (mem_sv w) = mem_shape (mem_sv u)" and i: "i \<in> set [0..<length (sm_signal sv)]"
        from pl have "vector_placed (mem_sv w) sv r" by (simp add: vector_placed_shape [OF w(3)])
        with True i get_bin_exists [OF w(1), of r i] obtain b where "get_bin (mem_sv w) r i = Some b" by (auto simp: vector_placed_def)
        from gw_reset_one_run [OF assms(1) w(1,2) this, of c]
        show "\<exists>v. gw_reset_one G c r w i = Some v \<and> resets {(r, i)} w v" .
      qed
      moreover have "(\<Union>i \<in> set [0..<length (sm_signal sv)]. {(r, i)}) = ?S x" using True p by auto
      ultimately show ?thesis using True p by simp
    qed (use u p resets_refl in simp)
  qed
  then show ?thesis by simp
qed

lemma gw_reset_run:
  assumes "gateway_inv L G f" "\<not> signals_reset f"
  shows "\<exists>g. gw_signals_reset G f = Some g \<and> gateway_inv L G g \<and> emptied f g"
proof -
  from assms(1) obtain g where g: "get_gw f = Some g" "connected G (gw_model g) (mem_sv f)" "params_ok (gw_envar g)" "gw_lib_ok G"
    "fmu_wf L f" "codecs_ok f" "hashmap_ok L" by (auto simp: gateway_inv_def)
  then have w: "mem_wf (mem_sv f)" by (simp add: fmu_wf_def)
  let ?S = "\<Union>(sv, r) \<in> set (gl_vectors G (gw_model g)). if sm_is_binary sv then {r} \<times> {0..<length (sm_signal sv)} else {}"
  from gw_reset_vectors [OF g(4) w g(6,2)] obtain h where
    h: "foldM (\<lambda>f (sv, r). if \<not> sm_is_binary sv then Some f
      else foldM (gw_reset_one G (gw_model g) r) f [0..<length (sm_signal sv)]) f (gl_vectors G (gw_model g)) = Some h" "resets ?S f h" by blast
  have all: "(r, i) \<in> ?S" if "get_bin (mem_sv f) r i = Some b" for r i b
  proof -
    note b = get_bin_count [OF w that]
    from g(2) b(1,2) obtain sv where sv: "(sv, r) \<in> set (gl_vectors G (gw_model g))" "sm_is_binary sv" unfolding connected_def by blast
    with g(2) have "length (sm_signal sv) = unat (sv_count (mem_sv f ! r))" by (fastforce simp: connected_def vector_placed_def)
    with sv b(3) show ?thesis by force
  qed
  from h(2) obtain ms nc where e: "h = f\<lparr>mem_sv := ms, nc_heap := nc\<rparr>" unfolding resets_def by blast
  then have r: "mem_shape ms = mem_shape (mem_sv f)" "mem_wf ms" "codecs_ok h" "map sv_scalar ms = map sv_scalar (mem_sv f)"
    "\<And>r i. get_bin ms r i = map_option (\<lambda>b. if (r, i) \<in> ?S then bin_reset b else b) (get_bin (mem_sv f) r i)"
    using h(2) by (simp_all add: resets_def)
  have bins: "get_bin ms r i = map_option bin_reset (get_bin (mem_sv f) r i)" for r i
    using r(5) [of r i] all [of r i] by (cases "get_bin (mem_sv f) r i") simp_all
  have em: "emptied f (h\<lparr>signals_reset := True\<rparr>)" using r bins by (simp add: emptied_def e)
  have "fmu_wf L (h\<lparr>signals_reset := True\<rparr>)" by (rule fmu_wf_update [OF g(5)]) (simp_all add: e r)
  moreover have "codecs_ok (h\<lparr>signals_reset := True\<rparr>)" using r(3) by (simp add: codecs_ok_def)
  moreover have "get_gw (h\<lparr>signals_reset := True\<rparr>) = Some g" using g(1) by (simp add: e get_gw_def)
  moreover have "connected G (gw_model g) ms" using g(2) by (simp add: connected_shape [OF r(1)])
  ultimately have "gateway_inv L G (h\<lparr>signals_reset := True\<rparr>)" using g(3,4,7) by (simp add: gateway_inv_def e)
  with em h(1) g(1) assms(2) show ?thesis by (simp add: gw_signals_reset_def)
qed

interpretation gh: signal_handlers L "gateway_inv L G" "gw_load_signal_handlers fmu_log2 G" for L G
proof
  fix f :: "('a, ('b, 'c) gw_data) fmu" assume i: "gateway_inv L G f"
  then show "fmu_wf L f" by (simp add: gateway_inv_def)
  show "\<exists>g. call_handler (vt_reset (gw_load_signal_handlers fmu_log2 G)) f = Some g \<and> gateway_inv L G g \<and>
      (if signals_reset f then g = f else emptied f g)"
  proof (cases "signals_reset f")
    case True
    moreover obtain g where "get_gw f = Some g" using i by (auto simp: gateway_inv_def)
    ultimately show ?thesis using i by (simp add: call_handler_def gw_load_signal_handlers_def gw_signals_reset_def)
  qed (use gw_reset_run [OF i] in \<open>simp add: call_handler_def gw_load_signal_handlers_def\<close>)
next
  fix f g :: "('a, ('b, 'c) gw_data) fmu"
  assume i: "gateway_inv L G f" and w: "fmu_wf L g" and s: "mem_shape (mem_sv g) = mem_shape (mem_sv f)"
    and h: "nc_heap g = nc_heap f" and d: "fmu_data g = fmu_data f"
  have "codecs_ok g" using i shape_vector(3) [OF s] mem_shape_length [OF s] h by (simp add: gateway_inv_def codecs_ok_def)
  then show "gateway_inv L G g" using i w d connected_shape [OF s, of G] by (auto simp: gateway_inv_def get_gw_def)
qed

interpretation gm: fmu_model L "gateway_inv L G" "gw_load_signal_handlers fmu_log2 G" "gateway_fmu_impl fmu_log2 L X Y G g0"
  for L G X Y g0
proof
  fix f :: "('a, ('b, 'c) gw_data) fmu" and point step_size assume i: "gateway_inv L G f"
  from gateway_init_run [OF i, of "gy Y"]
  show "\<exists>rc g. im_init (gateway_fmu_impl fmu_log2 L X Y G g0) f = Some (rc, g) \<and> gateway_inv L G g"
    unfolding gateway_fmu_impl_def fmu_impl.select_convs by blast
  from gateway_step_run [OF i, of point step_size]
  show "\<exists>rc g. im_step (gateway_fmu_impl fmu_log2 L X Y G g0) f point step_size = Some (rc, g) \<and> gateway_inv L G g"
    unfolding gateway_fmu_impl_def fmu_impl.select_convs by blast
qed


subsection \<open>The life of a gateway\<close>

lemma gw_exit_run:
  assumes "gateway_inv L G f"
  shows "\<exists>h. gw_exit G f = Some h \<and> gateway_inv L G h \<and> gd_trace (fmu_data h) = gd_trace (fmu_data f) @ [GwExit] \<and>
    (\<exists>g m. get_gw f = Some g \<and> get_gw h = Some (g\<lparr>gw_model := m\<rparr>))"
proof -
  from assms obtain g where g: "get_gw f = Some g" "connected G (gw_model g) (mem_sv f)" "params_ok (gw_envar g)" "gw_lib_ok G"
    by (auto simp: gateway_inv_def)
  from gw_exit_ok [OF g(4)] obtain m where m: "gl_exit G (gw_model g) = Some m" "connected G m (mem_sv f)" using g(2) by blast
  let ?f1 = "set_gw f (g\<lparr>gw_model := m\<rparr>)"
  have "gateway_inv L G ?f1" using assms g(3) m(2) by (simp add: gateway_inv_def)
  from gateway_inv_process [OF this process_only_event] have "gateway_inv L G (add_event ?f1 GwExit)" .
  moreover have "gd_trace (fmu_data (add_event ?f1 GwExit)) = gd_trace (fmu_data f) @ [GwExit]" by (simp add: add_event_def)
  moreover have "gw_exit G f = Some (add_event ?f1 GwExit)" using g(1) m(1) by (simp add: gw_exit_def)
  moreover have "get_gw (add_event ?f1 GwExit) = Some (g\<lparr>gw_model := m\<rparr>)" by (simp add: process_only_fields [OF process_only_event])
  ultimately show ?thesis using g(1) by blast
qed

lemma session_end_run:
  assumes "gateway_inv L G f"
  shows "\<exists>rc h ds. fmigateway_session_end fmu_log2 L G f = Some (rc, h) \<and> commands ds \<and>
    gd_trace (fmu_data h) = gd_trace (fmu_data f) @ (if state_of f = Some GwCreated then [] else [GwExit] @ ds)"
proof -
  from assms obtain g where g: "get_gw f = Some g" by (auto simp: gateway_inv_def)
  then have st: "state_of f = Some (gw_state g)" by (simp add: state_of_def)
  from gw_exit_run [OF assms] obtain h where h: "gw_exit G f = Some h" "gateway_inv L G h"
    "gd_trace (fmu_data h) = gd_trace (fmu_data f) @ [GwExit]" by blast
  let ?simer = "gw_runtime_type g = FMIGATEWAY_RUNTIME_SIMER"
  consider "gw_state g = GwCreated" | "gw_state g \<noteq> GwCreated" "\<not> ?simer" "gw_session g = None"
    | "gw_state g \<noteq> GwCreated" "?simer \<or> gw_session g \<noteq> None" by blast
  then show ?thesis
  proof cases
    case 1
    with g st show ?thesis
      by (intro exI [of _ 0] exI [of _ f] exI [of _ "[]"]) (simp add: fmigateway_session_end_def initialized_def noop_defs)
  next
    case 2
    with g h st show ?thesis
      by (intro exI [of _ 0] exI [of _ h] exI [of _ "[]"]) (simp add: fmigateway_session_end_def initialized_def)
  next
    case 3
    let ?h = "if ?simer then h else fmu_log2 h 0 (Some ''Debug'') ''Gateway exited...''"
    have po: "process_only h ?h []" using process_only_refl [of h] process_only_log [of h] by (cases ?simer) simp_all
    have i: "gateway_inv L G ?h" by (rule gateway_inv_process [OF h(2) po])
    from run_cmd_run [OF i] obtain rc k ds where
      k: "run_cmd fmu_log2 L G ?h (session_cmd G ?h ''shutdown'' (gw_shutdown_cmd g)) = Some (rc, k)" "process_only ?h k ds" "commands ds" by blast
    let ?k = "if rc = 0 then k else fmu_log2 k 0 (Some ''Debug'') (''Shutdown command failed: '' @ show_int rc)"
    have "process_only k ?k []" using process_only_refl [of k] process_only_log [of k] by (cases "rc = 0") simp_all
    from process_only_trans [OF k(2) this] have "process_only ?h ?k ds" by simp
    from process_only_fields(3) [OF process_only_trans [OF po this]]
    have t: "gd_trace (fmu_data ?k) = gd_trace (fmu_data f) @ [GwExit] @ ds" using h(3) by simp
    have "fmigateway_session_end fmu_log2 L G f = Some (rc, ?k)"
      using 3 g h(1) k(1) unfolding fmigateway_session_end_def
      by (cases ?simer; cases "gw_session g") (simp_all add: initialized_def fmigateway_shutdown_models_def noop_defs)
    with t k(3) 3(1) st show ?thesis by (intro exI [of _ rc] exI [of _ ?k] exI [of _ ds]) simp
  qed
qed

definition gw_steps :: "('y, 'g) gw_lib \<Rightarrow> ('m, 'y, 'g) gateway_fmu \<Rightarrow> (f64 \<times> f64) list \<Rightarrow> ('m, 'y, 'g) gateway_fmu option" where
  "gw_steps G f ts = foldM (\<lambda>f (t, dt). map_option snd (gateway_step G f t dt)) f ts"

lemma gw_steps_run:
  assumes "gateway_inv L G f" "state_of f = Some GwInitialized \<or> state_of f = Some GwRunning"
  shows "\<exists>h. gw_steps G f ts = Some h \<and> gateway_inv L G h \<and> gd_trace (fmu_data h) = gd_trace (fmu_data f) @ map (GwSync \<circ> fst) ts \<and>
    (state_of h = Some GwInitialized \<or> state_of h = Some GwRunning)"
  using assms
proof (induction ts arbitrary: f)
  case (Cons x ts)
  obtain t dt where x: "x = (t, dt)" by (cases x)
  from gateway_step_run [OF Cons.prems(1), of t dt] Cons.prems(2) obtain u where
    u: "gateway_step G f t dt = Some (0, u)" "gateway_inv L G u" "gd_trace (fmu_data u) = gd_trace (fmu_data f) @ [GwSync t]"
      "state_of u = Some GwRunning" by blast
  from Cons.IH [OF u(2)] u(4) obtain h where "gw_steps G u ts = Some h" "gateway_inv L G h"
    "gd_trace (fmu_data h) = gd_trace (fmu_data u) @ map (GwSync \<circ> fst) ts" "state_of h = Some GwInitialized \<or> state_of h = Some GwRunning" by blast
  with u(1,3) x show ?case by (intro exI [of _ h]) (simp add: gw_steps_def)
qed (simp add: gw_steps_def)

lemma gateway_destroy_run:
  assumes "gateway_inv L G f"
  shows "\<exists>h ds. gateway_destroy fmu_log2 L G f = Some (0, h) \<and> commands ds \<and> get_gw h = None \<and>
    gd_trace (fmu_data h) = gd_trace (fmu_data f) @ (if state_of f = Some GwCreated then [] else [GwExit] @ ds)"
proof -
  from session_end_run [OF assms] obtain rc h ds where h: "fmigateway_session_end fmu_log2 L G f = Some (rc, h)" "commands ds"
    "gd_trace (fmu_data h) = gd_trace (fmu_data f) @ (if state_of f = Some GwCreated then [] else [GwExit] @ ds)" by blast
  then show ?thesis
    by (intro exI [of _ "h\<lparr>fmu_data := (fmu_data h)\<lparr>gd_gateway := None\<rparr>\<rparr>"] exI [of _ ds]) (simp add: gateway_destroy_def get_gw_def)
qed


subsection \<open>The environment of the scripts\<close>

definition envar_value :: "'m clib \<Rightarrow> ('y, 'g) gw_lib \<Rightarrow> ('m, 'd) fmu \<Rightarrow> gw_param \<Rightarrow> string option" where
  "envar_value L G f e = (case get_fmu_env_value L G f e of Some (Some v) \<Rightarrow> Some v | _ \<Rightarrow> gp_default e)"

text \<open>The values the parameters of a name would give it, in order.\<close>

definition offered :: "'m clib \<Rightarrow> ('y, 'g) gw_lib \<Rightarrow> ('m, 'd) fmu \<Rightarrow> gw_param list \<Rightarrow> string \<Rightarrow> string list" where
  "offered L G f es name = List.map_filter (\<lambda>e. if gp_name e = Some name then envar_value L G f e else None) es"

definition first_of :: "string list \<Rightarrow> string option" where
  "first_of xs = (case xs of [] \<Rightarrow> None | x # _ \<Rightarrow> Some x)"

lemma set_envars_offered:
  assumes "fmu_wf L f" "\<forall>e \<in> set es. gp_vref e \<noteq> None"
  shows "\<exists>env1. foldM (set_one_envar L G f) env es = Some env1 \<and>
    (\<forall>name. env1 name = (case env name of Some v \<Rightarrow> Some v | None \<Rightarrow> first_of (offered L G f es name)))"
  using assms(2)
proof (induction es arbitrary: env)
  case Nil
  show ?case by (simp add: offered_def first_of_def List.map_filter_def split: option.split)
next
  case (Cons e es)
  from env_value_run [OF assms(1), of e G] Cons.prems obtain v where v: "get_fmu_env_value L G f e = Some v" by auto
  have "\<exists>env1. set_one_envar L G f env e = Some env1 \<and> (\<forall>name. env1 name =
      (case env name of Some w \<Rightarrow> Some w | None \<Rightarrow> if gp_name e = Some name then envar_value L G f e else None))"
    using v by (auto simp: set_one_envar_def envar_value_def fmigateway_setenv_def split: option.splits)
  then obtain env1 where e1: "set_one_envar L G f env e = Some env1" "\<And>name. env1 name =
      (case env name of Some w \<Rightarrow> Some w | None \<Rightarrow> if gp_name e = Some name then envar_value L G f e else None)" by blast
  from Cons.IH [of env1] Cons.prems obtain env2 where e2: "foldM (set_one_envar L G f) env1 es = Some env2"
    "\<And>name. env2 name = (case env1 name of Some w \<Rightarrow> Some w | None \<Rightarrow> first_of (offered L G f es name))" by auto
  have n: "\<forall>name. env2 name = (case env name of Some w \<Rightarrow> Some w | None \<Rightarrow> first_of (offered L G f (e # es) name))"
    unfolding e2(2) e1(2)
    by (simp add: offered_def first_of_def List.map_filter_simps split: option.split)
  have "foldM (set_one_envar L G f) env (e # es) = Some env2" using e1(1) e2(1) by simp
  with n show ?case by blast
qed

text \<open>
  C33: Before a command runs, a variable that is set in the environment keeps its value; any other
  one takes that of the first script parameter of its name which has one: the current value of
  the FMU variable when it is in the maps, else the default of the model description. No other
  variable changes.
\<close>

theorem gateway_env_priority:
  assumes "gateway_inv L G f" "get_gw f = Some g"
  shows "\<exists>h. set_envar L G f = Some h \<and> (\<forall>name. gd_env (fmu_data h) name =
    (case gd_env (fmu_data f) name of Some v \<Rightarrow> Some v | None \<Rightarrow> first_of (offered L G f (ntl (gw_envar g)) name)))"
proof -
  have "fmu_wf L f" "\<forall>e \<in> set (ntl (gw_envar g)). gp_vref e \<noteq> None" using assms by (auto simp: gateway_inv_def params_ok_def)
  from set_envars_offered [OF this] obtain env where env: "foldM (set_one_envar L G f) (gd_env (fmu_data f)) (ntl (gw_envar g)) = Some env"
    "\<forall>name. env name = (case gd_env (fmu_data f) name of Some v \<Rightarrow> Some v | None \<Rightarrow> first_of (offered L G f (ntl (gw_envar g)) name))" by blast
  let ?h = "f\<lparr>fmu_data := (fmu_data f)\<lparr>gd_env := env\<rparr>\<rparr>"
  have "set_envar L G f = Some ?h" using assms(2) env(1) by (simp add: set_envar_def)
  moreover have "gd_env (fmu_data ?h) = env" by simp
  ultimately show ?thesis using env(2) by (intro exI [of _ ?h]) simp
qed

subsection \<open>A concrete connection\<close>

text \<open>
  The connection keeps a list of the binary vectors of its model. Its set-up brings one scalar and
  one binary vector, a synchronisation changes nothing.
\<close>

definition demo_gw_vector :: "signal_vector list \<Rightarrow> nat \<Rightarrow> sim_vector" where
  "demo_gw_vector ms r = \<lparr>sm_name = ''binary'', sm_alias = ''binary'', sm_is_binary = True,
     sm_signal = replicate (unat (sv_count (ms ! r))) ''c'', sm_annotation = (\<lambda>_ _. None)\<rparr>"

definition demo_gw_vectors :: "signal_vector list \<Rightarrow> (sim_vector \<times> nat) list" where
  "demo_gw_vectors ms = map (\<lambda>r. (demo_gw_vector ms r, r)) (filter (\<lambda>r. sv_binary (ms ! r) \<noteq> None) [0..<length ms])"

definition demo_gw_store :: "signal_vector list" where
  "demo_gw_store = [demo_scalar_sv, demo_bin_sv\<lparr>sv_ncodec := [None]\<rparr>]"

definition demo_gw_lib :: "(nat, (sim_vector \<times> nat) list) gw_lib" where
  "demo_gw_lib = \<lparr>
     gl_setup = (\<lambda>_ _ _ _ _ _ ms. Some (0, demo_gw_vectors (ms @ demo_gw_store), ms @ demo_gw_store)),
     gl_sync = (\<lambda>g _ ms. Some (0, g, ms)), gl_exit = Some, gl_vectors = (\<lambda>g. g),
     gl_instances = (\<lambda>_. [\<lparr>si_name = ''inst'', si_spec = 0, si_vectors = demo_sim_vectors\<rparr>]),
     gl_signal_index = (\<lambda>_ _ _. (None, None)),
     gl_signal_reset = (\<lambda>_ ms r i. Option.bind (get_bin ms r i) (\<lambda>b. put_bin ms r i (bin_reset b))),
     gl_search = (\<lambda>mi cs kind. [[\<lparr>so_signal = Some ''c'', so_data = 0\<rparr>]]), gl_array = (\<lambda>_ _. Some [''4'']),
     gl_behind = 1, gl_to_int = (\<lambda>x. sint x), gl_exists = (\<lambda>_. False), gl_proc = (\<lambda>_ _ _. ProcExited 0)\<rparr>"

definition demo_gw_params :: "gw_param list" where
  "demo_gw_params = [
     \<lparr>gp_name = Some ''PORT'', gp_type = ''Real'', gp_vref = Some ''9'', gp_default = Some ''6379''\<rparr>,
     \<lparr>gp_name = Some ''HOST'', gp_type = ''String'', gp_vref = Some ''8'', gp_default = Some ''remote''\<rparr>]"

definition demo_gw_fmu :: "((string \<times> vptr) list, nat, (sim_vector \<times> nat) list) gateway_fmu" where
  "demo_gw_fmu = zero_fmu [] \<lparr>gd_gateway = Some ((zero_gateway [])\<lparr>gw_startup_cmd := Some ''start'', gw_envar := demo_gw_params\<rparr>),
     gd_env = [''HOST'' \<mapsto> ''local''], gd_trace = []\<rparr>"

lemma demo_gw_vector_simps [simp]:
  "sm_is_binary (demo_gw_vector ms r)" "length (sm_signal (demo_gw_vector ms r)) = unat (sv_count (ms ! r))"
  by (simp_all add: demo_gw_vector_def)

lemma demo_gw_connected: "connected demo_gw_lib (demo_gw_vectors ms) ms"
proof -
  have "\<forall>(sv, r) \<in> set (demo_gw_vectors ms). vector_placed ms sv r"
    by (auto simp: demo_gw_vectors_def vector_placed_def)
  moreover have "\<forall>r < length ms. sv_binary (ms ! r) \<noteq> None \<longrightarrow> (\<exists>sv. (sv, r) \<in> set (demo_gw_vectors ms) \<and> sm_is_binary sv)"
    by (force simp: demo_gw_vectors_def)
  ultimately show ?thesis
    by (simp add: connected_def demo_gw_lib_def objects_named_def demo_sim_vectors_def encoding_of_def)
qed

lemma demo_gw_lib_ok: "gw_lib_ok demo_gw_lib"
proof -
  have "mem_wf demo_gw_store" "no_codecs demo_gw_store"
    by (auto simp: demo_gw_store_def mem_wf_def sv_wf_def demo_scalar_sv_def demo_bin_sv_def bin_wf_def no_codecs_def)
  then show ?thesis using demo_gw_connected [of "ms @ demo_gw_store" for ms]
    unfolding gw_lib_ok_def by (auto simp: demo_gw_lib_def)
qed

lemma demo_gw_inv: "gateway_inv ref_clib demo_gw_lib demo_gw_fmu"
proof -
  have "fmu_wf ref_clib demo_gw_fmu" "codecs_ok demo_gw_fmu"
    by (auto simp: fmu_wf_def demo_gw_fmu_def zero_fmu_def mem_wf_def scalar_map_ok_def binary_map_ok_def func_map_ok_def
        ref_clib_def codecs_ok_def)
  moreover have "connected demo_gw_lib [] []" using demo_gw_connected [of "[]"] by (simp add: demo_gw_vectors_def)
  ultimately show ?thesis using demo_gw_lib_ok
    by (simp add: gateway_inv_def ref_hashmap_ok get_gw_def demo_gw_fmu_def zero_fmu_def zero_gateway_def params_ok_def
        demo_gw_params_def ntl_def)
qed

definition demo_gw_yaml :: "nat gw_yaml" where
  "demo_gw_yaml = \<lparr>gy = demo_sim_yaml, gy_int = (\<lambda>_ _. None), gy_type = (\<lambda>_. 0), gy_seq = (\<lambda>_. []), gy_mapping = (\<lambda>_. []),
     gy_name = (\<lambda>_. None), gy_load = (\<lambda>_ _. None), gy_search = (\<lambda>_ _ _. ([], 0)), gy_path_cat = (\<lambda>a b. a @ ''/'' @ b),
     gy_fmt_lf = (\<lambda>_. ''0'')\<rparr>"

definition demo_gw_xml :: gw_xml_lib where
  "demo_gw_xml = \<lparr>gx_xpath = demo_xpath, gx_parse = (\<lambda>_. Some demo_doc), gx_strtod = (\<lambda>_. 0), gx_fmt_f = (\<lambda>_. ''0''), gx_log_error = 4\<rparr>"



theorem gateway_env_priority_witness:
  "\<exists>h. set_envar ref_clib demo_gw_lib demo_gw_fmu = Some h \<and> gd_env (fmu_data h) ''HOST'' = Some ''local'' \<and>
     gd_env (fmu_data h) ''PORT'' = Some ''6379'' \<and> gd_env (fmu_data h) ''USER'' = None"
proof -
  let ?g = "(zero_gateway [] :: (nat, (sim_vector \<times> nat) list) gateway)\<lparr>gw_startup_cmd := Some ''start'', gw_envar := demo_gw_params\<rparr>"
  have g: "get_gw demo_gw_fmu = Some ?g" by (simp add: get_gw_def demo_gw_fmu_def zero_fmu_def)
  have o: "offered ref_clib demo_gw_lib demo_gw_fmu (ntl (gw_envar ?g)) name =
      (if name = ''PORT'' then [''6379''] else if name = ''HOST'' then [''remote''] else [])" for name
    by (auto simp: offered_def demo_gw_params_def ntl_def List.map_filter_simps envar_value_def get_fmu_env_value_def
        demo_gw_fmu_def zero_fmu_def ref_clib_def)
  have e: "gd_env (fmu_data demo_gw_fmu) = [''HOST'' \<mapsto> ''local'']" by (simp add: demo_gw_fmu_def zero_fmu_def)
  from gateway_env_priority [OF demo_gw_inv g] obtain h where h: "set_envar ref_clib demo_gw_lib demo_gw_fmu = Some h"
    "\<forall>name. gd_env (fmu_data h) name = (case gd_env (fmu_data demo_gw_fmu) name of Some v \<Rightarrow> Some v
       | None \<Rightarrow> first_of (offered ref_clib demo_gw_lib demo_gw_fmu (ntl (gw_envar ?g)) name))" by blast
  show ?thesis using h(1) spec [OF h(2), of "''HOST''"] spec [OF h(2), of "''PORT''"] spec [OF h(2), of "''USER''"]
    unfolding o e by (simp add: first_of_def)
qed

end
