(* ===== verification/GatewayWin.thy ===== *)
theory GatewayWin
  imports GatewayRun
begin

section \<open>The FMI gateway: the Windows session (dse/fmigateway/session_win32.c)\<close>

text \<open>
  On Windows the gateway starts and stops the processes of the simulation itself. The Windows API
  is the parameter \<open>win_lib\<close>: each call takes the state \<open>'w\<close> of the system and returns it with its
  result. The descriptors the code keeps of its processes (\<open>w_process\<close> of a model, \<open>simer_process\<close>)
  are the function \<open>ws_proc\<close> of the places that hold them. The start-up information the code passes
  on is kept; the security attributes of a log file are not.
\<close>

subsection \<open>The Windows API\<close>

record startup_info =
  si_title :: "string option"
  si_std_handles :: bool
  si_hidden :: bool
  si_output :: "nat option"

record process_info =
  pi_handle :: nat
  pi_thread :: nat
  pi_id :: u32

text \<open>\<open>cr_console\<close>: \<open>CREATE_NEW_CONSOLE\<close> with a group of its own, else \<open>CREATE_NO_WINDOW\<close>.\<close>

record create_args =
  cr_app :: "string option"
  cr_cmd :: string
  cr_inherit :: bool
  cr_console :: bool
  cr_env :: "string option"
  cr_dir :: "string option"
  cr_info :: startup_info

text \<open>
  \<open>wl_wait\<close> waits for at most the given milliseconds and says whether the process has ended;
  \<open>wl_wait_end\<close> waits without a limit and need not return. \<open>wl_environ\<close> are the strings of the
  environment block, \<open>wl_getenv\<close> is that of the C library. \<open>wl_to_size\<close> is the conversion of a
  double to \<open>size_t\<close>, \<open>wl_extra\<close> is the time one step and a
  thousandth after another.
\<close>

record 'w win_lib =
  wl_create :: "create_args \<Rightarrow> 'w \<Rightarrow> process_info option \<times> 'w"
  wl_exit_code :: "nat \<Rightarrow> 'w \<Rightarrow> u32 option \<times> 'w"
  wl_wait :: "nat \<Rightarrow> nat \<Rightarrow> 'w \<Rightarrow> bool \<times> 'w"
  wl_wait_end :: "nat \<Rightarrow> 'w \<Rightarrow> 'w option"
  wl_close :: "nat \<Rightarrow> 'w \<Rightarrow> 'w"
  wl_terminate :: "nat \<Rightarrow> 'w \<Rightarrow> 'w"
  wl_free_console :: "'w \<Rightarrow> 'w"
  wl_alloc_console :: "'w \<Rightarrow> 'w"
  wl_attach :: "u32 \<Rightarrow> 'w \<Rightarrow> bool \<times> 'w"
  wl_ctrl_handler :: "bool \<Rightarrow> 'w \<Rightarrow> 'w"
  wl_ctrl_break :: "u32 \<Rightarrow> 'w \<Rightarrow> bool \<times> 'w"
  wl_sleep :: "nat \<Rightarrow> 'w \<Rightarrow> 'w"
  wl_create_file :: "string \<Rightarrow> 'w \<Rightarrow> nat option \<times> 'w"
  wl_is_file :: "string \<Rightarrow> 'w \<Rightarrow> bool"
  wl_access :: "string \<Rightarrow> 'w \<Rightarrow> bool"
  wl_temp_file :: "'w \<Rightarrow> string option \<times> 'w"
  wl_delete_file :: "string \<Rightarrow> 'w \<Rightarrow> 'w"
  wl_read_file :: "string \<Rightarrow> 'w \<Rightarrow> string option"
  wl_environ :: "'w \<Rightarrow> string list"
  wl_setenv :: "string \<Rightarrow> string option \<Rightarrow> 'w \<Rightarrow> int \<times> 'w"
  wl_getenv :: "'w \<Rightarrow> string \<Rightarrow> string option"
  wl_last_error :: "'w \<Rightarrow> int"
  wl_path_cat :: "string \<Rightarrow> string option \<Rightarrow> string"
  wl_fmt_lf :: "f64 \<Rightarrow> string"
  wl_to_size :: "f64 \<Rightarrow> nat"
  wl_extra :: "f64 \<Rightarrow> f64 \<Rightarrow> f64"
  wl_step_size :: f64

definition MAX_CMD_LENGTH :: nat where "MAX_CMD_LENGTH = 2048"

text \<open>Both \<open>MAX_PATH\<close> and the \<open>PATH_MAX\<close> of this platform.\<close>

definition MAX_PATH :: nat where "MAX_PATH = 260"

definition STILL_ACTIVE :: u32 where "STILL_ACTIVE = 259"

definition ATTACH_PARENT_PROCESS :: u32 where "ATTACH_PARENT_PROCESS = 0xFFFFFFFF"

subsection \<open>The state of a session\<close>

datatype win_place = Transport | Simbus | WinModel nat | Simer

record w_process =
  wp_s_info :: startup_info
  wp_p_info :: process_info

record ('m, 'y, 'g, 'w) win_session =
  ws_fmu :: "('m, 'y, 'g) gateway_fmu"
  ws_world :: 'w
  ws_proc :: "win_place \<Rightarrow> w_process option"

definition ask :: "('w \<Rightarrow> 'a \<times> 'w) \<Rightarrow> ('m, 'y, 'g, 'w) win_session \<Rightarrow> 'a \<times> ('m, 'y, 'g, 'w) win_session" where
  "ask h s = (case h (ws_world s) of (r, w) \<Rightarrow> (r, s\<lparr>ws_world := w\<rparr>))"

definition act :: "('w \<Rightarrow> 'w) \<Rightarrow> ('m, 'y, 'g, 'w) win_session \<Rightarrow> ('m, 'y, 'g, 'w) win_session" where
  "act h s = s\<lparr>ws_world := h (ws_world s)\<rparr>"

definition note_log ::
  "('m, 'y, 'g) gw_logf \<Rightarrow> int \<Rightarrow> string \<Rightarrow> string \<Rightarrow> ('m, 'y, 'g, 'w) win_session \<Rightarrow> ('m, 'y, 'g, 'w) win_session" where
  "note_log lg status category msg s = s\<lparr>ws_fmu := lg (ws_fmu s) status (Some category) msg\<rparr>"

definition set_proc :: "win_place \<Rightarrow> w_process option \<Rightarrow> ('m, 'y, 'g, 'w) win_session \<Rightarrow> ('m, 'y, 'g, 'w) win_session" where
  "set_proc p x s = s\<lparr>ws_proc := (ws_proc s)(p := x)\<rparr>"

definition last_error :: "'w win_lib \<Rightarrow> ('m, 'y, 'g, 'w) win_session \<Rightarrow> string" where
  "last_error W s = '' (error '' @ show_int (wl_last_error W (ws_world s)) @ '')''"

subsection \<open>Command lines\<close>

text \<open>
  \<open>snprintf\<close> at an offset of the buffer. It returns the full length of its text, so the offset may
  pass the end of the buffer; the next call then writes outside it (its size has wrapped around).
\<close>

definition cmd_append :: "string \<times> nat \<Rightarrow> string \<Rightarrow> (string \<times> nat) option" where
  "cmd_append b s = (case b of (buf, offset) \<Rightarrow>
     if MAX_CMD_LENGTH < offset then None
     else Some (buf @ take (MAX_CMD_LENGTH - offset - 1) s, offset + length s))"

definition cmd_parts :: "'w win_lib \<Rightarrow> windows_model \<Rightarrow> string \<Rightarrow> string list" where
  "cmd_parts W m path = [''cmd /C cd '' @ path @ '' && '' @ show_str (wm_exe m), '' --name '' @ show_str (wm_name m),
     '' --endtime '' @ wl_fmt_lf W (wm_end_time m), '' --stepsize '' @ wl_fmt_lf W (wm_step_size m),
     '' --logger '' @ show_int (wm_log_level m), '' --timeout '' @ wl_fmt_lf W (wm_timeout m)] @
     (case wm_yaml m of None \<Rightarrow> [] | Some y \<Rightarrow> ['' '' @ y])"

definition build_cmd :: "'w win_lib \<Rightarrow> windows_model \<Rightarrow> string \<Rightarrow> string option" where
  "build_cmd W m path = map_option fst (foldM cmd_append ([], 0) (cmd_parts W m path))"

subsection \<open>Files\<close>

definition win_file_path :: "('m, 'y, 'g) gateway_fmu \<Rightarrow> string \<Rightarrow> string \<Rightarrow> string" where
  "win_file_path f name ext = snprintf MAX_PATH (inst_resource_location f @ [CHR 0x5C] @ ''..'' @ [CHR 0x5C] @ name @ ''.'' @ ext)"

definition win_file_exists :: "'w win_lib \<Rightarrow> ('m, 'y, 'g, 'w) win_session \<Rightarrow> string \<Rightarrow> string option" where
  "win_file_exists W s name = find (\<lambda>path. wl_is_file W path (ws_world s)) (map (win_file_path (ws_fmu s) name) [''bat'', ''ps1''])"

subsection \<open>Stopping a process\<close>

definition attach_parent :: "'w win_lib \<Rightarrow> ('m, 'y, 'g, 'w) win_session \<Rightarrow> ('m, 'y, 'g, 'w) win_session" where
  "attach_parent W s = snd (ask (wl_attach W ATTACH_PARENT_PROCESS) (act (wl_ctrl_handler W False) s))"

definition send_break ::
  "('m, 'y, 'g) gw_logf \<Rightarrow> 'w win_lib \<Rightarrow> string \<Rightarrow> u32 \<Rightarrow> ('m, 'y, 'g, 'w) win_session \<Rightarrow> ('m, 'y, 'g, 'w) win_session" where
  "send_break lg W name pid s =
    (let s1 = act (wl_free_console W) s; (ok, s2) = ask (wl_attach W pid) s1
     in if \<not> ok then attach_parent W (note_log lg 3 ''Error'' (''Failed to attach to console of process '' @ name @ last_error W s2) s2)
        else let (sent, s3) = ask (wl_ctrl_break W pid) (act (wl_ctrl_handler W True) s2);
                 s4 = (if sent then s3
                   else note_log lg 3 ''Error'' (''Failed to send CTRL_BREAK_EVENT to process '' @ name @ last_error W s3) s3);
                 s5 = act (wl_sleep W 1000) (act (wl_free_console W) s4)
             in attach_parent W (note_log lg 0 ''Debug'' (''Terminated process '' @ name @ '' via SIGINT.'') s5))"

definition gracefully_terminate_process ::
  "('m, 'y, 'g) gw_logf \<Rightarrow> 'w win_lib \<Rightarrow> windows_model \<Rightarrow> win_place \<Rightarrow> ('m, 'y, 'g, 'w) win_session \<Rightarrow> ('m, 'y, 'g, 'w) win_session" where
  "gracefully_terminate_process lg W m place s = (case ws_proc s place of None \<Rightarrow> s
     | Some p \<Rightarrow>
        (let name = show_str (wm_name m); (code, s1) = ask (wl_exit_code W (pi_handle (wp_p_info p))) s
         in case code of
              None \<Rightarrow> note_log lg 3 ''Error'' (''Failed to get exit code for process '' @ name @ last_error W s1) s1
            | Some c \<Rightarrow>
                if c \<noteq> STILL_ACTIVE then note_log lg 0 ''Info'' (''Process '' @ name @ '' already terminated'') s1
                else let s2 = note_log lg 0 ''Debug'' (''Sending SIGINT to process '' @ name @ ''...'') s1;
                         (ended, s3) = ask (wl_wait W (pi_handle (wp_p_info p)) 0) s2
                     in if ended then note_log lg 0 ''Info'' (''Process '' @ name @ '' terminated before sending signal'') s3
                        else send_break lg W name (pi_id (wp_p_info p)) s3))"

subsection \<open>The environment of a process\<close>

definition put_at :: "string \<Rightarrow> nat \<Rightarrow> string \<Rightarrow> string option" where
  "put_at buf i xs = (if i + length xs \<le> length buf then Some (take i buf @ xs @ drop (i + length xs) buf) else None)"

definition env_block :: "string list \<Rightarrow> string" where
  "env_block ss = concat (map (\<lambda>s. s @ [CHR 0x00]) ss) @ [CHR 0x00]"

text \<open>The loop over the parent's block ends at the first empty string.\<close>

definition parent_env_size :: "string list \<Rightarrow> nat" where
  "parent_env_size ss = sum_list (map (\<lambda>s. length s + 1) (takeWhile (\<lambda>s. s \<noteq> []) ss)) + 1"

definition envar_text :: "gw_param \<Rightarrow> string option" where
  "envar_text e = do { name \<leftarrow> gp_name e; d \<leftarrow> gp_default e; Some (name @ ''='' @ d) }"

definition env_size_step :: "u32 \<Rightarrow> gw_param \<Rightarrow> u32 option" where
  "env_size_step n e = do { t \<leftarrow> envar_text e; Some (n + word_of_nat (length t + 1)) }"

definition put_envar :: "u32 \<Rightarrow> string \<times> nat \<Rightarrow> gw_param \<Rightarrow> (string \<times> nat) option" where
  "put_envar env_size b e = (case b of (buf, ptr) \<Rightarrow> do {
     t \<leftarrow> envar_text e;
     buf1 \<leftarrow> (if env_size = 0 then Some buf else put_at buf ptr (snprintf (unat env_size) t @ [CHR 0x00]));
     Some (buf1, ptr + length t + 1) })"

definition build_env :: "'w win_lib \<Rightarrow> 'w \<Rightarrow> gw_param list \<Rightarrow> string option option" where
  "build_env W w es = (if es = [] then Some None
     else do {
       n \<leftarrow> foldM env_size_step 0 (ntl es);
       let parent_size = parent_env_size (wl_environ W w);
       let env_size = n + 1;
       (buf, ptr) \<leftarrow> foldM (put_envar env_size) (replicate (unat env_size) (CHR 0x00), 0) (ntl es);
       blk \<leftarrow> put_at buf ptr [CHR 0x00];
       c1 \<leftarrow> put_at (replicate (parent_size + unat env_size) (CHR 0x00)) 0 (take parent_size (env_block (wl_environ W w)));
       c2 \<leftarrow> put_at c1 (parent_size - 1) [CHR 0x00];
       c3 \<leftarrow> put_at c2 (parent_size - 1) (take (unat env_size) blk);
       Some (Some c3) })"

subsection \<open>Starting a process\<close>

definition no_process :: process_info where
  "no_process = \<lparr>pi_handle = 0, pi_thread = 0, pi_id = 0\<rparr>"

definition configure_process :: "bool \<Rightarrow> string option \<Rightarrow> w_process" where
  "configure_process visible name = \<lparr>wp_s_info = \<lparr>si_title = (if visible then name else None), si_std_handles = True,
     si_hidden = \<not> visible, si_output = None\<rparr>, wp_p_info = no_process\<rparr>"

text \<open>The process information of the descriptor changes only when the process could be created.\<close>

definition create_at ::
  "'w win_lib \<Rightarrow> create_args \<Rightarrow> win_place \<Rightarrow> w_process \<Rightarrow> ('m, 'y, 'g, 'w) win_session \<Rightarrow> bool \<times> ('m, 'y, 'g, 'w) win_session" where
  "create_at W c place p s = (case ask (wl_create W c) s of
      (None, s1) \<Rightarrow> (False, set_proc place (Some p) s1)
    | (Some info, s1) \<Rightarrow> (True, set_proc place (Some (p\<lparr>wp_p_info := info\<rparr>)) s1))"

definition start_redis ::
  "('m, 'y, 'g) gw_logf \<Rightarrow> 'w win_lib \<Rightarrow> windows_model \<Rightarrow> w_process \<Rightarrow> ('m, 'y, 'g, 'w) win_session \<Rightarrow> ('m, 'y, 'g, 'w) win_session" where
  "start_redis lg W m p s =
    (let file_path = wl_path_cat W (inst_resource_location (ws_fmu s)) (wm_exe m);
         cmd = snprintf 256 (''cmd /C '' @ file_path @ '' --port '' @ show_str (wm_args m))
     in case create_at W \<lparr>cr_app = None, cr_cmd = cmd, cr_inherit = False, cr_console = True, cr_env = None, cr_dir = None,
            cr_info = wp_s_info p\<rparr> Transport p s of
          (ok, s1) \<Rightarrow> if ok then s1 else note_log lg 3 ''Error'' ''Could not start Redis-Server.exe'' s1)"

definition session_flag :: "'y gw_session \<Rightarrow> nat \<Rightarrow> bool" where
  "session_flag ss i \<longleftrightarrow> gs_flags ss ! i \<noteq> 0"

text \<open>Standard output and error go to the file, when it can be created.\<close>

definition log_to :: "'w win_lib \<Rightarrow> string option \<Rightarrow> string \<Rightarrow> w_process \<Rightarrow> ('m, 'y, 'g, 'w) win_session
     \<Rightarrow> nat option \<times> w_process \<times> ('m, 'y, 'g, 'w) win_session" where
  "log_to W location name p s = (case location of None \<Rightarrow> (None, p, s)
     | Some dir \<Rightarrow> if dir = [] then (None, p, s)
        else (case ask (wl_create_file W (snprintf MAX_PATH (dir @ ''/'' @ name @ ''_log.txt''))) s of
          (None, s1) \<Rightarrow> (None, p, s1)
        | (Some h, s1) \<Rightarrow> (Some h, p\<lparr>wp_s_info := (wp_s_info p)\<lparr>si_output := Some h\<rparr>\<rparr>, s1)))"

definition start_model ::
  "('m, 'y, 'g) gw_logf \<Rightarrow> 'w win_lib \<Rightarrow> windows_model \<Rightarrow> win_place \<Rightarrow> ('m, 'y, 'g, 'w) win_session
     \<Rightarrow> ('m, 'y, 'g, 'w) win_session option" where
  "start_model lg W m place s = do {
     g \<leftarrow> get_gw (ws_fmu s);
     p \<leftarrow> ws_proc s place;
     cmd \<leftarrow> build_cmd W m (inst_resource_location (ws_fmu s));
     ss \<leftarrow> gw_session g;
     let (log, p1, s1) = log_to W (if session_flag ss 3 then gw_log_location g else None) (show_str (wm_name m)) p s;
     env \<leftarrow> build_env W (ws_world s1) (wm_envar m);
     let (ok, s2) = create_at W \<lparr>cr_app = None, cr_cmd = cmd, cr_inherit = (log \<noteq> None), cr_console = True, cr_env = env,
           cr_dir = None, cr_info = wp_s_info p1\<rparr> place p1 s1;
     Some (if ok then s2 else note_log lg 3 ''Error'' (''Could not start '' @ show_str (wm_name m) @ last_error W s2) s2) }"

text \<open>The models of the list up to one without a name, with their places.\<close>

definition session_models :: "'y gw_session \<Rightarrow> (windows_model \<times> win_place) list" where
  "session_models ss = (let ms = takeWhile (\<lambda>m. wm_name m \<noteq> None) (gs_w_models ss) in zip ms (map WinModel [0..<length ms]))"

definition starting :: "('m, 'y, 'g) gw_logf \<Rightarrow> windows_model \<Rightarrow> ('m, 'y, 'g, 'w) win_session \<Rightarrow> ('m, 'y, 'g, 'w) win_session" where
  "starting lg m s = note_log lg 0 ''Debug'' (''Starting process: '' @ show_str (wm_name m)) s"

definition start_transport ::
  "('m, 'y, 'g) gw_logf \<Rightarrow> 'w win_lib \<Rightarrow> 'y gw_session \<Rightarrow> ('m, 'y, 'g, 'w) win_session \<Rightarrow> ('m, 'y, 'g, 'w) win_session" where
  "start_transport lg W ss s = (case gs_transport ss of None \<Rightarrow> s
     | Some m \<Rightarrow>
        (let p = configure_process (session_flag ss 2) (wm_name m)
         in start_redis lg W m p (set_proc Transport (Some p) (starting lg m s))))"

definition start_one ::
  "('m, 'y, 'g) gw_logf \<Rightarrow> 'w win_lib \<Rightarrow> bool \<Rightarrow> ('m, 'y, 'g, 'w) win_session \<Rightarrow> windows_model \<times> win_place
     \<Rightarrow> ('m, 'y, 'g, 'w) win_session option" where
  "start_one lg W visible s mp = (case mp of (m, place) \<Rightarrow>
     start_model lg W m place (set_proc place (Some (configure_process visible (wm_name m))) (starting lg m s)))"

definition win_start_models ::
  "('m, 'y, 'g) gw_logf \<Rightarrow> 'w win_lib \<Rightarrow> ('m, 'y, 'g, 'w) win_session \<Rightarrow> ('m, 'y, 'g, 'w) win_session option" where
  "win_start_models lg W s = do {
     g \<leftarrow> get_gw (ws_fmu s);
     case gw_session g of None \<Rightarrow> Some s
     | Some ss \<Rightarrow> do {
         let s1 = start_transport lg W ss s;
         s2 \<leftarrow> (case gs_simbus ss of None \<Rightarrow> Some s1 | Some m \<Rightarrow> start_one lg W (session_flag ss 1) s1 (m, Simbus));
         foldM (start_one lg W (session_flag ss 0)) s2 (session_models ss) } }"

subsection \<open>Shutting down\<close>

definition check_alive ::
  "('m, 'y, 'g) gw_logf \<Rightarrow> 'w win_lib \<Rightarrow> windows_model \<Rightarrow> win_place \<Rightarrow> ('m, 'y, 'g, 'w) win_session
     \<Rightarrow> bool \<times> ('m, 'y, 'g, 'w) win_session" where
  "check_alive lg W m place s = (case ws_proc s place of None \<Rightarrow> (False, s)
     | Some p \<Rightarrow> (case ask (wl_exit_code W (pi_handle (wp_p_info p))) s of
          (None, s1) \<Rightarrow> (False, note_log lg 3 ''Error'' (''Failed to get exit code for process '' @ show_str (wm_name m) @ last_error W s1) s1)
        | (Some c, s1) \<Rightarrow> (c = STILL_ACTIVE, s1)))"

definition close_process :: "'w win_lib \<Rightarrow> win_place \<Rightarrow> w_process \<Rightarrow> ('m, 'y, 'g, 'w) win_session \<Rightarrow> ('m, 'y, 'g, 'w) win_session" where
  "close_process W place p s =
     set_proc place None (act (wl_close W (pi_thread (wp_p_info p))) (act (wl_close W (pi_handle (wp_p_info p))) s))"

text \<open>The exit code of an ended process is only logged; 0 stands for one that cannot be read.\<close>

definition check_shutdown ::
  "('m, 'y, 'g) gw_logf \<Rightarrow> 'w win_lib \<Rightarrow> windows_model \<Rightarrow> win_place \<Rightarrow> nat \<Rightarrow> ('m, 'y, 'g, 'w) win_session
     \<Rightarrow> int \<times> ('m, 'y, 'g, 'w) win_session" where
  "check_shutdown lg W m place sec s = (case ws_proc s place of None \<Rightarrow> (0, s)
     | Some p \<Rightarrow>
        (let h = pi_handle (wp_p_info p); name = show_str (wm_name m); (ended, s1) = ask (wl_wait W h (sec * 1000)) s
         in if \<not> ended then (-1, note_log lg 3 ''Error'' (name @ '' is still active.'') s1)
            else let (code, s2) = ask (wl_exit_code W h) s1;
                     c = (case code of None \<Rightarrow> 0 | Some c \<Rightarrow> unat c)
                 in (0, close_process W place p
                       (note_log lg 0 ''Info'' (name @ '' is shut down (exit code: '' @ show_nat c @ '').'') s2))))"

definition win_sync :: "('y, 'g) gw_lib \<Rightarrow> f64 \<Rightarrow> ('m, 'y, 'g, 'w) win_session \<Rightarrow> ('m, 'y, 'g, 'w) win_session option" where
  "win_sync G t s = do {
     g \<leftarrow> get_gw (ws_fmu s);
     (_, m, ms) \<leftarrow> gl_sync G (gw_model g) t (mem_sv (ws_fmu s));
     Some (s\<lparr>ws_fmu := add_event (set_gw ((ws_fmu s)\<lparr>mem_sv := ms\<rparr>) (g\<lparr>gw_model := m\<rparr>)) (GwSync t)\<rparr>) }"

definition extra_time :: "'w win_lib \<Rightarrow> 'y gw_session \<Rightarrow> f64" where
  "extra_time W ss = wl_extra W (gs_last_step ss) (case gs_simbus ss of None \<Rightarrow> wl_step_size W | Some m \<Rightarrow> wm_step_size m)"

definition sync_extra_step ::
  "('m, 'y, 'g) gw_logf \<Rightarrow> 'w win_lib \<Rightarrow> ('y, 'g) gw_lib \<Rightarrow> ('m, 'y, 'g, 'w) win_session \<Rightarrow> ('m, 'y, 'g, 'w) win_session option" where
  "sync_extra_step lg W G s = do {
     g \<leftarrow> get_gw (ws_fmu s);
     if \<not> initialized (gw_state g) then Some s
     else do {
       ss \<leftarrow> gw_session g;
       s1 \<leftarrow> win_sync G (extra_time W ss) (note_log lg 0 ''Debug''
         (''Performing extra step to shutdown models ('' @ wl_fmt_lf W (extra_time W ss) @ '')...'') s);
       Some (note_log lg 0 ''Debug'' ''Extra step for shutting down models finished...'' s1) } }"

definition check_one ::
  "('m, 'y, 'g) gw_logf \<Rightarrow> 'w win_lib \<Rightarrow> bool \<times> ('m, 'y, 'g, 'w) win_session \<Rightarrow> windows_model \<times> win_place
     \<Rightarrow> bool \<times> ('m, 'y, 'g, 'w) win_session" where
  "check_one lg W b mp = (case b of (extra_step, s) \<Rightarrow> case mp of (m, place) \<Rightarrow>
     (case check_alive lg W m place s of (alive, s1) \<Rightarrow>
        if alive then (extra_step, s1)
        else (False, note_log lg 0 ''Debug'' (''Model '' @ show_str (wm_name m) @ '' shut down without extra step.'') s1)))"

text \<open>
  The list of models is null when there is no model stack. Before the first step one
  synchronisation is made; the last one is made when every model is still alive.
\<close>

definition terminate_models ::
  "('m, 'y, 'g) gw_logf \<Rightarrow> 'w win_lib \<Rightarrow> 'y gw_session \<Rightarrow> ('m, 'y, 'g, 'w) win_session \<Rightarrow> ('m, 'y, 'g, 'w) win_session" where
  "terminate_models lg W ss s = foldl (\<lambda>s (m, place). gracefully_terminate_process lg W m place s) s (session_models ss)"

definition before_first_step :: "gw_state \<Rightarrow> bool" where
  "before_first_step st \<longleftrightarrow> st = GwCreated \<or> st = GwInitialized"

definition shutdown_models ::
  "('m, 'y, 'g) gw_logf \<Rightarrow> 'w win_lib \<Rightarrow> ('y, 'g) gw_lib \<Rightarrow> ('m, 'y, 'g, 'w) win_session \<Rightarrow> ('m, 'y, 'g, 'w) win_session option" where
  "shutdown_models lg W G s = do {
     g \<leftarrow> get_gw (ws_fmu s);
     ss \<leftarrow> gw_session g;
     if gs_model_stack ss = None then Some s
     else do {
       s1 \<leftarrow> (if before_first_step (gw_state g) then win_sync G (gs_last_step ss) s else Some s);
       let (extra_step, s2) = foldl (check_one lg W) (True, terminate_models lg W ss s1) (session_models ss);
       if extra_step then sync_extra_step lg W G s2 else Some s2 } }"

definition confirm_closed ::
  "('m, 'y, 'g) gw_logf \<Rightarrow> 'w win_lib \<Rightarrow> 'y gw_session \<Rightarrow> ('m, 'y, 'g, 'w) win_session \<Rightarrow> ('m, 'y, 'g, 'w) win_session" where
  "confirm_closed lg W ss s =
    (let s1 = foldl (\<lambda>s (m, place). snd (check_shutdown lg W m place 10 s)) s (session_models ss);
         s2 = (case gs_simbus ss of None \<Rightarrow> s1
           | Some m \<Rightarrow> (case check_shutdown lg W m Simbus 10 s1 of (rc, t) \<Rightarrow>
                if rc < 0 then gracefully_terminate_process lg W m Simbus t else t))
     in case gs_transport ss of None \<Rightarrow> s2 | Some m \<Rightarrow> gracefully_terminate_process lg W m Transport s2)"

definition win_gw_exit :: "('y, 'g) gw_lib \<Rightarrow> ('m, 'y, 'g, 'w) win_session \<Rightarrow> ('m, 'y, 'g, 'w) win_session option" where
  "win_gw_exit G s = do { f \<leftarrow> gw_exit G (ws_fmu s); Some (s\<lparr>ws_fmu := f\<rparr>) }"

definition win_shutdown_models ::
  "('m, 'y, 'g) gw_logf \<Rightarrow> 'w win_lib \<Rightarrow> ('y, 'g) gw_lib \<Rightarrow> ('m, 'y, 'g, 'w) win_session \<Rightarrow> ('m, 'y, 'g, 'w) win_session option" where
  "win_shutdown_models lg W G s = do {
     s1 \<leftarrow> shutdown_models lg W G s;
     g \<leftarrow> get_gw (ws_fmu s1);
     s2 \<leftarrow> (if initialized (gw_state g) then map_option (note_log lg 0 ''Debug'' ''Gateway exited...'') (win_gw_exit G s1)
           else Some s1);
     Some (case gw_session g of None \<Rightarrow> s2 | Some ss \<Rightarrow> confirm_closed lg W ss s2) }"

subsection \<open>Commands\<close>

definition WIN_ECANCELED :: int where "WIN_ECANCELED = 105"

definition hidden_info :: startup_info where
  "hidden_info = \<lparr>si_title = None, si_std_handles = False, si_hidden = True, si_output = None\<rparr>"

definition win_fmigateway_run_cmd ::
  "('m, 'y, 'g) gw_logf \<Rightarrow> 'w win_lib \<Rightarrow> ('m, 'y, 'g, 'w) win_session \<Rightarrow> string \<Rightarrow> (int \<times> ('m, 'y, 'g, 'w) win_session) option" where
  "win_fmigateway_run_cmd lg W s cmd_string =
    (let cmd = ''cmd /C '' @ cmd_string; dir = inst_resource_location (ws_fmu s)
     in if MAX_CMD_LENGTH + 8 \<le> length cmd
        then Some (EINVAL_GW, note_log lg 3 ''Error'' ''Command string too long to execute.'' s)
        else let s1 = note_log lg 0 ''Debug'' (''Run cmd: '' @ cmd_string @ '' (cwd: '' @ dir @ '')'') s
             in case ask (wl_create W \<lparr>cr_app = None, cr_cmd = cmd, cr_inherit = False, cr_console = False, cr_env = None,
                  cr_dir = Some dir, cr_info = hidden_info\<rparr>) s1 of
               (None, s2) \<Rightarrow> Some (EINVAL_GW,
                 note_log lg 3 ''Error'' (''Could not execute cmd '' @ quoted cmd_string @ last_error W s2) s2)
             | (Some info, s2) \<Rightarrow> do {
                 w \<leftarrow> wl_wait_end W (pi_handle info) (ws_world s2);
                 let (code, s3) = ask (wl_exit_code W (pi_handle info))
                       (s2\<lparr>ws_world := w, ws_fmu := add_event (ws_fmu s2) (RanCommand cmd_string)\<rparr>);
                 let s4 = act (wl_close W (pi_thread info)) (act (wl_close W (pi_handle info)) s3);
                 let c = (case code of None \<Rightarrow> 0 | Some c \<Rightarrow> c);
                 Some (if c \<noteq> 0 then (WIN_ECANCELED, note_log lg 3 ''Error''
                         (''Cmd '' @ quoted cmd_string @ '' exited with code '' @ show_int (sint c) @ ''.'') s4)
                       else (0, s4)) })"

text \<open>The variables of the scripts, over the environment of the C library and of the process.\<close>

definition win_set_one_envar ::
  "'m clib \<Rightarrow> ('y, 'g) gw_lib \<Rightarrow> 'w win_lib \<Rightarrow> ('m, 'y, 'g, 'w) win_session \<Rightarrow> gw_param \<Rightarrow> ('m, 'y, 'g, 'w) win_session option" where
  "win_set_one_envar L G W s e = (case gp_name e of None \<Rightarrow> Some s
     | Some name \<Rightarrow> if wl_getenv W (ws_world s) name \<noteq> None then Some s
         else do {
           fmu_value \<leftarrow> get_fmu_env_value L G (ws_fmu s) e;
           Some (case fmu_value of Some v \<Rightarrow> snd (ask (wl_setenv W name (Some v)) s)
             | None \<Rightarrow> (case gp_default e of None \<Rightarrow> s | Some d \<Rightarrow> snd (ask (wl_setenv W name (Some d)) s))) })"

definition win_set_envar ::
  "'m clib \<Rightarrow> ('y, 'g) gw_lib \<Rightarrow> 'w win_lib \<Rightarrow> ('m, 'y, 'g, 'w) win_session \<Rightarrow> ('m, 'y, 'g, 'w) win_session option" where
  "win_set_envar L G W s = do { g \<leftarrow> get_gw (ws_fmu s); foldM (win_set_one_envar L G W) s (ntl (gw_envar g)) }"

definition win_run_cmd ::
  "('m, 'y, 'g) gw_logf \<Rightarrow> 'm clib \<Rightarrow> ('y, 'g) gw_lib \<Rightarrow> 'w win_lib \<Rightarrow> ('m, 'y, 'g, 'w) win_session \<Rightarrow> string option
     \<Rightarrow> (int \<times> ('m, 'y, 'g, 'w) win_session) option" where
  "win_run_cmd lg L G W s cmd = (case cmd of None \<Rightarrow> Some (0, s)
     | Some c \<Rightarrow> do { s1 \<leftarrow> win_set_envar L G W s; win_fmigateway_run_cmd lg W s1 c })"

subsection \<open>The parallel set-up\<close>

definition last_ext :: "string \<Rightarrow> string" where
  "last_ext path = (if CHR ''.'' \<in> set path then rev (takeWhile (\<lambda>c. c \<noteq> CHR ''.'') (rev path)) else [])"

definition dquoted :: "string \<Rightarrow> string" where
  "dquoted s = [CHR 0x22] @ s @ [CHR 0x22]"

definition parallel_cmd :: "string \<Rightarrow> string \<Rightarrow> string" where
  "parallel_cmd script_path tmp_file = snprintf MAX_CMD_LENGTH
    ((if last_ext script_path \<in> {''ps1'', ''Ps1'', ''pS1'', ''PS1''}
      then ''powershell -NoProfile -NonInteractive -ExecutionPolicy Bypass -File '' else []) @
     dquoted script_path @ '' > '' @ dquoted tmp_file)"

text \<open>The first line of what the script printed, without its line end; nothing for an empty one.\<close>

definition first_line :: "string \<Rightarrow> string" where
  "first_line text = (case fgets MAX_PATH text of None \<Rightarrow> []
     | Some (l, _) \<Rightarrow> takeWhile (\<lambda>c. c \<noteq> CHR 0x0D \<and> c \<noteq> CHR 0x0A) l)"

definition run_parallelisation ::
  "('m, 'y, 'g) gw_logf \<Rightarrow> 'w win_lib \<Rightarrow> ('m, 'y, 'g, 'w) win_session \<Rightarrow> string
     \<Rightarrow> (string option \<times> ('m, 'y, 'g, 'w) win_session) option" where
  "run_parallelisation lg W s script_path = (case ask (wl_temp_file W) s of
      (None, s1) \<Rightarrow> Some (None, note_log lg 3 ''Error'' (''Failed to create temp file for script output'' @ last_error W s1) s1)
    | (Some tmp, s1) \<Rightarrow> do {
        (rc, s2) \<leftarrow> win_fmigateway_run_cmd lg W s1 (parallel_cmd script_path tmp);
        if rc \<noteq> 0 then Some (None, act (wl_delete_file W tmp) s2)
        else (case wl_read_file W tmp (ws_world s2) of
            None \<Rightarrow> Some (None, act (wl_delete_file W tmp)
              (note_log lg 3 ''Error'' (''Failed to read script output from temp file'' @ last_error W s2) s2))
          | Some text \<Rightarrow> Some (if first_line text = [] then None else Some (first_line text), act (wl_delete_file W tmp) s2)) })"

definition win_parallelize ::
  "('m, 'y, 'g) gw_logf \<Rightarrow> 'w win_lib \<Rightarrow> ('m, 'y, 'g, 'w) win_session \<Rightarrow> ('m, 'y, 'g, 'w) win_session option" where
  "win_parallelize lg W s = (case win_file_exists W s ''parallelisation'' of None \<Rightarrow> Some s
     | Some script_path \<Rightarrow> do {
         (out, s1) \<leftarrow> run_parallelisation lg W s script_path;
         Some (case out of None \<Rightarrow> s1
           | Some dir \<Rightarrow>
               (let s2 = note_log lg 0 ''Debug'' (''parallelisation script returned: '' @ dir) s1
                in note_log lg 0 ''Debug'' (''Using new resource location: '' @ dir)
                     (s2\<lparr>ws_fmu := (ws_fmu s2)\<lparr>inst_resource_location := dir\<rparr>\<rparr>))) })"

definition win_teardown ::
  "('m, 'y, 'g) gw_logf \<Rightarrow> 'w win_lib \<Rightarrow> ('m, 'y, 'g, 'w) win_session \<Rightarrow> ('m, 'y, 'g, 'w) win_session option" where
  "win_teardown lg W s =
    (let path = wl_path_cat W (inst_resource_location (ws_fmu s)) (Some ''teardown.bat'')
     in if \<not> wl_access W path (ws_world s) then Some s
        else do {
          (rc, s1) \<leftarrow> win_fmigateway_run_cmd lg W s path;
          Some (if rc \<noteq> 0 then note_log lg 0 ''Debug'' (''teardown.bat failed: '' @ show_int rc) s1 else s1) })"

subsection \<open>SIMER\<close>

text \<open>
  The arguments come from the string input 0, or are the command the real input 1 selects. A null
  pointer is printed as such.
\<close>

definition simer_cmd :: "'m clib \<Rightarrow> 'w win_lib \<Rightarrow> ('m, 'y, 'g) gateway_fmu \<Rightarrow> ('y, 'g) gateway \<Rightarrow> string option option" where
  "simer_cmd L W f g =
    (let given = (case hm_get L (string_input f) ''0'' of Some (PString bs) \<Rightarrow> Some (text_of bs) | _ \<Rightarrow> None)
     in if given \<noteq> None \<and> given \<noteq> Some [] then Some given
        else do {
          idx \<leftarrow> (case hm_get L (scalar_input f) ''1'' of
              Some (PDouble p) \<Rightarrow> map_option (\<lambda>x. if f64_le 0 x then wl_to_size W x else 0) (load f p)
            | _ \<Rightarrow> Some 0);
          Some (case nth_opt (gw_cmds g) idx of None \<Rightarrow> given | Some c \<Rightarrow> Some c) })"

definition simer_log :: "('m, 'y, 'g) gw_logf \<Rightarrow> 'w win_lib \<Rightarrow> string option \<Rightarrow> ('m, 'y, 'g, 'w) win_session
     \<Rightarrow> nat option \<times> w_process \<times> ('m, 'y, 'g, 'w) win_session" where
  "simer_log lg W location s = (case log_to W location ''SIMER'' (configure_process True (Some ''SIMER'')) s of (log, p, s1) \<Rightarrow>
     (log, p, if log = None \<and> location \<noteq> None \<and> location \<noteq> Some []
        then note_log lg 3 ''Error'' (''Could not create SIMER log file'' @ last_error W s1) s1 else s1))"

definition note_simer ::
  "('m, 'y, 'g) gw_logf \<Rightarrow> string option \<Rightarrow> string \<Rightarrow> string \<Rightarrow> string \<Rightarrow> ('m, 'y, 'g, 'w) win_session \<Rightarrow> ('m, 'y, 'g, 'w) win_session" where
  "note_simer lg log exe_path cmd work_dir s =
    (let s1 = note_log lg 0 ''Debug'' (''Starting SIMER: '' @ exe_path @ '' '') s;
         s2 = note_log lg 0 ''Debug'' (''  SIMER cmd: '' @ cmd) s1;
         s3 = note_log lg 0 ''Debug'' (''  SIMER work dir: '' @ work_dir) s2
     in case log of None \<Rightarrow> s3 | Some path \<Rightarrow> note_log lg 0 ''Debug'' (''  SIMER log file: '' @ path) s3)"

definition launch_simer ::
  "('m, 'y, 'g) gw_logf \<Rightarrow> 'w win_lib \<Rightarrow> string option \<Rightarrow> string option \<Rightarrow> ('m, 'y, 'g, 'w) win_session \<Rightarrow> ('m, 'y, 'g, 'w) win_session" where
  "launch_simer lg W location args s = (case simer_log lg W location s of (log, p, s1) \<Rightarrow>
     (let work_dir = snprintf MAX_PATH (inst_resource_location (ws_fmu s1) @ ''/sim'');
          exe_path = snprintf MAX_PATH (work_dir @ [CHR 0x5C] @ ''bin'' @ [CHR 0x5C] @ ''simer.exe'');
          cmd = snprintf MAX_CMD_LENGTH (''simer.exe '' @ show_str args);
          path = map_option (\<lambda>_. snprintf MAX_PATH (show_str location @ ''/SIMER_log.txt'')) log;
          s2 = note_simer lg path exe_path cmd work_dir s1
      in case ask (wl_create W \<lparr>cr_app = Some exe_path, cr_cmd = cmd, cr_inherit = (log \<noteq> None), cr_console = True,
             cr_env = None, cr_dir = Some work_dir, cr_info = wp_s_info p\<rparr>) s2 of
           (None, s3) \<Rightarrow> note_log lg 3 ''Error'' (''Could not start SIMER'' @ last_error W s3) s3
         | (Some info, s3) \<Rightarrow> note_log lg 0 ''Debug'' (''SIMER started (PID '' @ show_nat (unat (pi_id info)) @ '')'')
              (set_proc Simer (Some (p\<lparr>wp_p_info := info\<rparr>)) s3)))"

definition win_run_simer ::
  "('m, 'y, 'g) gw_logf \<Rightarrow> 'm clib \<Rightarrow> 'w win_lib \<Rightarrow> ('m, 'y, 'g, 'w) win_session \<Rightarrow> ('m, 'y, 'g, 'w) win_session option" where
  "win_run_simer lg L W s = do {
     g \<leftarrow> get_gw (ws_fmu s);
     args \<leftarrow> simer_cmd L W (ws_fmu s) g;
     Some (launch_simer lg W (gw_log_location g) args s) }"

text \<open>SIMER is asked to stop, and terminated when that is not possible or takes too long.\<close>

definition break_simer ::
  "('m, 'y, 'g) gw_logf \<Rightarrow> 'w win_lib \<Rightarrow> process_info \<Rightarrow> ('m, 'y, 'g, 'w) win_session \<Rightarrow> ('m, 'y, 'g, 'w) win_session" where
  "break_simer lg W info s = (case ask (wl_attach W (pi_id info)) (act (wl_free_console W) s) of (ok, s1) \<Rightarrow>
     if ok then
       (let (sent, s2) = ask (wl_ctrl_break W (pi_id info)) (act (wl_ctrl_handler W True) s1);
            s3 = (if sent then s2 else note_log lg 3 ''Error'' (''Failed to send CTRL_BREAK_EVENT to SIMER'' @ last_error W s2) s2)
        in act (wl_sleep W 1000) (act (wl_free_console W) s3))
     else act (wl_terminate W (pi_handle info))
       (note_log lg 3 ''Error'' (''Could not attach to SIMER console'' @ last_error W s1 @ '', terminating.'') s1))"

definition win_stop_simer ::
  "('m, 'y, 'g) gw_logf \<Rightarrow> 'w win_lib \<Rightarrow> ('m, 'y, 'g, 'w) win_session \<Rightarrow> ('m, 'y, 'g, 'w) win_session" where
  "win_stop_simer lg W s = (case ws_proc s Simer of None \<Rightarrow> s
     | Some p \<Rightarrow>
        (let info = wp_p_info p; (code, s1) = ask (wl_exit_code W (pi_handle info)) s
         in close_process W Simer p
              (if code \<noteq> None \<and> code \<noteq> Some STILL_ACTIVE then note_log lg 0 ''Info'' ''SIMER already exited.'' s1
               else let s2 = break_simer lg W info (note_log lg 0 ''Debug''
                          (''Sending SIGINT to SIMER (PID '' @ show_nat (unat (pi_id info)) @ '')...'') s1);
                        (parent, s3) = ask (wl_attach W ATTACH_PARENT_PROCESS) (act (wl_ctrl_handler W False) s2);
                        s4 = (if parent then s3 else act (wl_alloc_console W) s3);
                        (ended, s5) = ask (wl_wait W (pi_handle info) 10000) s4;
                        s6 = (if ended then s5 else act (wl_terminate W (pi_handle info))
                          (note_log lg 3 ''Error'' ''SIMER did not exit in time, terminating forcefully.'' s5))
                    in note_log lg 0 ''Debug'' ''SIMER stopped.'' s6)))"

subsection \<open>The session (session.c, fmigateway.c) on Windows\<close>

definition win_session_cmd :: "'w win_lib \<Rightarrow> ('m, 'y, 'g, 'w) win_session \<Rightarrow> string \<Rightarrow> string option \<Rightarrow> string option" where
  "win_session_cmd W s name setting = (case win_file_exists W s name of Some p \<Rightarrow> Some p | None \<Rightarrow> setting)"

definition win_session_start ::
  "('m, 'y, 'g) gw_logf \<Rightarrow> 'm clib \<Rightarrow> ('y, 'g) gw_lib \<Rightarrow> 'w win_lib \<Rightarrow> ('m, 'y, 'g, 'w) win_session
     \<Rightarrow> (int \<times> ('m, 'y, 'g, 'w) win_session) option" where
  "win_session_start lg L G W s = do {
     g \<leftarrow> get_gw (ws_fmu s);
     (rc, s1) \<leftarrow> win_run_cmd lg L G W s (win_session_cmd W s ''startup'' (gw_startup_cmd g));
     if rc \<noteq> 0 then Some (rc, note_log lg 0 ''Debug'' (''Startup command failed: '' @ show_int rc) s1)
     else do {
       s2 \<leftarrow> (if gw_runtime_type g = FMIGATEWAY_RUNTIME_SIMER then win_run_simer lg L W s1 else win_start_models lg W s1);
       Some (0, s2) } }"

definition win_session_end ::
  "('m, 'y, 'g) gw_logf \<Rightarrow> 'm clib \<Rightarrow> ('y, 'g) gw_lib \<Rightarrow> 'w win_lib \<Rightarrow> ('m, 'y, 'g, 'w) win_session
     \<Rightarrow> (int \<times> ('m, 'y, 'g, 'w) win_session) option" where
  "win_session_end lg L G W s = do {
     g \<leftarrow> get_gw (ws_fmu s);
     if \<not> initialized (gw_state g) then do { s1 \<leftarrow> win_teardown lg W s; Some (0, s1) }
     else if gw_runtime_type g \<noteq> FMIGATEWAY_RUNTIME_SIMER \<and> gw_session g = None then do { s1 \<leftarrow> win_gw_exit G s; Some (0, s1) }
     else do {
       s1 \<leftarrow> (if gw_runtime_type g = FMIGATEWAY_RUNTIME_SIMER then map_option (win_stop_simer lg W) (win_gw_exit G s)
             else win_shutdown_models lg W G s);
       (rc, s2) \<leftarrow> win_run_cmd lg L G W s1 (win_session_cmd W s1 ''shutdown'' (gw_shutdown_cmd g));
       if rc \<noteq> 0 then Some (rc, note_log lg 0 ''Debug'' (''Shutdown command failed: '' @ show_int rc) s2)
       else do { s3 \<leftarrow> win_teardown lg W s2; Some (0, s3) } } }"

subsection \<open>The user FMU (fmigateway.c) on Windows\<close>

definition win_gateway_create ::
  "('m, 'y, 'g) gw_logf \<Rightarrow> 'm clib \<Rightarrow> 'w win_lib \<Rightarrow> gw_xml_lib \<Rightarrow> 'y gw_yaml \<Rightarrow> 'g \<Rightarrow> ('m, 'y, 'g, 'w) win_session
     \<Rightarrow> ('m, 'y, 'g, 'w) win_session option" where
  "win_gateway_create lg L W X Y g0 s = do {
     s1 \<leftarrow> win_parallelize lg W (s\<lparr>ws_fmu := set_gw (ws_fmu s) (zero_gateway g0)\<rparr>);
     f \<leftarrow> gateway_configure lg L X Y (ws_fmu s1);
     Some (s1\<lparr>ws_fmu := f\<rparr>) }"

definition win_gateway_init ::
  "('m, 'y, 'g) gw_logf \<Rightarrow> 'm clib \<Rightarrow> ('y, 'g) gw_lib \<Rightarrow> 'w win_lib \<Rightarrow> 'y yaml \<Rightarrow> ('m, 'y, 'g, 'w) win_session
     \<Rightarrow> (int \<times> ('m, 'y, 'g, 'w) win_session) option" where
  "win_gateway_init lg L G W Y s = do {
     (rc, s1) \<leftarrow> win_session_start lg L G W s;
     if rc \<noteq> 0 then Some (rc, s1)
     else do { (rc2, f) \<leftarrow> gateway_connect lg L G Y (ws_fmu s1); Some (rc2, s1\<lparr>ws_fmu := f\<rparr>) } }"

definition win_gateway_destroy ::
  "('m, 'y, 'g) gw_logf \<Rightarrow> 'm clib \<Rightarrow> ('y, 'g) gw_lib \<Rightarrow> 'w win_lib \<Rightarrow> ('m, 'y, 'g, 'w) win_session
     \<Rightarrow> ('m, 'y, 'g, 'w) win_session option" where
  "win_gateway_destroy lg L G W s = do {
     (_, s1) \<leftarrow> win_session_end lg L G W s;
     Some (s1\<lparr>ws_fmu := (ws_fmu s1)\<lparr>fmu_data := (fmu_data (ws_fmu s1))\<lparr>gd_gateway := None\<rparr>\<rparr>\<rparr>) }"

end
