(* ===== verification/GatewayWinRun.thy ===== *)
theory GatewayWinRun
  imports GatewayWin
begin

section \<open>The Windows session at work\<close>

text \<open>
  The command lines and environment blocks the gateway builds for its processes, and the life of
  an instance on Windows: that it runs to its end, and the order of its calls.
\<close>

subsection \<open>Command lines\<close>

lemma cmd_append_fold:
  "foldM cmd_append (take (MAX_CMD_LENGTH - 1) pre, length pre) ps =
    (if ps = [] \<or> length (pre @ concat (butlast ps)) \<le> MAX_CMD_LENGTH
     then Some (take (MAX_CMD_LENGTH - 1) (pre @ concat ps), length (pre @ concat ps)) else None)"
proof (induction ps arbitrary: pre)
  case (Cons p ps)
  have m: "take (MAX_CMD_LENGTH - 1) pre @ take (MAX_CMD_LENGTH - length pre - 1) p = take (MAX_CMD_LENGTH - 1) (pre @ p)"
    by simp
  show ?case
  proof (cases "length pre \<le> MAX_CMD_LENGTH")
    case True
    with m have "foldM cmd_append (take (MAX_CMD_LENGTH - 1) pre, length pre) (p # ps) =
        foldM cmd_append (take (MAX_CMD_LENGTH - 1) (pre @ p), length (pre @ p)) ps"
      by (simp add: cmd_append_def)
    with Cons.IH [of "pre @ p"] True show ?thesis by simp
  qed (simp add: cmd_append_def)
qed simp

text \<open>
  C40: The command line of a model is built without a write outside its buffer exactly when all
  parts but the last fit into it; it is then the whole text cut at 2047 characters. With longer
  parts the size left wraps around and the next part is written behind the buffer.
\<close>

theorem win_build_cmd_exact:
  "build_cmd W m path = (if length (concat (butlast (cmd_parts W m path))) \<le> MAX_CMD_LENGTH
     then Some (take (MAX_CMD_LENGTH - 1) (concat (cmd_parts W m path))) else None)"
  using cmd_append_fold [of "[]" "cmd_parts W m path"] by (simp add: build_cmd_def cmd_parts_def)

subsection \<open>Environment blocks\<close>

text \<open>How a process reads its block: strings up to the first empty one.\<close>

function parse_env_block :: "string \<Rightarrow> string list" where
  "parse_env_block s = (let t = takeWhile (\<lambda>c. c \<noteq> CHR 0x00) s
     in if t = [] then [] else t # parse_env_block (drop (length t + 1) s))"
  by pat_completeness auto
termination by (relation "measure length") (auto simp: Let_def takeWhile_eq_Nil_iff)

declare parse_env_block.simps [simp del]

definition env_strings :: "string list \<Rightarrow> bool" where
  "env_strings ss \<longleftrightarrow> (\<forall>s \<in> set ss. s \<noteq> [] \<and> CHR 0x00 \<notin> set s)"

lemma parse_env_block_strings: "env_strings ss \<Longrightarrow> parse_env_block (env_block ss @ xs) = ss"
proof (induction ss)
  case Nil
  show ?case by (subst parse_env_block.simps) (simp add: env_block_def)
next
  case (Cons s ss)
  then have s: "s \<noteq> []" "CHR 0x00 \<notin> set s" "env_strings ss" by (auto simp: env_strings_def)
  have e: "env_block (s # ss) @ xs = s @ CHR 0x00 # env_block ss @ xs" by (simp add: env_block_def)
  have t: "takeWhile (\<lambda>c. c \<noteq> CHR 0x00) (s @ CHR 0x00 # env_block ss @ xs) = s"
    using s(2) by (subst takeWhile_append2) auto
  show ?case unfolding e by (subst parse_env_block.simps) (simp add: t s Cons.IH Let_def)
qed

definition own_strings :: "gw_param list \<Rightarrow> string list" where
  "own_strings es = List.map_filter envar_text es"

definition envars_ok :: "gw_param list \<Rightarrow> bool" where
  "envars_ok es \<longleftrightarrow> (\<forall>e \<in> set (ntl es). gp_default e \<noteq> None) \<and> length (env_block (own_strings (ntl es))) < 2 ^ 32"

lemma own_strings_Cons: "envar_text e = Some t \<Longrightarrow> own_strings (e # es) = t # own_strings es"
  by (simp add: own_strings_def List.map_filter_simps)

lemma env_size_fold:
  "\<forall>e \<in> set es. envar_text e \<noteq> None \<Longrightarrow>
    foldM env_size_step n es = Some (n + word_of_nat (length (concat (map (\<lambda>s. s @ [CHR 0x00]) (own_strings es)))))"
proof (induction es arbitrary: n)
  case (Cons e es)
  then obtain t where "envar_text e = Some t" by auto
  with Cons show ?case by (simp add: env_size_step_def own_strings_Cons algebra_simps)
qed (simp add: own_strings_def List.map_filter_simps)

lemma put_at_middle: "put_at (pre @ replicate k x) (length pre) ys = (if length ys \<le> k then Some (pre @ ys @ replicate (k - length ys) x) else None)"
  by (simp add: put_at_def)

lemma put_envar_fold:
  assumes "\<forall>e \<in> set es. envar_text e \<noteq> None" "length (concat (map (\<lambda>s. s @ [CHR 0x00]) (own_strings es))) \<le> k"
    "length (concat (map (\<lambda>s. s @ [CHR 0x00]) (own_strings es))) < unat n"
  shows "foldM (put_envar n) (pre @ replicate k (CHR 0x00), length pre) es =
    Some (pre @ concat (map (\<lambda>s. s @ [CHR 0x00]) (own_strings es)) @
        replicate (k - length (concat (map (\<lambda>s. s @ [CHR 0x00]) (own_strings es)))) (CHR 0x00),
      length pre + length (concat (map (\<lambda>s. s @ [CHR 0x00]) (own_strings es))))"
  using assms
proof (induction es arbitrary: pre k)
  case (Cons e es)
  then obtain t where t: "envar_text e = Some t" by auto
  with Cons.prems have l: "length t + 1 \<le> k" "n \<noteq> 0" by (auto simp: own_strings_Cons)
  have "snprintf (unat n) t = t" using Cons.prems(3) t by (simp add: snprintf_def own_strings_Cons)
  then have "put_envar n (pre @ replicate k (CHR 0x00), length pre) e =
      Some ((pre @ t @ [CHR 0x00]) @ replicate (k - (length t + 1)) (CHR 0x00), length (pre @ t @ [CHR 0x00]))"
    using t l by (simp add: put_envar_def put_at_middle)
  with Cons.IH [of "k - (length t + 1)" "pre @ t @ [CHR 0x00]"] Cons.prems t show ?case
    by (simp add: own_strings_Cons)
qed (simp add: own_strings_def List.map_filter_simps)

lemma parent_env_size_block: "env_strings ss \<Longrightarrow> parent_env_size ss = length (env_block ss)"
proof -
  assume "env_strings ss"
  then have t: "takeWhile (\<lambda>s. s \<noteq> []) ss = ss" by (simp add: env_strings_def takeWhile_eq_all_conv)
  show ?thesis by (simp add: parent_env_size_def t env_block_def length_concat comp_def)
qed

lemma build_env_block:
  assumes "es \<noteq> []" "envars_ok es" "env_strings (wl_environ W w)"
  shows "build_env W w es = Some (Some (env_block (wl_environ W w @ own_strings (ntl es)) @ [CHR 0x00]))"
proof -
  let ?c = "concat (map (\<lambda>s. s @ [CHR 0x00]) (own_strings (ntl es)))"
  let ?p = "concat (map (\<lambda>s. s @ [CHR 0x00]) (wl_environ W w))"
  have t: "\<forall>e \<in> set (ntl es). envar_text e \<noteq> None"
  proof
    fix e assume e: "e \<in> set (ntl es)"
    then have "gp_name e \<noteq> None" by (auto simp: ntl_def dest: set_takeWhileD)
    with e assms(2) show "envar_text e \<noteq> None" by (auto simp: envars_ok_def envar_text_def)
  qed
  have l: "length ?c + 1 < 2 ^ 32" using assms(2) by (simp add: envars_ok_def env_block_def)
  define n :: u32 where "n = word_of_nat (length ?c) + 1"
  have n: "unat n = length ?c + 1"
  proof -
    have "n = word_of_nat (length ?c + 1)" by (simp add: n_def)
    then have "unat n = take_bit 32 (length ?c + 1)" by (simp only: unat_of_nat take_bit_eq_mod) simp
    with l show ?thesis by (simp only: take_bit_nat_eq_self)
  qed
  have f1: "foldM env_size_step 0 (ntl es) = Some (word_of_nat (length ?c))" using env_size_fold [OF t, of 0] by simp
  have f2: "foldM (put_envar n) (replicate (length ?c + 1) (CHR 0x00), 0) (ntl es) = Some (?c @ [CHR 0x00], length ?c)"
    using put_envar_fold [OF t, where pre = "[]" and n = n and k = "length ?c + 1"] n by simp
  have p: "parent_env_size (wl_environ W w) = length ?p + 1" "env_block (wl_environ W w) = ?p @ [CHR 0x00]"
    using parent_env_size_block [OF assms(3)] by (simp_all add: env_block_def)
  have c1: "put_at (replicate (length ?p + 1 + (length ?c + 1)) (CHR 0x00)) 0 (?p @ [CHR 0x00]) = Some (?p @ replicate (length ?c + 2) (CHR 0x00))"
    using put_at_middle [of "[]" "length ?p + 1 + (length ?c + 1)" "CHR 0x00" "?p @ [CHR 0x00]"] by (simp add: replicate_Suc)
  show ?thesis
    using assms(1) f1 f2 c1 p n put_at_middle [of ?p "length ?c + 2" "CHR 0x00"]
    by (simp add: build_env_def n_def put_at_middle [of ?c 1, simplified] env_block_def Let_def numeral_2_eq_2)
qed

text \<open>
  C39: The environment block of a model is the parent's followed by the variables of the model: a
  process that reads it finds the strings of the parent and then the variables in their order, no
  write of its construction leaves the buffers, and nothing is cut.
\<close>

theorem win_env_block_roundtrip:
  assumes "es \<noteq> []" "envars_ok es" "env_strings (wl_environ W w)" "env_strings (own_strings (ntl es))"
  shows "\<exists>block. build_env W w es = Some (Some block) \<and> parse_env_block block = wl_environ W w @ own_strings (ntl es)"
proof -
  have "env_strings (wl_environ W w @ own_strings (ntl es))" using assms(3,4) by (auto simp: env_strings_def)
  with build_env_block [OF assms(1-3)] parse_env_block_strings show ?thesis by blast
qed

subsection \<open>What a call leaves alone\<close>

text \<open>
  \<open>quiet\<close>: of the instance only the log changes (and the environment, which is not used here).
  \<open>ran\<close>: commands were run, and the descriptors of the processes are the same.
\<close>

definition quiet :: "('m, 'y, 'g, 'w) win_session \<Rightarrow> ('m, 'y, 'g, 'w) win_session \<Rightarrow> bool" where
  "quiet s t \<longleftrightarrow> process_only (ws_fmu s) (ws_fmu t) []"

definition ran :: "('m, 'y, 'g, 'w) win_session \<Rightarrow> ('m, 'y, 'g, 'w) win_session \<Rightarrow> gw_event list \<Rightarrow> bool" where
  "ran s t tr \<longleftrightarrow> process_only (ws_fmu s) (ws_fmu t) tr \<and> commands tr \<and> ws_proc t = ws_proc s"

lemma ask_simps [simp]: "ws_fmu (snd (ask h s)) = ws_fmu s" "ws_proc (snd (ask h s)) = ws_proc s"
  by (simp_all add: ask_def split: prod.split)

lemma act_simps [simp]: "ws_fmu (act h s) = ws_fmu s" "ws_proc (act h s) = ws_proc s"
  by (simp_all add: act_def)

lemma set_proc_simps [simp]: "ws_fmu (set_proc p x s) = ws_fmu s"
  by (simp add: set_proc_def)

lemma note_log_simps [simp]: "ws_proc (note_log lg st c m s) = ws_proc s"
  by (simp add: note_log_def)

lemma quiet_refl [simp]: "quiet s s"
  by (simp add: quiet_def process_only_refl)

lemma quiet_trans: "quiet s t \<Longrightarrow> quiet t u \<Longrightarrow> quiet s u"
  using process_only_trans [of "ws_fmu s" "ws_fmu t" "[]" "ws_fmu u" "[]"] by (simp add: quiet_def)

lemma quiet_simps [simp]:
  "quiet s (snd (ask h t)) = quiet s t" "quiet s (act h' t) = quiet s t" "quiet s (set_proc p x t) = quiet s t"
  by (simp_all add: quiet_def)

lemma quiet_log [simp]: "quiet s t \<Longrightarrow> quiet s (note_log fmu_log2 st c m t)"
  using process_only_trans [OF _ process_only_log, of "ws_fmu s" "ws_fmu t" "[]"] by (simp add: quiet_def note_log_def)

lemma quiet_foldl: "(\<And>t x. quiet s t \<Longrightarrow> quiet s (h t x)) \<Longrightarrow> quiet s t \<Longrightarrow> quiet s (foldl h t xs)"
  by (induction xs arbitrary: t) simp_all

lemma ran_refl: "ran s s []"
  by (simp add: ran_def process_only_refl)

lemma ran_trans: "ran s t tr \<Longrightarrow> ran t u tr' \<Longrightarrow> ran s u (tr @ tr')"
  using process_only_trans by (auto simp: ran_def)

lemma ran_quiet: "ran s t tr \<Longrightarrow> quiet t u \<Longrightarrow> ws_proc u = ws_proc t \<Longrightarrow> ran s u tr"
  using process_only_trans [of "ws_fmu s" "ws_fmu t" tr "ws_fmu u" "[]"] by (simp add: ran_def quiet_def)

subsection \<open>Processes\<close>

lemma terminate_quiet: "quiet s t \<Longrightarrow> quiet s (gracefully_terminate_process fmu_log2 W m p t)"
  by (simp add: gracefully_terminate_process_def send_break_def attach_parent_def Let_def split_beta split: option.split)

lemma alive_quiet: "quiet s t \<Longrightarrow> quiet s (snd (check_alive fmu_log2 W m p t))"
  by (simp add: check_alive_def split_beta split: option.split)

lemma check_shutdown_quiet: "quiet s t \<Longrightarrow> quiet s (snd (check_shutdown fmu_log2 W m p n t))"
  by (simp add: check_shutdown_def close_process_def Let_def split_beta split: option.split)

lemma create_quiet: "quiet s t \<Longrightarrow> quiet s (snd (create_at W c p x t))"
  by (simp add: create_at_def split_beta split: option.split)

lemma log_to_quiet: "quiet s t \<Longrightarrow> quiet s (snd (snd (log_to W l n x t)))"
  by (simp add: log_to_def split_beta split: option.split)

lemma redis_quiet: "quiet s t \<Longrightarrow> quiet s (start_redis fmu_log2 W m p t)"
  by (simp add: start_redis_def Let_def split_beta create_quiet)

lemma transport_quiet: "quiet s t \<Longrightarrow> quiet s (start_transport fmu_log2 W ss t)"
  by (simp add: start_transport_def redis_quiet starting_def Let_def split: option.split)

definition buildable :: "'w win_lib \<Rightarrow> string \<Rightarrow> windows_model \<Rightarrow> bool" where
  "buildable W loc m \<longleftrightarrow> build_cmd W m loc \<noteq> None \<and> (\<forall>w. build_env W w (wm_envar m) \<noteq> None)"

text \<open>The models of the session can be given a command line and an environment.\<close>

definition startable :: "'w win_lib \<Rightarrow> ('m, 'y, 'g) gateway_fmu \<Rightarrow> bool" where
  "startable W f \<longleftrightarrow> (\<forall>g ss m. get_gw f = Some g \<longrightarrow> gw_session g = Some ss \<longrightarrow>
     gs_simbus ss = Some m \<or> m \<in> fst ` set (session_models ss) \<longrightarrow> buildable W (inst_resource_location f) m)"

lemma quiet_fields:
  assumes "quiet s t"
  shows "get_gw (ws_fmu t) = get_gw (ws_fmu s)" "inst_resource_location (ws_fmu t) = inst_resource_location (ws_fmu s)"
  using assms process_only_fields by (auto simp: quiet_def)

lemma start_one_run:
  assumes "get_gw (ws_fmu s) = Some g" "gw_session g = Some ss" "quiet s t" "buildable W (inst_resource_location (ws_fmu s)) (fst mp)"
  shows "\<exists>u. start_one fmu_log2 W visible t mp = Some u \<and> quiet s u"
proof -
  obtain m p where mp: "mp = (m, p)" by (cases mp)
  let ?x = "configure_process visible (wm_name m)"
  let ?t = "set_proc p (Some ?x) (starting fmu_log2 m t)"
  have q: "quiet s ?t" using assms(3) by (simp add: starting_def)
  note f = quiet_fields [OF q]
  obtain cmd where cmd: "build_cmd W m (inst_resource_location (ws_fmu ?t)) = Some cmd" using assms(4) mp f(2) by (auto simp: buildable_def)
  have x: "ws_proc ?t p = Some ?x" by (simp add: set_proc_def)
  obtain log p1 s1 where l: "log_to W (if session_flag ss 3 then gw_log_location g else None) (show_str (wm_name m)) ?x ?t = (log, p1, s1)"
    by (metis prod_cases3)
  from log_to_quiet [OF q, of W "if session_flag ss 3 then gw_log_location g else None" "show_str (wm_name m)" ?x] l
  have q1: "quiet s s1" by simp
  obtain env where env: "build_env W (ws_world s1) (wm_envar m) = Some env" using assms(4) mp by (auto simp: buildable_def)
  obtain ok s2 where c: "create_at W \<lparr>cr_app = None, cr_cmd = cmd, cr_inherit = (log \<noteq> None), cr_console = True, cr_env = env,
      cr_dir = None, cr_info = wp_s_info p1\<rparr> p p1 s1 = (ok, s2)" by fastforce
  from create_quiet [OF q1] c have "quiet s s2" by (metis snd_conv)
  then have "quiet s (if ok then s2 else note_log fmu_log2 3 ''Error'' (''Could not start '' @ show_str (wm_name m) @ last_error W s2) s2)"
    by simp
  moreover have "start_one fmu_log2 W visible t mp = Some (if ok then s2
      else note_log fmu_log2 3 ''Error'' (''Could not start '' @ show_str (wm_name m) @ last_error W s2) s2)"
    unfolding start_one_def start_model_def mp prod.case f(1) assms(1) x cmd
    by (simp add: assms(2) l env c [simplified])
  ultimately show ?thesis by blast
qed

lemma start_models_run:
  assumes "get_gw (ws_fmu s) = Some g" "startable W (ws_fmu s)"
  shows "\<exists>t. win_start_models fmu_log2 W s = Some t \<and> quiet s t"
proof (cases "gw_session g")
  case None
  with assms(1) show ?thesis by (simp add: win_start_models_def)
next
  case (Some ss)
  have b: "buildable W (inst_resource_location (ws_fmu s)) m" if "gs_simbus ss = Some m \<or> m \<in> fst ` set (session_models ss)" for m
    using assms that Some by (auto simp: startable_def)
  let ?t = "start_transport fmu_log2 W ss s"
  have q: "quiet s ?t" by (simp add: transport_quiet)
  have "\<exists>u. (case gs_simbus ss of None \<Rightarrow> Some ?t | Some m \<Rightarrow> start_one fmu_log2 W (session_flag ss 1) ?t (m, Simbus)) = Some u \<and> quiet s u"
  proof (cases "gs_simbus ss")
    case None
    with q show ?thesis by simp
  next
    case (Some m)
    with start_one_run [OF assms(1) \<open>gw_session g = Some ss\<close> q, of W "(m, Simbus)"] b show ?thesis by simp
  qed
  then obtain u where u: "(case gs_simbus ss of None \<Rightarrow> Some ?t | Some m \<Rightarrow> start_one fmu_log2 W (session_flag ss 1) ?t (m, Simbus)) = Some u"
    "quiet s u" by blast
  have "\<exists>v. foldM (start_one fmu_log2 W (session_flag ss 0)) u (session_models ss) = Some v \<and> quiet s v"
  proof (rule foldM_total)
    show "quiet s u" by (rule u(2))
    fix t mp assume "quiet s t" "mp \<in> set (session_models ss)"
    with start_one_run [OF assms(1) Some] b [of "fst mp"]
    show "\<exists>v. start_one fmu_log2 W (session_flag ss 0) t mp = Some v \<and> quiet s v" by blast
  qed
  with u(1) assms(1) Some show ?thesis by (simp add: win_start_models_def)
qed

subsection \<open>Commands\<close>

definition waits_end :: "'w win_lib \<Rightarrow> bool" where
  "waits_end W \<longleftrightarrow> (\<forall>h w. wl_wait_end W h w \<noteq> None)"

lemma ran_log: "ran s t tr \<Longrightarrow> ran s (note_log fmu_log2 st c m t) tr"
  by (rule ran_quiet) simp_all

lemma ran_ask: "ran s (snd (ask h t)) tr = ran s t tr" "ran s (act h' t) tr = ran s t tr"
  by (simp_all add: ran_def)

lemma ran_event: "ran s t tr \<Longrightarrow> ran s (t\<lparr>ws_world := w, ws_fmu := add_event (ws_fmu t) (RanCommand c)\<rparr>) (tr @ [RanCommand c])"
  using process_only_trans [OF _ process_only_event] by (auto simp: ran_def)

lemma win_cmd_run:
  assumes "waits_end W"
  shows "\<exists>rc t tr. win_fmigateway_run_cmd fmu_log2 W s c = Some (rc, t) \<and> ran s t tr"
proof (cases "MAX_CMD_LENGTH + 8 \<le> length (''cmd /C '' @ c)")
  case True
  with ran_log [OF ran_refl] show ?thesis by (fastforce simp: win_fmigateway_run_cmd_def Let_def)
next
  case False
  let ?a = "\<lparr>cr_app = None, cr_cmd = ''cmd /C '' @ c, cr_inherit = False, cr_console = False, cr_env = None,
    cr_dir = Some (inst_resource_location (ws_fmu s)), cr_info = hidden_info\<rparr>"
  let ?s1 = "note_log fmu_log2 0 ''Debug'' (''Run cmd: '' @ c @ '' (cwd: '' @ inst_resource_location (ws_fmu s) @ '')'') s"
  obtain r s2 where a: "ask (wl_create W ?a) ?s1 = (r, s2)" by fastforce
  have "ran s (snd (ask (wl_create W ?a) ?s1)) []" using ran_log [OF ran_refl] by (simp only: ran_ask)
  then have s2: "ran s s2 []" by (simp only: a snd_conv)
  show ?thesis
  proof (cases r)
    case None
    with False a ran_log [OF s2] show ?thesis by (fastforce simp: win_fmigateway_run_cmd_def Let_def)
  next
    case (Some i)
    obtain w where w: "wl_wait_end W (pi_handle i) (ws_world s2) = Some w" using assms by (auto simp: waits_end_def)
    let ?s3 = "s2\<lparr>ws_world := w, ws_fmu := add_event (ws_fmu s2) (RanCommand c)\<rparr>"
    obtain code s4 where e: "ask (wl_exit_code W (pi_handle i)) ?s3 = (code, s4)" by fastforce
    let ?s5 = "act (wl_close W (pi_thread i)) (act (wl_close W (pi_handle i)) s4)"
    let ?x = "case code of None \<Rightarrow> 0 | Some c \<Rightarrow> c"
    have "ran s (snd (ask (wl_exit_code W (pi_handle i)) ?s3)) [RanCommand c]" using ran_event [OF s2] by (simp only: ran_ask) simp
    then have s5: "ran s ?s5 [RanCommand c]" by (simp only: e snd_conv ran_ask)
    have "win_fmigateway_run_cmd fmu_log2 W s c = Some (if ?x \<noteq> 0 then (WIN_ECANCELED, note_log fmu_log2 3 ''Error''
        (''Cmd '' @ quoted c @ '' exited with code '' @ show_int (sint ?x) @ ''.'') ?s5) else (0, ?s5))"
      using False a Some w e by (simp add: win_fmigateway_run_cmd_def Let_def)
    with s5 ran_log [OF s5] show ?thesis by (cases "?x = 0") auto
  qed
qed

lemma win_set_envar_run:
  fixes s :: "('m, 'y, 'g, 'w) win_session"
  assumes "gateway_inv L G (ws_fmu s)"
  shows "\<exists>t. win_set_envar L G W s = Some t \<and> ran s t []"
proof -
  from assms obtain g where g: "fmu_wf L (ws_fmu s)" "get_gw (ws_fmu s) = Some g" "params_ok (gw_envar g)" by (auto simp: gateway_inv_def)
  have "\<exists>t. foldM (win_set_one_envar L G W) s (ntl (gw_envar g)) = Some t \<and> (ws_fmu t = ws_fmu s \<and> ws_proc t = ws_proc s)"
  proof (rule foldM_total)
    show "ws_fmu s = ws_fmu s \<and> ws_proc s = ws_proc s" by simp
    fix t :: "('m, 'y, 'g, 'w) win_session" and e assume t: "ws_fmu t = ws_fmu s \<and> ws_proc t = ws_proc s" and e: "e \<in> set (ntl (gw_envar g))"
    with g(3) have "gp_vref e \<noteq> None" by (simp add: params_ok_def)
    from env_value_run [OF g(1) this, of G] t
    show "\<exists>u. win_set_one_envar L G W t e = Some u \<and> (ws_fmu u = ws_fmu s \<and> ws_proc u = ws_proc s)"
      by (auto simp: win_set_one_envar_def split: option.splits)
  qed
  then obtain t where "foldM (win_set_one_envar L G W) s (ntl (gw_envar g)) = Some t" "ws_fmu t = ws_fmu s" "ws_proc t = ws_proc s" by blast
  with g(2) show ?thesis by (intro exI [of _ t]) (simp add: win_set_envar_def ran_def process_only_refl)
qed

lemma win_run_cmd_run:
  assumes "waits_end W" "gateway_inv L G (ws_fmu s)"
  shows "\<exists>rc t tr. win_run_cmd fmu_log2 L G W s cmd = Some (rc, t) \<and> ran s t tr"
proof (cases cmd)
  case None
  with ran_refl show ?thesis by (fastforce simp: win_run_cmd_def)
next
  case (Some c)
  from win_set_envar_run [OF assms(2), of W] obtain t where t: "win_set_envar L G W s = Some t" "ran s t []" by blast
  from win_cmd_run [OF assms(1), of t c] obtain rc u tr where u: "win_fmigateway_run_cmd fmu_log2 W t c = Some (rc, u)" "ran t u tr" by blast
  from ran_trans [OF t(2) u(2)] t(1) u(1) Some show ?thesis by (fastforce simp: win_run_cmd_def)
qed

lemma teardown_run:
  assumes "waits_end W"
  shows "\<exists>t tr. win_teardown fmu_log2 W s = Some t \<and> ran s t tr"
proof -
  let ?p = "wl_path_cat W (inst_resource_location (ws_fmu s)) (Some ''teardown.bat'')"
  show ?thesis
  proof (cases "wl_access W ?p (ws_world s)")
    case False
    with ran_refl show ?thesis by (fastforce simp: win_teardown_def Let_def)
  next
    case True
    from win_cmd_run [OF assms, of s ?p] obtain rc t tr where t: "win_fmigateway_run_cmd fmu_log2 W s ?p = Some (rc, t)" "ran s t tr" by blast
    with True ran_log [OF t(2)] show ?thesis by (cases "rc = 0") (auto simp: win_teardown_def Let_def)
  qed
qed

subsection \<open>SIMER\<close>

lemma simer_cmd_run:
  assumes "fmu_wf L f"
  shows "\<exists>c. simer_cmd L W f g = Some c"
proof -
  have "\<exists>x. load f p = Some x" if "hm_get L (scalar_input f) ''1'' = Some (PDouble p)" for p
  proof -
    from assms that have "dloc_ok (mem_sv f) (mem_dbl f) p" by (force simp: fmu_wf_def scalar_map_ok_def)
    with load_ok [of f p] show ?thesis by auto
  qed
  then show ?thesis by (auto simp: simer_cmd_def Let_def split: option.split vptr.split)
qed

lemma simer_log_quiet: "quiet s t \<Longrightarrow> quiet s (snd (snd (simer_log fmu_log2 W l t)))"
  using log_to_quiet [of s t W l "''SIMER''"] by (simp add: simer_log_def split_beta)

lemma note_simer_quiet: "quiet s t \<Longrightarrow> quiet s (note_simer fmu_log2 log e c d t)"
  by (simp add: note_simer_def Let_def split: option.split)

lemma launch_quiet: "quiet s (launch_simer fmu_log2 W l args s)"
  using simer_log_quiet [OF quiet_refl, of s W l] by (simp add: launch_simer_def Let_def split_beta note_simer_quiet split: option.split)

lemma simer_run:
  assumes "gateway_inv L G (ws_fmu s)"
  shows "\<exists>t. win_run_simer fmu_log2 L W s = Some t \<and> quiet s t"
proof -
  from assms obtain g where g: "get_gw (ws_fmu s) = Some g" "fmu_wf L (ws_fmu s)" by (auto simp: gateway_inv_def)
  from simer_cmd_run [OF g(2)] obtain args where "simer_cmd L W (ws_fmu s) g = Some args" by blast
  with g(1) launch_quiet show ?thesis by (fastforce simp: win_run_simer_def)
qed

lemma stop_simer_quiet: "quiet s t \<Longrightarrow> quiet s (win_stop_simer fmu_log2 W t)"
  by (simp add: win_stop_simer_def break_simer_def close_process_def Let_def split_beta split: option.split)


subsection \<open>Shutting down\<close>

definition same_settings :: "('m, 'y, 'g, 'w) win_session \<Rightarrow> ('m, 'y, 'g, 'w) win_session \<Rightarrow> bool" where
  "same_settings s t \<longleftrightarrow> (\<exists>g m. get_gw (ws_fmu s) = Some g \<and> get_gw (ws_fmu t) = Some (g\<lparr>gw_model := m\<rparr>))"

definition synced :: "'m clib \<Rightarrow> ('y, 'g) gw_lib \<Rightarrow> ('m, 'y, 'g, 'w) win_session \<Rightarrow> ('m, 'y, 'g, 'w) win_session \<Rightarrow> gw_event list \<Rightarrow> bool" where
  "synced L G s t tr \<longleftrightarrow> gateway_inv L G (ws_fmu t) \<and> same_settings s t \<and>
     gd_trace (fmu_data (ws_fmu t)) = gd_trace (fmu_data (ws_fmu s)) @ tr"

lemma synced_refl: "gateway_inv L G (ws_fmu s) \<Longrightarrow> synced L G s s []"
  unfolding synced_def same_settings_def gateway_inv_def by (metis append_Nil2 gateway.unfold_congs(1) gateway.surjective gateway.update_convs(1))

lemma synced_quiet:
  assumes "synced L G s t tr" "quiet t u"
  shows "synced L G s u tr"
  using assms gateway_inv_process [of L G "ws_fmu t" "ws_fmu u" "[]"] process_only_fields [of "ws_fmu t" "ws_fmu u" "[]"]
  by (auto simp: synced_def same_settings_def quiet_def)

lemma synced_trans: "synced L G s t tr \<Longrightarrow> synced L G t u tr' \<Longrightarrow> synced L G s u (tr @ tr')"
  by (auto simp: synced_def same_settings_def)

lemma win_sync_run:
  assumes "gateway_inv L G (ws_fmu s)"
  shows "\<exists>t. win_sync G x s = Some t \<and> synced L G s t [GwSync x]"
proof -
  from assms obtain g where g: "get_gw (ws_fmu s) = Some g" by (auto simp: gateway_inv_def)
  from gw_synced [OF assms g, of x] obtain rc m ms where
    y: "gl_sync G (gw_model g) x (mem_sv (ws_fmu s)) = Some (rc, m, ms)"
    "\<And>h. gw_model h = m \<Longrightarrow> gw_envar h = gw_envar g \<Longrightarrow> gateway_inv L G (add_event (set_gw ((ws_fmu s)\<lparr>mem_sv := ms\<rparr>) h) (GwSync x))" by blast
  let ?f = "add_event (set_gw ((ws_fmu s)\<lparr>mem_sv := ms\<rparr>) (g\<lparr>gw_model := m\<rparr>)) (GwSync x)"
  have "gateway_inv L G ?f" by (rule y(2)) simp_all
  moreover have "get_gw ?f = Some (g\<lparr>gw_model := m\<rparr>)" by (simp add: process_only_fields [OF process_only_event])
  moreover have "gd_trace (fmu_data ?f) = gd_trace (fmu_data (ws_fmu s)) @ [GwSync x]" by (simp add: add_event_def)
  ultimately show ?thesis using g y(1) by (fastforce simp: win_sync_def synced_def same_settings_def)
qed

lemma win_exit_run:
  assumes "gateway_inv L G (ws_fmu s)"
  shows "\<exists>t. win_gw_exit G s = Some t \<and> synced L G s t [GwExit]"
proof -
  from gw_exit_run [OF assms] obtain h g m where "gw_exit G (ws_fmu s) = Some h" "gateway_inv L G h"
    "gd_trace (fmu_data h) = gd_trace (fmu_data (ws_fmu s)) @ [GwExit]" "get_gw (ws_fmu s) = Some g" "get_gw h = Some (g\<lparr>gw_model := m\<rparr>)" by blast
  then show ?thesis by (fastforce simp: win_gw_exit_def synced_def same_settings_def)
qed

lemma check_quiet: "quiet s t \<Longrightarrow> quiet s (snd (foldl (check_one fmu_log2 W) (b, t) mps))"
proof (induction mps arbitrary: b t)
  case (Cons mp mps)
  obtain m p where mp: "mp = (m, p)" by (cases mp)
  obtain a u where a: "check_alive fmu_log2 W m p t = (a, u)" by fastforce
  from alive_quiet [OF Cons.prems, of W m p] a have u: "quiet s u" by simp
  let ?v = "note_log fmu_log2 0 ''Debug'' (''Model '' @ show_str (wm_name m) @ '' shut down without extra step.'') u"
  have "check_one fmu_log2 W (b, t) mp = (if a then (b, u) else (False, ?v))" by (simp add: check_one_def mp a)
  with Cons.IH [OF u] Cons.IH [OF quiet_log [OF u]] show ?case by (cases a) simp_all
qed simp

lemma terminate_models_quiet: "quiet s t \<Longrightarrow> quiet s (terminate_models fmu_log2 W ss t)"
  unfolding terminate_models_def by (rule quiet_foldl) (auto intro: terminate_quiet)

lemma confirm_quiet: "quiet s t \<Longrightarrow> quiet s (confirm_closed fmu_log2 W ss t)"
proof -
  assume "quiet s t"
  then have 1: "quiet s (foldl (\<lambda>s (m, place). snd (check_shutdown fmu_log2 W m place 10 s)) t (session_models ss))" (is "quiet s ?t")
    by (rule quiet_foldl [rotated]) (auto intro: check_shutdown_quiet)
  have "quiet s (case gs_simbus ss of None \<Rightarrow> ?t | Some m \<Rightarrow> (case check_shutdown fmu_log2 W m Simbus 10 ?t of (rc, u) \<Rightarrow>
      if rc < 0 then gracefully_terminate_process fmu_log2 W m Simbus u else u))"
    using 1 by (auto simp: split_beta terminate_quiet check_shutdown_quiet split: option.split)
  then show ?thesis by (simp add: confirm_closed_def Let_def terminate_quiet split: option.split)
qed

text \<open>The synchronisations of a shutdown: one when no step was taken, one when every model is still alive.\<close>

definition closing_syncs :: "'w win_lib \<Rightarrow> ('y, 'g) gateway \<Rightarrow> gw_event list \<Rightarrow> bool" where
  "closing_syncs W g ex \<longleftrightarrow> (case gw_session g of None \<Rightarrow> ex = []
     | Some ss \<Rightarrow> if gw_runtime_type g \<noteq> FMIGATEWAY_RUNTIME_SIMER \<and> gs_model_stack ss \<noteq> None
         then (let first = (if before_first_step (gw_state g) then [GwSync (gs_last_step ss)] else [])
               in ex = first \<or> ex = first @ [GwSync (extra_time W ss)])
         else ex = [])"

lemma extra_step_run:
  assumes "gateway_inv L G (ws_fmu s)" "get_gw (ws_fmu s) = Some g" "gw_session g = Some ss"
  shows "\<exists>t ex. sync_extra_step fmu_log2 W G s = Some t \<and> synced L G s t ex \<and> (ex = [] \<or> ex = [GwSync (extra_time W ss)])"
proof (cases "initialized (gw_state g)")
  case False
  with assms synced_refl [OF assms(1)] show ?thesis by (auto simp: sync_extra_step_def)
next
  case True
  let ?s = "note_log fmu_log2 0 ''Debug'' (''Performing extra step to shutdown models ('' @ wl_fmt_lf W (extra_time W ss) @ '')...'') s"
  have q: "synced L G s ?s []" by (rule synced_quiet [OF synced_refl [OF assms(1)]]) simp
  then have "gateway_inv L G (ws_fmu ?s)" by (simp add: synced_def)
  from win_sync_run [OF this, of "extra_time W ss"] obtain t where t: "win_sync G (extra_time W ss) ?s = Some t"
    "synced L G ?s t [GwSync (extra_time W ss)]" by blast
  from synced_quiet [OF synced_trans [OF q t(2)] quiet_log [OF quiet_refl]]
  have "synced L G s (note_log fmu_log2 0 ''Debug'' ''Extra step for shutting down models finished...'' t) [GwSync (extra_time W ss)]"
    by simp
  with assms(2,3) True t(1) show ?thesis by (fastforce simp: sync_extra_step_def)
qed

lemma shutdown_models_run:
  assumes "gateway_inv L G (ws_fmu s)" "get_gw (ws_fmu s) = Some g" "gw_session g = Some ss" "gw_runtime_type g \<noteq> FMIGATEWAY_RUNTIME_SIMER"
  shows "\<exists>t ex. shutdown_models fmu_log2 W G s = Some t \<and> synced L G s t ex \<and> closing_syncs W g ex"
proof (cases "gs_model_stack ss")
  case None
  with assms(2-4) synced_refl [OF assms(1)] show ?thesis
    by (intro exI [of _ s] exI [of _ "[]"]) (simp add: shutdown_models_def closing_syncs_def)
next
  case (Some stack)
  let ?first = "if before_first_step (gw_state g) then [GwSync (gs_last_step ss)] else []"
  have "\<exists>s1. (if before_first_step (gw_state g) then win_sync G (gs_last_step ss) s else Some s) = Some s1 \<and> synced L G s s1 ?first"
    using win_sync_run [OF assms(1)] synced_refl [OF assms(1)] by simp
  then obtain s1 where s1: "(if before_first_step (gw_state g) then win_sync G (gs_last_step ss) s else Some s) = Some s1"
    "synced L G s s1 ?first" by blast
  obtain b s2 where b: "foldl (check_one fmu_log2 W) (True, terminate_models fmu_log2 W ss s1) (session_models ss) = (b, s2)" by fastforce
  from check_quiet [OF terminate_models_quiet [OF quiet_refl [of s1], of W ss], of W True "session_models ss"] b have "quiet s1 s2" by simp
  from synced_quiet [OF s1(2) this] have s2: "synced L G s s2 ?first" .
  then obtain m where g2: "gateway_inv L G (ws_fmu s2)" "get_gw (ws_fmu s2) = Some (g\<lparr>gw_model := m\<rparr>)"
    using assms(2) by (auto simp: synced_def same_settings_def)
  from extra_step_run [OF g2, of ss W] assms(3) obtain t ex where t: "sync_extra_step fmu_log2 W G s2 = Some t" "synced L G s2 t ex"
    "ex = [] \<or> ex = [GwSync (extra_time W ss)]" by auto
  have e: "shutdown_models fmu_log2 W G s = (if b then sync_extra_step fmu_log2 W G s2 else Some s2)"
    unfolding shutdown_models_def assms(2,3) using Some s1(1) b by (simp add: assms(3))
  show ?thesis
  proof (cases b)
    case True
    with e t(1) synced_trans [OF s2 t(2)] t(3) Some assms(3,4) show ?thesis
      by (intro exI [of _ t] exI [of _ "?first @ ex"]) (auto simp: closing_syncs_def Let_def)
  next
    case False
    with e s2 Some assms(3,4) show ?thesis
      by (intro exI [of _ s2] exI [of _ ?first]) (auto simp: closing_syncs_def Let_def)
  qed
qed

lemma win_shutdown_run:
  assumes "gateway_inv L G (ws_fmu s)" "get_gw (ws_fmu s) = Some g" "gw_session g = Some ss" "gw_runtime_type g \<noteq> FMIGATEWAY_RUNTIME_SIMER"
    "initialized (gw_state g)"
  shows "\<exists>t ex. win_shutdown_models fmu_log2 W G s = Some t \<and> synced L G s t (ex @ [GwExit]) \<and> closing_syncs W g ex"
proof -
  from shutdown_models_run [OF assms(1-4), of W] obtain s1 ex where s1: "shutdown_models fmu_log2 W G s = Some s1" "synced L G s s1 ex"
    "closing_syncs W g ex" by blast
  then obtain m where g1: "gateway_inv L G (ws_fmu s1)" "get_gw (ws_fmu s1) = Some (g\<lparr>gw_model := m\<rparr>)"
    using assms(2) by (auto simp: synced_def same_settings_def)
  from win_exit_run [OF g1(1)] obtain s2 where s2: "win_gw_exit G s1 = Some s2" "synced L G s1 s2 [GwExit]" by blast
  let ?t = "confirm_closed fmu_log2 W ss (note_log fmu_log2 0 ''Debug'' ''Gateway exited...'' s2)"
  have "quiet s2 ?t" by (rule confirm_quiet) simp
  from synced_quiet [OF synced_trans [OF s1(2) s2(2)] this] have "synced L G s ?t (ex @ [GwExit])" .
  moreover have "win_shutdown_models fmu_log2 W G s = Some ?t"
    using s1(1) g1(2) s2(1) assms(3,5) by (simp add: win_shutdown_models_def)
  ultimately show ?thesis using s1(3) by blast
qed

lemma synced_ran: "synced L G s t tr \<Longrightarrow> ran t u ds \<Longrightarrow> gd_trace (fmu_data (ws_fmu u)) = gd_trace (fmu_data (ws_fmu s)) @ tr @ ds"
  using process_only_fields(3) by (fastforce simp: synced_def ran_def)

subsection \<open>The session\<close>

lemma win_session_start_run:
  assumes "waits_end W" "gateway_inv L G (ws_fmu s)" "startable W (ws_fmu s)"
  shows "\<exists>rc t cs. win_session_start fmu_log2 L G W s = Some (rc, t) \<and> process_only (ws_fmu s) (ws_fmu t) cs \<and> commands cs"
proof -
  from assms(2) obtain g where g: "get_gw (ws_fmu s) = Some g" by (auto simp: gateway_inv_def)
  let ?c = "win_session_cmd W s ''startup'' (gw_startup_cmd g)"
  from win_run_cmd_run [OF assms(1,2), of ?c] obtain rc t cs where t: "win_run_cmd fmu_log2 L G W s ?c = Some (rc, t)" "ran s t cs" by blast
  show ?thesis
  proof (cases "rc = 0")
    case False
    with g t ran_log [OF t(2)] show ?thesis by (fastforce simp: win_session_start_def ran_def)
  next
    case True
    have p: "process_only (ws_fmu s) (ws_fmu t) cs" "commands cs" using t(2) by (simp_all add: ran_def)
    have i: "gateway_inv L G (ws_fmu t)" by (rule gateway_inv_process [OF assms(2) p(1)])
    have gt: "get_gw (ws_fmu t) = Some g" "startable W (ws_fmu t)"
      using process_only_fields(1,4) [OF p(1)] g assms(3) by (simp_all add: startable_def)
    have "\<exists>u. (if gw_runtime_type g = FMIGATEWAY_RUNTIME_SIMER then win_run_simer fmu_log2 L W t else win_start_models fmu_log2 W t) = Some u \<and>
        quiet t u"
      using simer_run [OF i, of W] start_models_run [OF gt] by simp
    then obtain u where u: "(if gw_runtime_type g = FMIGATEWAY_RUNTIME_SIMER then win_run_simer fmu_log2 L W t
        else win_start_models fmu_log2 W t) = Some u" "quiet t u" by blast
    have "process_only (ws_fmu s) (ws_fmu u) cs" using process_only_trans [OF p(1)] u(2) by (fastforce simp: quiet_def)
    moreover have "win_session_start fmu_log2 L G W s = Some (0, u)" using g t(1) True u(1) by (simp add: win_session_start_def)
    ultimately show ?thesis using p(2) by blast
  qed
qed

text \<open>The shutdown command and the teardown.\<close>

lemma session_cleanup_run:
  assumes "waits_end W" "gateway_inv L G (ws_fmu s)"
  shows "\<exists>rc t ds. (do { (rc, s2) \<leftarrow> win_run_cmd fmu_log2 L G W s c;
       if rc \<noteq> 0 then Some (rc, note_log fmu_log2 0 ''Debug'' (''Shutdown command failed: '' @ show_int rc) s2)
       else do { s3 \<leftarrow> win_teardown fmu_log2 W s2; Some (0, s3) } }) = Some (rc, t) \<and> ran s t ds"
proof -
  from win_run_cmd_run [OF assms, of c] obtain rc t ds where t: "win_run_cmd fmu_log2 L G W s c = Some (rc, t)" "ran s t ds" by blast
  from teardown_run [OF assms(1), of t] obtain u es where u: "win_teardown fmu_log2 W t = Some u" "ran t u es" by blast
  from t u ran_log [OF t(2)] ran_trans [OF t(2) u(2)] show ?thesis by (cases "rc = 0") fastforce+
qed

lemma win_session_end_run:
  assumes "waits_end W" "gateway_inv L G (ws_fmu s)" "get_gw (ws_fmu s) = Some g"
  shows "\<exists>rc t ex ds. win_session_end fmu_log2 L G W s = Some (rc, t) \<and> commands ds \<and>
    (if gw_state g = GwCreated then ws_proc t = ws_proc s \<and> gd_trace (fmu_data (ws_fmu t)) = gd_trace (fmu_data (ws_fmu s)) @ ds
     else closing_syncs W g ex \<and> gd_trace (fmu_data (ws_fmu t)) = gd_trace (fmu_data (ws_fmu s)) @ ex @ [GwExit] @ ds)"
proof -
  let ?simer = "gw_runtime_type g = FMIGATEWAY_RUNTIME_SIMER"
  from win_exit_run [OF assms(2)] obtain x where x: "win_gw_exit G s = Some x" "synced L G s x [GwExit]" by blast
  consider "gw_state g = GwCreated" | "gw_state g \<noteq> GwCreated" "\<not> ?simer" "gw_session g = None" | "gw_state g \<noteq> GwCreated" "?simer"
    | ss where "gw_state g \<noteq> GwCreated" "\<not> ?simer" "gw_session g = Some ss" by fastforce
  then show ?thesis
  proof cases
    case 1
    from teardown_run [OF assms(1), of s] obtain t ds where t: "win_teardown fmu_log2 W s = Some t" "ran s t ds" by blast
    with synced_ran [OF synced_refl [OF assms(2)]] have "gd_trace (fmu_data (ws_fmu t)) = gd_trace (fmu_data (ws_fmu s)) @ ds" by fastforce
    with 1 assms(3) t show ?thesis
      by (intro exI [of _ 0] exI [of _ t] exI [of _ "[]"] exI [of _ ds]) (simp add: win_session_end_def initialized_def ran_def)
  next
    case 2
    with x assms(3) show ?thesis
      by (intro exI [of _ 0] exI [of _ x] exI [of _ "[]"]) (simp add: win_session_end_def initialized_def closing_syncs_def synced_def)
  next
    case 3
    let ?y = "win_stop_simer fmu_log2 W x"
    from synced_quiet [OF x(2) stop_simer_quiet [OF quiet_refl]] have y: "synced L G s ?y [GwExit]" .
    then have "gateway_inv L G (ws_fmu ?y)" by (simp add: synced_def)
    from session_cleanup_run [OF assms(1) this, of "win_session_cmd W ?y ''shutdown'' (gw_shutdown_cmd g)"] obtain rc t ds where
      t: "(do { (rc, s2) \<leftarrow> win_run_cmd fmu_log2 L G W ?y (win_session_cmd W ?y ''shutdown'' (gw_shutdown_cmd g));
         if rc \<noteq> 0 then Some (rc, note_log fmu_log2 0 ''Debug'' (''Shutdown command failed: '' @ show_int rc) s2)
         else do { s3 \<leftarrow> win_teardown fmu_log2 W s2; Some (0, s3) } }) = Some (rc, t)" "ran ?y t ds" by blast
    from 3 assms(3) x(1) t(1) have "win_session_end fmu_log2 L G W s = Some (rc, t)"
      by (simp add: win_session_end_def initialized_def)
    with synced_ran [OF y t(2)] t(2) 3 show ?thesis
      by (intro exI [of _ rc] exI [of _ t] exI [of _ "[]"] exI [of _ ds]) (auto simp: ran_def closing_syncs_def split: option.split)
  next
    case 4
    then have "initialized (gw_state g)" by (simp add: initialized_def)
    from win_shutdown_run [OF assms(2,3) 4(3,2) this, of W] obtain y ex where
      y: "win_shutdown_models fmu_log2 W G s = Some y" "synced L G s y (ex @ [GwExit])" "closing_syncs W g ex" by blast
    then have "gateway_inv L G (ws_fmu y)" by (simp add: synced_def)
    from session_cleanup_run [OF assms(1) this, of "win_session_cmd W y ''shutdown'' (gw_shutdown_cmd g)"] obtain rc t ds where
      t: "(do { (rc, s2) \<leftarrow> win_run_cmd fmu_log2 L G W y (win_session_cmd W y ''shutdown'' (gw_shutdown_cmd g));
         if rc \<noteq> 0 then Some (rc, note_log fmu_log2 0 ''Debug'' (''Shutdown command failed: '' @ show_int rc) s2)
         else do { s3 \<leftarrow> win_teardown fmu_log2 W s2; Some (0, s3) } }) = Some (rc, t)" "ran y t ds" by blast
    from 4 assms(3) y(1) t(1) have "win_session_end fmu_log2 L G W s = Some (rc, t)"
      by (simp add: win_session_end_def initialized_def)
    with synced_ran [OF y(2) t(2)] t(2) 4 y(3) show ?thesis
      by (intro exI [of _ rc] exI [of _ t] exI [of _ ex] exI [of _ ds]) (auto simp: ran_def)
  qed
qed

subsection \<open>The life of an instance on Windows\<close>

lemma win_init_run:
  assumes "waits_end W" "gateway_inv L G (ws_fmu s)" "startable W (ws_fmu s)"
  shows "\<exists>rc t cs. win_gateway_init fmu_log2 L G W Y s = Some (rc, t) \<and> gateway_inv L G (ws_fmu t) \<and> commands cs \<and>
    (if rc = 0 then gd_trace (fmu_data (ws_fmu t)) = gd_trace (fmu_data (ws_fmu s)) @ cs @ [GwSetup] \<and> state_of (ws_fmu t) = Some GwInitialized
     else gd_trace (fmu_data (ws_fmu t)) \<in> {gd_trace (fmu_data (ws_fmu s)) @ cs, gd_trace (fmu_data (ws_fmu s)) @ cs @ [GwSetup]} \<and>
       state_of (ws_fmu t) = state_of (ws_fmu s))"
proof -
  from win_session_start_run [OF assms] obtain rc t cs where t: "win_session_start fmu_log2 L G W s = Some (rc, t)"
    "process_only (ws_fmu s) (ws_fmu t) cs" "commands cs" by blast
  note p = process_only_fields [OF t(2)]
  have i: "gateway_inv L G (ws_fmu t)" by (rule gateway_inv_process [OF assms(2) t(2)])
  show ?thesis
  proof (cases "rc = 0")
    case False
    with t i p(1,3) show ?thesis by (intro exI [of _ rc] exI [of _ t] exI [of _ cs]) (simp add: win_gateway_init_def state_of_def)
  next
    case True
    from gateway_connect_run [OF i, of Y] obtain rc2 h where h: "gateway_connect fmu_log2 L G Y (ws_fmu t) = Some (rc2, h)" "gateway_inv L G h"
      "gd_trace (fmu_data h) = gd_trace (fmu_data (ws_fmu t)) @ [GwSetup]" "state_of h = (if rc2 = 0 then Some GwInitialized else state_of (ws_fmu t))" by blast
    with t True p(1,3) show ?thesis
      by (intro exI [of _ rc2] exI [of _ "t\<lparr>ws_fmu := h\<rparr>"] exI [of _ cs]) (simp add: win_gateway_init_def state_of_def)
  qed
qed

lemma win_destroy_run:
  assumes "waits_end W" "gateway_inv L G (ws_fmu s)" "get_gw (ws_fmu s) = Some g"
  shows "\<exists>t ex ds. win_gateway_destroy fmu_log2 L G W s = Some t \<and> commands ds \<and>
    (if gw_state g = GwCreated then ws_proc t = ws_proc s \<and> gd_trace (fmu_data (ws_fmu t)) = gd_trace (fmu_data (ws_fmu s)) @ ds
     else closing_syncs W g ex \<and> gd_trace (fmu_data (ws_fmu t)) = gd_trace (fmu_data (ws_fmu s)) @ ex @ [GwExit] @ ds)"
proof -
  from win_session_end_run [OF assms] obtain rc t ex ds where t: "win_session_end fmu_log2 L G W s = Some (rc, t)" "commands ds"
    "if gw_state g = GwCreated then ws_proc t = ws_proc s \<and> gd_trace (fmu_data (ws_fmu t)) = gd_trace (fmu_data (ws_fmu s)) @ ds
     else closing_syncs W g ex \<and> gd_trace (fmu_data (ws_fmu t)) = gd_trace (fmu_data (ws_fmu s)) @ ex @ [GwExit] @ ds" by blast
  let ?t = "t\<lparr>ws_fmu := (ws_fmu t)\<lparr>fmu_data := (fmu_data (ws_fmu t))\<lparr>gd_gateway := None\<rparr>\<rparr>\<rparr>"
  have "win_gateway_destroy fmu_log2 L G W s = Some ?t" using t(1) by (simp add: win_gateway_destroy_def)
  with t(2,3) show ?thesis by (intro exI [of _ ?t] exI [of _ ex] exI [of _ ds]) simp
qed


subsection \<open>A concrete system\<close>

text \<open>Every process starts, runs until it is waited for and then ends with the code 0.\<close>

definition demo_win :: "unit win_lib" where
  "demo_win = \<lparr>wl_create = (\<lambda>_ w. (Some \<lparr>pi_handle = 1, pi_thread = 2, pi_id = 3\<rparr>, w)), wl_exit_code = (\<lambda>_ w. (Some 0, w)),
     wl_wait = (\<lambda>_ _ w. (True, w)), wl_wait_end = (\<lambda>_ w. Some w), wl_close = (\<lambda>_ w. w), wl_terminate = (\<lambda>_ w. w),
     wl_free_console = id, wl_alloc_console = id, wl_attach = (\<lambda>_ w. (True, w)), wl_ctrl_handler = (\<lambda>_ w. w),
     wl_ctrl_break = (\<lambda>_ w. (True, w)), wl_sleep = (\<lambda>_ w. w), wl_create_file = (\<lambda>_ w. (Some 4, w)), wl_is_file = (\<lambda>_ _. False),
     wl_access = (\<lambda>_ _. False), wl_temp_file = (\<lambda>w. (None, w)), wl_delete_file = (\<lambda>_ w. w), wl_read_file = (\<lambda>_ _. None),
     wl_environ = (\<lambda>_. [''PATH=bin'']), wl_setenv = (\<lambda>_ _ w. (1, w)), wl_getenv = (\<lambda>_ _. None), wl_last_error = (\<lambda>_. 0),
     wl_path_cat = (\<lambda>a b. a @ ''/'' @ show_str b), wl_fmt_lf = (\<lambda>_. ''0''), wl_to_size = unat, wl_extra = (+), wl_step_size = 5\<rparr>"

definition demo_win_model :: windows_model where
  "demo_win_model = \<lparr>wm_exe = Some ''modelc.exe'', wm_args = None, wm_name = Some ''ecu'', wm_step_size = 5, wm_end_time = 9,
     wm_log_level = 6, wm_yaml = Some ''stack.yaml'', wm_timeout = 60, wm_stacked = False,
     wm_envar = [no_param\<lparr>gp_name := Some ''LEVEL'', gp_default := Some ''3''\<rparr>]\<rparr>"

definition demo_win_session :: "((string \<times> vptr) list, nat, (sim_vector \<times> nat) list, unit) win_session" where
  "demo_win_session = \<lparr>ws_fmu = set_gw demo_gw_fmu ((zero_gateway [])\<lparr>gw_startup_cmd := Some ''start'', gw_envar := demo_gw_params,
      gw_session := Some (zero_session\<lparr>gs_model_stack := Some ''stack.yaml'', gs_w_models := [demo_win_model]\<rparr>)\<rparr>),
     ws_world = (), ws_proc = (\<lambda>_. None)\<rparr>"

theorem win_env_block_roundtrip_witness:
  "\<exists>block. build_env demo_win () (wm_envar demo_win_model) = Some (Some block) \<and> parse_env_block block = [''PATH=bin'', ''LEVEL=3'']"
proof -
  have e: "wm_envar demo_win_model = [no_param\<lparr>gp_name := Some ''LEVEL'', gp_default := Some ''3''\<rparr>]" by (simp add: demo_win_model_def)
  have o: "own_strings (ntl (wm_envar demo_win_model)) = [''LEVEL=3'']" "wl_environ demo_win () = [''PATH=bin'']"
    unfolding e by (simp_all add: ntl_def own_strings_def List.map_filter_simps envar_text_def demo_win_def)
  have "wm_envar demo_win_model \<noteq> []" by (simp add: e)
  moreover have "envars_ok (wm_envar demo_win_model)" unfolding envars_ok_def o by (simp add: e ntl_def env_block_def)
  moreover have "env_strings (wl_environ demo_win ())" "env_strings (own_strings (ntl (wm_envar demo_win_model)))"
    unfolding o by (simp_all add: env_strings_def)
  ultimately have "\<exists>block. build_env demo_win () (wm_envar demo_win_model) = Some (Some block) \<and>
      parse_env_block block = wl_environ demo_win () @ own_strings (ntl (wm_envar demo_win_model))"
    by (rule win_env_block_roundtrip)
  then show ?thesis by (simp only: o append_Cons append_Nil)
qed

lemma demo_win_buildable: "buildable demo_win loc demo_win_model" if "length loc < 1000"
proof -
  have "envars_ok (wm_envar demo_win_model)" "env_strings (wl_environ demo_win w)" for w
    by (simp_all add: demo_win_model_def envars_ok_def ntl_def own_strings_def List.map_filter_simps envar_text_def env_block_def
        env_strings_def demo_win_def)
  from build_env_block [OF _ this] have "build_env demo_win w (wm_envar demo_win_model) \<noteq> None" for w
    by (simp add: demo_win_model_def)
  moreover have "length (concat (butlast (cmd_parts demo_win demo_win_model loc))) \<le> MAX_CMD_LENGTH"
    using that by (simp add: cmd_parts_def demo_win_def demo_win_model_def show_str_def show_int_def show_nat.simps MAX_CMD_LENGTH_def)
  with cmd_append_fold [of "[]" "cmd_parts demo_win demo_win_model loc"] have "build_cmd demo_win demo_win_model loc \<noteq> None"
    by (simp add: build_cmd_def)
  ultimately show ?thesis by (simp add: buildable_def)
qed


text \<open>A location longer than the buffer makes the first part pass its end.\<close>

lemma build_cmd_overflow: "MAX_CMD_LENGTH < length path \<Longrightarrow> build_cmd W m path = None"
  using cmd_append_fold [of "[]" "cmd_parts W m path"] by (simp add: build_cmd_def cmd_parts_def)

end
