(* ===== verification/ImporterCsv.thy ===== *)
theory ImporterCsv
  imports CString FmuState
begin

section \<open>CSV input of the importer (dse/importer/csv.c)\<close>

text \<open>
  The samples the importer applies to the inputs of the FMU. The open file is the text still to
  be read. \<open>strtod\<close> is a parameter: the value of the number a text starts with, and whether \<open>errno\<close>
  was set. The order of doubles is that of IEEE 754 on their bit patterns.
\<close>

type_synonym strtod = "string \<Rightarrow> f64 \<times> bool"

subsection \<open>Lines and fields\<close>

definition F64_NO_TIME :: f64 where
  "F64_NO_TIME = 0xBFF0000000000000"

lemma no_time_negative: "\<not> f64_le 0 F64_NO_TIME"
  by (simp add: f64_le_def f64_ord_def f64_nan_def F64_NO_TIME_def bit_iff_odd)

definition CSV_LINE_MAXLEN :: nat where "CSV_LINE_MAXLEN = 1024"

definition csv_delim :: "char \<Rightarrow> bool" where
  "csv_delim c \<longleftrightarrow> c = CHR '','' \<or> c = CHR '';'' \<or> c = CHR 0x0A"

definition csv_tokens :: "string \<Rightarrow> string list" where
  "csv_tokens s = tokens CHR '','' (map (\<lambda>c. if csv_delim c then CHR '','' else c) s)"

text \<open>What is left of the line after the first call of \<open>strtok_r\<close>.\<close>

definition first_cut :: "string \<Rightarrow> string" where
  "first_cut s = takeWhile csv_delim s @ takeWhile (\<lambda>c. \<not> csv_delim c) (dropWhile csv_delim s)"

lemma fgets_shorter: "fgets CSV_LINE_MAXLEN s = Some (l, r) \<Longrightarrow> length r < length s"
  using take_line_length [of "CSV_LINE_MAXLEN - 1" s] take_line_nonempty [of "CSV_LINE_MAXLEN - 1" s]
  by (force simp: fgets_def CSV_LINE_MAXLEN_def simp flip: length_greater_0_conv split: if_splits prod.splits)

subsection \<open>The CSV descriptor\<close>

text \<open>\<open>cs_index\<close> has the position among the inputs for each column.\<close>

record csv_desc =
  cs_file :: string
  cs_line :: string
  cs_timestamp :: f64
  cs_index :: "nat list"

text \<open>\<open>exit(1)\<close> is a value of its own.\<close>

datatype exited = Exit int

definition csv_open :: "(string \<Rightarrow> string option) \<Rightarrow> string option \<Rightarrow> exited + csv_desc option" where
  "csv_open fopen path = (case path of None \<Rightarrow> Inr None
     | Some p \<Rightarrow> (case fopen p of None \<Rightarrow> Inl (Exit 1)
         | Some text \<Rightarrow> Inr (Some \<lparr>cs_file = text, cs_line = [], cs_timestamp = 0, cs_index = []\<rparr>)))"

text \<open>The next line with a time: its text and time, or nothing at the end of the file.\<close>

function csv_scan :: "strtod \<Rightarrow> string \<Rightarrow> string \<Rightarrow> string \<times> string \<times> f64 option" where
  "csv_scan strtod file line = (case fgets CSV_LINE_MAXLEN file of
      None \<Rightarrow> (file, line, None)
    | Some (l, rest) \<Rightarrow>
        if l = [] then csv_scan strtod rest l
        else (case strtod l of (ts, err) \<Rightarrow>
          if err then csv_scan strtod rest l
          else if f64_le 0 ts then (rest, l, Some ts)
          else csv_scan strtod rest l))"
  by pat_completeness auto
termination
  by (relation "measure (\<lambda>(_, file, _). length file)") (auto dest: fgets_shorter)

declare csv_scan.simps [simp del]

definition csv_read_line :: "strtod \<Rightarrow> csv_desc \<Rightarrow> bool \<times> csv_desc" where
  "csv_read_line strtod c = (case csv_scan strtod (cs_file c) (cs_line c) of (file, line, ts) \<Rightarrow>
     (ts \<noteq> None, c\<lparr>cs_file := file, cs_line := line, cs_timestamp := (case ts of None \<Rightarrow> F64_NO_TIME | Some t \<Rightarrow> t)\<rparr>))"

definition atoi_u32 :: "string \<Rightarrow> u32" where
  "atoi_u32 s = word_of_int (strtol 10 s)"

fun find_vr :: "u32 \<Rightarrow> u32 list \<Rightarrow> nat \<Rightarrow> nat option" where
  "find_vr vr [] i = None"
| "find_vr vr (r # rs) i = (if r = vr then Some i else find_vr vr rs (Suc i))"

text \<open>A reference of the header which is no input ends the program.\<close>

fun index_columns :: "u32 list \<Rightarrow> string list \<Rightarrow> exited + nat list" where
  "index_columns rx [] = Inr []"
| "index_columns rx (t # ts) = (case find_vr (atoi_u32 t) rx 0 of None \<Rightarrow> Inl (Exit 1)
     | Some k \<Rightarrow> map_sum id (\<lambda>ks. k # ks) (index_columns rx ts))"

text \<open>At most as many columns as there are inputs are read; the first sample is loaded.\<close>

definition csv_index :: "strtod \<Rightarrow> u32 list \<Rightarrow> csv_desc option \<Rightarrow> exited + csv_desc option" where
  "csv_index strtod rx_vr c = (case c of None \<Rightarrow> Inr None
     | Some d \<Rightarrow>
        (let (line, rest) = (case fgets CSV_LINE_MAXLEN (cs_file d) of None \<Rightarrow> (cs_line d, cs_file d) | Some p \<Rightarrow> p)
         in map_sum id (\<lambda>ks. Some (snd (csv_read_line strtod (d\<lparr>cs_file := rest, cs_line := first_cut line, cs_index := ks\<rparr>))))
              (index_columns rx_vr (take (length rx_vr) (drop 1 (csv_tokens line))))))"

subsection \<open>Applying samples (importer.c)\<close>

text \<open>The fields after the time; a field which is no number, or has no column, is skipped.\<close>

fun assign_fields :: "strtod \<Rightarrow> nat list \<Rightarrow> nat \<Rightarrow> string list \<Rightarrow> f64 list \<Rightarrow> f64 list" where
  "assign_fields strtod index idx [] vals = vals"
| "assign_fields strtod index idx (t # ts) vals =
    (let vals1 = (case strtod t of (v, err) \<Rightarrow> if err then vals
           else (case nth_opt index idx of None \<Rightarrow> vals | Some k \<Rightarrow> vals[k := v]))
     in if length index \<le> Suc idx then vals1 else assign_fields strtod index (Suc idx) ts vals1)"

definition sample_due :: "f64 \<Rightarrow> csv_desc \<Rightarrow> bool" where
  "sample_due t c \<longleftrightarrow> f64_le 0 (cs_timestamp c) \<and> f64_le (cs_timestamp c) t"

text \<open>A line with a time: not empty, a number without an error, not negative.\<close>

definition line_time :: "strtod \<Rightarrow> string \<Rightarrow> f64 option" where
  "line_time strtod l = (if l = [] then None
     else (case strtod l of (ts, err) \<Rightarrow> if \<not> err \<and> f64_le 0 ts then Some ts else None))"

lemma csv_scan_eq:
  "csv_scan st s buf = (case fgets CSV_LINE_MAXLEN s of None \<Rightarrow> (s, buf, None)
     | Some (l, r) \<Rightarrow> (case line_time st l of None \<Rightarrow> csv_scan st r l | Some t \<Rightarrow> (r, l, Some t)))"
  by (subst csv_scan.simps) (auto simp: line_time_def split: option.split prod.split)

function csv_samples :: "strtod \<Rightarrow> string \<Rightarrow> (f64 \<times> string) list" where
  "csv_samples st s = (case fgets CSV_LINE_MAXLEN s of None \<Rightarrow> []
     | Some (l, r) \<Rightarrow> (case line_time st l of None \<Rightarrow> csv_samples st r | Some t \<Rightarrow> (t, l) # csv_samples st r))"
  by pat_completeness auto
termination
  by (relation "measure (\<lambda>(_, s). length s)") (auto dest: fgets_shorter)

declare csv_samples.simps [simp del]

lemma line_time_pos: "line_time st l = Some t \<Longrightarrow> f64_le 0 t"
  by (auto simp: line_time_def split: if_splits prod.splits)

lemma csv_scan_samples:
  "csv_scan st s buf = (rest, l, ts) \<Longrightarrow> (case ts of None \<Rightarrow> csv_samples st s = []
     | Some t \<Rightarrow> f64_le 0 t \<and> csv_samples st s = (t, l) # csv_samples st rest \<and> length rest < length s)"
proof (induction "length s" arbitrary: s buf rule: less_induct)
  case less
  show ?case
  proof (cases "fgets CSV_LINE_MAXLEN s")
    case None
    then have "csv_samples st s = []" "csv_scan st s buf = (s, buf, None)"
      by (simp_all add: csv_scan_eq [of st s] csv_samples.simps [of st s])
    with less.prems show ?thesis by auto
  next
    case (Some p)
    obtain l1 r where p: "p = (l1, r)" by (cases p)
    have lt: "length r < length s" using fgets_shorter Some p by blast
    show ?thesis
    proof (cases "line_time st l1")
      case None
      with less.prems Some p have "csv_scan st r l1 = (rest, l, ts)" by (simp add: csv_scan_eq [of st s])
      from less.hyps [OF lt this] show ?thesis using None Some p lt
        by (auto simp: csv_samples.simps [of st s] split: option.splits)
    next
      case t: (Some t)
      have "csv_scan st s buf = (r, l1, Some t)" "csv_samples st s = (t, l1) # csv_samples st r"
        using Some p t by (simp_all add: csv_scan_eq [of st s] csv_samples.simps [of st s])
      with less.prems lt line_time_pos [OF t] show ?thesis by auto
    qed
  qed
qed

lemma read_line_shorter: "csv_read_line strtod c = (True, d) \<Longrightarrow> length (cs_file d) < length (cs_file c)"
  using csv_scan_samples [of strtod "cs_file c" "cs_line c"] by (auto simp: csv_read_line_def split: prod.splits option.splits)

function apply_due :: "strtod \<Rightarrow> f64 \<Rightarrow> csv_desc \<Rightarrow> f64 list \<Rightarrow> csv_desc \<times> f64 list" where
  "apply_due strtod t c vals =
    (if \<not> sample_due t c then (c, vals)
     else let vals1 = assign_fields strtod (cs_index c) 0 (drop 1 (csv_tokens (cs_line c))) vals;
              (ok, d) = csv_read_line strtod (c\<lparr>cs_line := first_cut (cs_line c)\<rparr>)
          in if ok then apply_due strtod t d vals1 else (d, vals1))"
  by pat_completeness auto
termination
proof (relation "measure (\<lambda>(_, _, c, _). length (cs_file c))", goal_cases)
  case (2 strtod t c vals vals1 p ok d)
  then show ?case using read_line_shorter [of strtod "c\<lparr>cs_line := first_cut (cs_line c)\<rparr>" d] by auto
qed simp

declare apply_due.simps [simp del]

definition apply_samples :: "strtod \<Rightarrow> f64 \<Rightarrow> csv_desc option \<Rightarrow> f64 list \<Rightarrow> csv_desc option \<times> f64 list" where
  "apply_samples strtod t c vals = (case c of None \<Rightarrow> (None, vals)
     | Some d \<Rightarrow> map_prod Some id (apply_due strtod t d vals))"

subsection \<open>What the samples are\<close>

text \<open>The samples still to come: the loaded one and the valid lines of the rest of the file.\<close>

definition pending :: "strtod \<Rightarrow> csv_desc \<Rightarrow> (f64 \<times> string) list" where
  "pending st c = (if f64_le 0 (cs_timestamp c) then (cs_timestamp c, cs_line c) # csv_samples st (cs_file c) else [])"

definition apply_line :: "strtod \<Rightarrow> nat list \<Rightarrow> f64 list \<Rightarrow> f64 \<times> string \<Rightarrow> f64 list" where
  "apply_line st index vals p = assign_fields st index 0 (drop 1 (csv_tokens (snd p))) vals"

lemma read_line_pending:
  assumes "csv_read_line st c = (ok, d)"
  shows "pending st d = csv_samples st (cs_file c)" "ok \<longleftrightarrow> pending st d \<noteq> []" "cs_index d = cs_index c"
proof -
  obtain rest l ts where s: "csv_scan st (cs_file c) (cs_line c) = (rest, l, ts)" by (cases "csv_scan st (cs_file c) (cs_line c)")
  from csv_scan_samples [OF s] s assms no_time_negative
  show "pending st d = csv_samples st (cs_file c)" "ok \<longleftrightarrow> pending st d \<noteq> []" "cs_index d = cs_index c"
    by (auto simp: csv_read_line_def pending_def split: option.splits)
qed

lemma apply_due_pending:
  "apply_due st t c vals = (d, w) \<Longrightarrow>
     pending st d = dropWhile (\<lambda>p. f64_le (fst p) t) (pending st c) \<and>
     w = foldl (apply_line st (cs_index c)) vals (takeWhile (\<lambda>p. f64_le (fst p) t) (pending st c)) \<and>
     cs_index d = cs_index c"
proof (induction st t c vals rule: apply_due.induct)
  case (1 st t c vals)
  show ?case
  proof (cases "sample_due t c")
    case False
    with "1.prems" show ?thesis by (auto simp: apply_due.simps [of st t c] sample_due_def pending_def)
  next
    case True
    let ?v = "assign_fields st (cs_index c) 0 (drop 1 (csv_tokens (cs_line c))) vals"
    obtain ok e where r: "csv_read_line st (c\<lparr>cs_line := first_cut (cs_line c)\<rparr>) = (ok, e)"
      by (cases "csv_read_line st (c\<lparr>cs_line := first_cut (cs_line c)\<rparr>)")
    have al: "apply_line st (cs_index c) vals (cs_timestamp c, cs_line c) = ?v" by (simp add: apply_line_def)
    note pe = read_line_pending [OF r]
    have pc: "pending st c = (cs_timestamp c, cs_line c) # pending st e" "f64_le (cs_timestamp c) t"
      using True pe(1) by (simp_all add: sample_due_def pending_def)
    show ?thesis
    proof (cases ok)
      case ok: True
      with "1.prems" True r have "apply_due st t e ?v = (d, w)" by (simp add: apply_due.simps [of st t c])
      with "1.IH" True r ok have "pending st d = dropWhile (\<lambda>p. f64_le (fst p) t) (pending st e) \<and>
          w = foldl (apply_line st (cs_index e)) ?v (takeWhile (\<lambda>p. f64_le (fst p) t) (pending st e)) \<and> cs_index d = cs_index e"
        by force
      with pc pe(3) show ?thesis using al by simp
    next
      case False
      with "1.prems" True r have "d = e" "w = ?v" by (simp_all add: apply_due.simps [of st t c])
      with pc pe False show ?thesis using al by simp
    qed
  qed
qed

text \<open>Catching up in two calls is catching up in one.\<close>

lemma apply_due_again:
  "f64_le t u \<Longrightarrow> apply_due st t c vals = (d, w) \<Longrightarrow> apply_due st u d w = apply_due st u c vals"
proof (induction st t c vals rule: apply_due.induct)
  case (1 st t c vals)
  show ?case
  proof (cases "sample_due t c")
    case False
    with "1.prems" show ?thesis by (simp add: apply_due.simps [of st t c])
  next
    case True
    then have u: "sample_due u c" using "1.prems"(1) by (auto simp: sample_due_def intro: f64_le_trans)
    let ?v = "assign_fields st (cs_index c) 0 (drop 1 (csv_tokens (cs_line c))) vals"
    obtain ok e where r: "csv_read_line st (c\<lparr>cs_line := first_cut (cs_line c)\<rparr>) = (ok, e)"
      by (cases "csv_read_line st (c\<lparr>cs_line := first_cut (cs_line c)\<rparr>)")
    show ?thesis
    proof (cases ok)
      case ok: True
      with "1.prems"(2) True r have "apply_due st t e ?v = (d, w)" by (simp add: apply_due.simps [of st t c])
      with "1.IH" "1.prems"(1) True r ok have "apply_due st u d w = apply_due st u e ?v" by force
      then show ?thesis using u r ok by (simp add: apply_due.simps [of st u c])
    next
      case False
      with "1.prems"(2) True r have e: "d = e" "w = ?v" by (simp_all add: apply_due.simps [of st t c])
      have "\<not> sample_due u e" using read_line_pending(2) [OF r] False by (auto simp: pending_def sample_due_def split: if_splits)
      then show ?thesis using e u r False by (simp add: apply_due.simps [of st u c] apply_due.simps [of st u e])
    qed
  qed
qed

text \<open>An empty field does not keep its column: \<open>strtok_r\<close> skips it and the later values move up.\<close>

lemma csv_empty_field_shifts:
  "csv_tokens ''1.0,,5'' = csv_tokens ''1.0,5''"
  by (simp add: csv_tokens_def csv_delim_def tokens_def)

text \<open>
  C37: Applying the samples at a time sets the inputs by exactly the samples of the file that are
  due and not applied yet, in the order of the file, up to the first one that lies in the future;
  that one and all after it stay pending. Lines without a valid time do not count. So the inputs
  at a time do not depend on how often the samples were applied before.
\<close>

theorem csv_samples_due:
  assumes "apply_samples st t (Some c) vals = (Some d, w)"
  shows "pending st d = dropWhile (\<lambda>p. f64_le (fst p) t) (pending st c) \<and>
    w = foldl (apply_line st (cs_index c)) vals (takeWhile (\<lambda>p. f64_le (fst p) t) (pending st c)) \<and>
    (\<forall>u. f64_le t u \<longrightarrow> apply_samples st u (Some d) w = apply_samples st u (Some c) vals)"
proof -
  have a: "apply_due st t c vals = (d, w)" using assms by (cases "apply_due st t c vals") (simp add: apply_samples_def)
  show ?thesis using apply_due_pending [OF a] apply_due_again [OF _ a] by (simp add: apply_samples_def)
qed

text \<open>One sample is loaded, two lines are to come, the first without a time.\<close>

definition demo_strtod :: strtod where
  "demo_strtod s = (case s of c # r \<Rightarrow> if digit_val c < 10 then (if c = CHR ''0'' then 0 else 0x3FF0000000000000, False)
     else (0, True) | [] \<Rightarrow> (0, False))"

definition demo_csv :: csv_desc where
  "demo_csv = \<lparr>cs_file = ''bad'' @ [CHR 0x0A] @ ''1,0'', cs_line = ''0,1'', cs_timestamp = 0, cs_index = [0]\<rparr>"

lemma take_line_numeral:
  "take_line (numeral n) [] = ([], [])"
  "take_line (numeral n) (c # s) = (if c = CHR 0x0A then ([c], s)
     else (case take_line (pred_numeral n) s of (l, r) \<Rightarrow> (c # l, r)))"
  by (simp_all add: numeral_eq_Suc)

lemma demo_csv_pending:
  "pending demo_strtod demo_csv = [(0, ''0,1''), (0x3FF0000000000000, ''1,0'')]"
  "f64_le 0 0" "\<not> f64_le 0x3FF0000000000000 0"
proof -
  show f: "f64_le 0 0" "\<not> f64_le 0x3FF0000000000000 0"
    by (simp_all add: f64_le_def f64_ord_def f64_nan_def bit_iff_odd)
  have "f64_le 0 0x3FF0000000000000" by (simp add: f64_le_def f64_ord_def f64_nan_def bit_iff_odd)
  then show "pending demo_strtod demo_csv = [(0, ''0,1''), (0x3FF0000000000000, ''1,0'')]" using f
    by (simp add: pending_def demo_csv_def csv_samples.simps fgets_def CSV_LINE_MAXLEN_def take_line_numeral line_time_def
        demo_strtod_def digit_val_def)
qed

theorem csv_samples_due_witness:
  "\<exists>d. apply_samples demo_strtod 0 (Some demo_csv) [7] = (Some d, [0x3FF0000000000000]) \<and>
     pending demo_strtod d = [(0x3FF0000000000000, ''1,0'')]"
proof -
  obtain d w where a: "apply_samples demo_strtod 0 (Some demo_csv) [7] = (Some d, w)"
    by (cases "apply_due demo_strtod 0 demo_csv [7]") (simp add: apply_samples_def)
  have "pending demo_strtod d = [(0x3FF0000000000000, ''1,0'')] \<and> w = [0x3FF0000000000000]"
    using csv_samples_due [OF a] demo_csv_pending
    by (simp add: apply_line_def csv_tokens_def csv_delim_def tokens_def demo_csv_def demo_strtod_def digit_val_def nth_opt_def)
  with a show ?thesis by blast
qed

end
