(* ===== verification/ImporterBus.thy ===== *)
theory ImporterBus
  imports FmuState
begin

section \<open>The network of the importer (dse/importer/signal_bus.c)\<close>

text \<open>
  The importer connects the binary signals of an FMU by named networks; each has a codec over a
  buffer stream. Codec and buffer stream (dse.ncodec) are the parameter \<open>net_lib\<close>: a codec \<open>'n\<close> with
  its stream, positioned (\<open>nb_seek_set\<close>, \<open>nb_seek_end\<close>) before reading and writing. The networks are
  kept in a sorted vector; only the search by name depends on it, so the order is not kept here.
  The messages printed by the importer are the list \<open>nw_out\<close>.
\<close>

record 'n net_lib =
  nb_create :: "string \<Rightarrow> 'n option"
  nb_stat :: "'n \<Rightarrow> int \<Rightarrow> (string option \<times> string option) \<times> int"
  nb_stream :: "nat \<Rightarrow> 'n \<Rightarrow> 'n"
  nb_seek_set :: "'n \<Rightarrow> 'n"
  nb_seek_end :: "'n \<Rightarrow> 'n"
  nb_stream_write :: "'n \<Rightarrow> bytes \<Rightarrow> 'n"
  nb_stream_read :: "'n \<Rightarrow> bytes \<times> 'n"
  nb_write :: "'n \<Rightarrow> int \<Rightarrow> bytes \<Rightarrow> 'n"
  nb_flush :: "'n \<Rightarrow> 'n"
  nb_read :: "'n \<Rightarrow> (bytes \<times> 'n) option"
  nb_truncate :: "'n \<Rightarrow> 'n"

record 'n net_signal =
  ns_name :: string
  ns_mime :: string
  ns_nc :: "'n option"

record 'n network =
  nw_signals :: "'n net_signal list"
  nw_out :: "bytes list"

definition no_network :: "'n network" where
  "no_network = \<lparr>nw_signals = [], nw_out = []\<rparr>"

subsection \<open>Networks\<close>

definition find_network :: "'n network \<Rightarrow> string \<Rightarrow> 'n net_signal option" where
  "find_network w name = find (\<lambda>s. ns_name s = name) (nw_signals w)"

text \<open>A name that is new gets a codec of the MIME type.\<close>

definition get_network_signal :: "'n net_lib \<Rightarrow> 'n network \<Rightarrow> string \<Rightarrow> string option \<Rightarrow> 'n net_signal option \<times> 'n network" where
  "get_network_signal N w name mime_type = (case find_network w name of Some s \<Rightarrow> (Some s, w)
     | None \<Rightarrow> (case mime_type of None \<Rightarrow> (None, w)
       | Some mt \<Rightarrow>
           (let s = \<lparr>ns_name = name, ns_mime = mt, ns_nc = map_option (nb_stream N 1024) (nb_create N mt)\<rparr>
            in (Some s, w\<lparr>nw_signals := nw_signals w @ [s]\<rparr>))))"

definition put_codec :: "'n network \<Rightarrow> string \<Rightarrow> 'n \<Rightarrow> 'n network" where
  "put_codec w name nc = w\<lparr>nw_signals := map (\<lambda>s. if ns_name s = name then s\<lparr>ns_nc := Some nc\<rparr> else s) (nw_signals w)\<rparr>"

subsection \<open>Configuration values\<close>

text \<open>
  The loop runs while the index is not negative; it may never end. A value that is null is
  duplicated (undefined); so is the configuration of a codec that could not be created.
\<close>

partial_function (option) stat_value :: "'n net_lib \<Rightarrow> 'n \<Rightarrow> string \<Rightarrow> int \<Rightarrow> string option option" where
  "stat_value N nc key i = (if i < 0 then Some None
     else case nb_stat N nc i of ((n, v), i') \<Rightarrow>
       if n = Some key then (case v of None \<Rightarrow> None | Some s \<Rightarrow> Some (Some s))
       else stat_value N nc key (i' + 1))"

definition network_mime_type_value :: "'n net_lib \<Rightarrow> string \<Rightarrow> string \<Rightarrow> string option option" where
  "network_mime_type_value N mime_type key = do { nc \<leftarrow> nb_create N mime_type; stat_value N nc key 0 }"

subsection \<open>Operations\<close>

definition network_inject_frame :: "'n net_lib \<Rightarrow> 'n network \<Rightarrow> string \<Rightarrow> string \<Rightarrow> int \<Rightarrow> bytes \<Rightarrow> 'n network" where
  "network_inject_frame N w name mime_type frame_id buf = (case get_network_signal N w name (Some mime_type) of (s, w1) \<Rightarrow>
     (case Option.bind s ns_nc of None \<Rightarrow> w1
       | Some nc \<Rightarrow> put_codec w1 name (nb_flush N (nb_write N (nb_seek_end N nc) frame_id buf))))"

text \<open>The messages of a buffer; the loop ends when the codec has no further one.\<close>

partial_function (option) read_messages :: "'n net_lib \<Rightarrow> 'n \<Rightarrow> bytes list option" where
  "read_messages N nc = (case nb_read N nc of None \<Rightarrow> Some []
     | Some (m, nc1) \<Rightarrow> Option.bind (read_messages N nc1) (\<lambda>ms. Some (m # ms)))"

definition network_push :: "'n net_lib \<Rightarrow> bool \<Rightarrow> 'n network \<Rightarrow> string \<Rightarrow> string \<Rightarrow> bytes \<Rightarrow> 'n network option" where
  "network_push N signal_bus_enabled w name mime_type buf =
    (if buf = [] then Some w
     else case get_network_signal N w name (Some mime_type) of (s, w1) \<Rightarrow>
       (case Option.bind s ns_nc of None \<Rightarrow> Some w1
         | Some nc \<Rightarrow>
             if signal_bus_enabled then Some (put_codec w1 name (nb_stream_write N (nb_seek_end N nc) buf))
             else do {
               ty \<leftarrow> network_mime_type_value N mime_type ''type'';
               t \<leftarrow> ty;
               if t \<noteq> ''frame'' then Some w1
               else case nb_create N mime_type of None \<Rightarrow> Some w1
                 | Some nc1 \<Rightarrow> do {
                     ms \<leftarrow> read_messages N (nb_seek_set N (nb_stream_write N (nb_stream N (length buf) nc1) buf));
                     Some (w1\<lparr>nw_out := nw_out w1 @ ms\<rparr>) } }))"

definition network_pull :: "'n net_lib \<Rightarrow> 'n network \<Rightarrow> string \<Rightarrow> string \<Rightarrow> bytes \<times> 'n network" where
  "network_pull N w name mime_type = (case get_network_signal N w name (Some mime_type) of (s, w1) \<Rightarrow>
     (case Option.bind s ns_nc of None \<Rightarrow> ([], w1)
       | Some nc \<Rightarrow> (case nb_stream_read N (nb_seek_set N nc) of (bs, nc1) \<Rightarrow> (bs, put_codec w1 name nc1))))"

definition network_truncate :: "'n net_lib \<Rightarrow> 'n network \<Rightarrow> 'n network" where
  "network_truncate N w = w\<lparr>nw_signals := map (\<lambda>s. s\<lparr>ns_nc := map_option (nb_truncate N) (ns_nc s)\<rparr>) (nw_signals w)\<rparr>"

definition network_close :: "'n network \<Rightarrow> 'n network" where
  "network_close w = w\<lparr>nw_signals := []\<rparr>"

end
