(* ===== verification/ImporterXml.thy ===== *)
theory ImporterXml
  imports ImporterCsv ImporterBus FmuVariable "HOL-Library.AList"
begin

section \<open>The model description as the importer reads it (dse/importer/xml.c)\<close>

text \<open>
  The inputs and outputs of an FMU, collected by value reference in hash maps and then laid out
  in arrays. A hash map is an association list; the order in which its keys are enumerated is
  the parameter \<open>hk\<close>. \<open>c0\<close> says whether \<open>calloc\<close> of nothing is null, which C leaves open. \<open>None\<close> is a null
  pointer that is followed or the first element of an empty node set.
\<close>

subsection \<open>Data (importer.h)\<close>

record binary_data =
  bd_start :: "string option"
  bd_mime_type :: "string option"
  bd_type :: "string option"

record real_arrays =
  vr_rx_real :: "u32 list"
  vr_tx_real :: "u32 list"
  val_rx_real :: "f64 list"
  val_tx_real :: "f64 list"

text \<open>\<open>tx_binary_info\<close> itself may be null.\<close>

record binary_arrays =
  vr_rx_binary :: "u32 list"
  vr_tx_binary :: "u32 list"
  val_rx_binary :: "bytes option list"
  val_tx_binary :: "bytes option list"
  val_size_rx_binary :: "u64 list"
  val_size_tx_binary :: "u64 list"
  rx_binary_info :: "binary_data option list option"
  tx_binary_info :: "binary_data option list option"

record model_description =
  md_version :: string
  md_lib_path :: string
  md_real :: real_arrays
  md_binary :: binary_arrays

record imp_maps =
  im_rx_real :: "(string \<times> f64) list"
  im_tx_real :: "(string \<times> f64) list"
  im_rx_binary :: "(string \<times> binary_data) list"
  im_tx_binary :: "(string \<times> binary_data) list"

definition no_maps :: imp_maps where
  "no_maps = \<lparr>im_rx_real = [], im_tx_real = [], im_rx_binary = [], im_tx_binary = []\<rparr>"

type_synonym key_order = "string list \<Rightarrow> string list"

subsection \<open>Annotations\<close>

definition fmi2_tool_anno :: "xpath \<Rightarrow> xml_node \<Rightarrow> string \<Rightarrow> string \<Rightarrow> string option option" where
  "fmi2_tool_anno xp node tool name = parse_tool_anno xp node tool name"

text \<open>In each annotation the first element of the name; the last annotation that has one wins.\<close>

definition fmi3_tool_anno :: "xpath \<Rightarrow> xml_node \<Rightarrow> string \<Rightarrow> string \<Rightarrow> string option option" where
  "fmi3_tool_anno xp node tool name = do {
     ns \<leftarrow> xp node (''Annotations/Annotation[@type='' @ [CHR 0x27] @ tool @ [CHR 0x27] @ '']'');
     Some (foldl (\<lambda>result a. case find (\<lambda>c. xn_element c \<and> xn_name c = name) (xn_children a) of
        None \<Rightarrow> result | Some c \<Rightarrow> xn_text c) None ns) }"

definition binary_mime :: "'n net_lib \<Rightarrow> string option \<Rightarrow> string option \<Rightarrow> binary_data option" where
  "binary_mime N start mime_type = (case mime_type of
      None \<Rightarrow> Some \<lparr>bd_start = start, bd_mime_type = None, bd_type = None\<rparr>
    | Some mt \<Rightarrow> do {
        ty \<leftarrow> network_mime_type_value N mt ''type'';
        Some \<lparr>bd_start = start, bd_mime_type = Some mt, bd_type = ty\<rparr> })"

definition set_real_var :: "string \<Rightarrow> string \<Rightarrow> f64 \<Rightarrow> imp_maps \<Rightarrow> imp_maps" where
  "set_real_var vr causality x m =
    (if causality = ''input'' then m\<lparr>im_rx_real := AList.update vr x (im_rx_real m)\<rparr>
     else if causality = ''output'' then m\<lparr>im_tx_real := AList.update vr x (im_tx_real m)\<rparr> else m)"

definition set_binary_var :: "string \<Rightarrow> string \<Rightarrow> binary_data \<Rightarrow> imp_maps \<Rightarrow> imp_maps" where
  "set_binary_var vr causality d m =
    (if causality = ''input'' then m\<lparr>im_rx_binary := AList.update vr d (im_rx_binary m)\<rparr>
     else if causality = ''output'' then m\<lparr>im_tx_binary := AList.update vr d (im_tx_binary m)\<rparr> else m)"

subsection \<open>FMI 2\<close>

definition start_value :: "strtod \<Rightarrow> string option \<Rightarrow> f64" where
  "start_value strtod start = (case start of None \<Rightarrow> 0 | Some s \<Rightarrow> fst (strtod s))"

definition parse_fmi2_scalar :: "strtod \<Rightarrow> xml_node \<Rightarrow> string \<Rightarrow> string \<Rightarrow> string option \<Rightarrow> imp_maps \<Rightarrow> imp_maps" where
  "parse_fmi2_scalar strtod child vr causality start m =
    (if xn_name child \<noteq> ''Real'' then m else set_real_var vr causality (start_value strtod start) m)"

definition parse_fmi2_string ::
  "'n net_lib \<Rightarrow> xpath \<Rightarrow> xml_node \<Rightarrow> xml_node \<Rightarrow> string \<Rightarrow> string \<Rightarrow> string option \<Rightarrow> imp_maps \<Rightarrow> imp_maps option" where
  "parse_fmi2_string N xp variable child vr causality start m =
    (if xn_name child \<noteq> ''String'' then Some m
     else do {
       mime_type \<leftarrow> fmi2_tool_anno xp variable ''dse.standards.fmi-ls-binary-codec'' ''mimetype'';
       d \<leftarrow> binary_mime N start mime_type;
       Some (set_binary_var vr causality d m) })"

definition parse_fmi2_child ::
  "'n net_lib \<Rightarrow> strtod \<Rightarrow> xpath \<Rightarrow> xml_node \<Rightarrow> string \<Rightarrow> string \<Rightarrow> imp_maps \<Rightarrow> xml_node \<Rightarrow> imp_maps option" where
  "parse_fmi2_child N strtod xp variable vr causality m child =
    (if \<not> xn_element child then Some m
     else (let start = xml_prop child ''start''
           in parse_fmi2_string N xp variable child vr causality start (parse_fmi2_scalar strtod child vr causality start m)))"

definition parse_fmi2_variable :: "'n net_lib \<Rightarrow> strtod \<Rightarrow> xpath \<Rightarrow> imp_maps \<Rightarrow> xml_node \<Rightarrow> imp_maps option" where
  "parse_fmi2_variable N strtod xp m variable = (case xml_prop variable ''valueReference'' of None \<Rightarrow> Some m
     | Some vr \<Rightarrow> (case xml_prop variable ''causality'' of None \<Rightarrow> Some m
       | Some causality \<Rightarrow> foldM (parse_fmi2_child N strtod xp variable vr causality) m (xn_children variable)))"

definition parse_fmi2_model_desc :: "'n net_lib \<Rightarrow> strtod \<Rightarrow> xpath \<Rightarrow> xml_node \<Rightarrow> imp_maps \<Rightarrow> imp_maps option" where
  "parse_fmi2_model_desc N strtod xp doc m = do {
     vars \<leftarrow> xp doc ''/fmiModelDescription/ModelVariables/ScalarVariable'';
     foldM (parse_fmi2_variable N strtod xp) m vars }"

subsection \<open>FMI 3\<close>

definition parse_fmi3_scalar :: "strtod \<Rightarrow> xml_node \<Rightarrow> string \<Rightarrow> string \<Rightarrow> imp_maps \<Rightarrow> imp_maps" where
  "parse_fmi3_scalar strtod child vr causality m =
    (if xn_name child \<noteq> ''Float64'' then m
     else set_real_var vr causality (start_value strtod (xml_prop child ''start'')) m)"

text \<open>The value of the last start element; without one a null pointer is duplicated.\<close>

definition parse_fmi3_binary :: "'n net_lib \<Rightarrow> xpath \<Rightarrow> xml_node \<Rightarrow> string \<Rightarrow> string \<Rightarrow> imp_maps \<Rightarrow> imp_maps option" where
  "parse_fmi3_binary N xp child vr causality m =
    (if xn_name child \<noteq> ''Binary'' then Some m
     else do {
       start \<leftarrow> foldl (\<lambda>s c. if xn_element c \<and> xn_name c = ''Start'' then xml_prop c ''value'' else s) None (xn_children child);
       mime_type \<leftarrow> fmi3_tool_anno xp child ''dse.standards.fmi-ls-binary-codec'' ''Mimetype'';
       d \<leftarrow> binary_mime N (Some start) mime_type;
       Some (set_binary_var vr causality d m) })"

definition parse_fmi3_variable :: "'n net_lib \<Rightarrow> strtod \<Rightarrow> xpath \<Rightarrow> imp_maps \<Rightarrow> xml_node \<Rightarrow> imp_maps option" where
  "parse_fmi3_variable N strtod xp m child =
    (if \<not> xn_element child then Some m
     else case xml_prop child ''valueReference'' of None \<Rightarrow> Some m
     | Some vr \<Rightarrow> (case xml_prop child ''causality'' of None \<Rightarrow> Some m
       | Some causality \<Rightarrow> parse_fmi3_binary N xp child vr causality (parse_fmi3_scalar strtod child vr causality m)))"

definition parse_fmi3_model_desc :: "'n net_lib \<Rightarrow> strtod \<Rightarrow> xpath \<Rightarrow> xml_node \<Rightarrow> imp_maps \<Rightarrow> imp_maps option" where
  "parse_fmi3_model_desc N strtod xp doc m = do {
     ns \<leftarrow> xp doc ''/fmiModelDescription/ModelVariables'';
     foldM (\<lambda>m n. foldM (parse_fmi3_variable N strtod xp) m (xn_children n)) m ns }"

subsection \<open>The library path and the version\<close>

definition first_node :: "xpath \<Rightarrow> xml_node \<Rightarrow> string \<Rightarrow> xml_node option" where
  "first_node xp doc path = do { ns \<leftarrow> xp doc path; nth_opt ns 0 }"

definition platform_dir :: "nat \<Rightarrow> string \<Rightarrow> string \<Rightarrow> string" where
  "platform_dir version os arch =
    (if version = 2 then
       if os = ''linux'' then (if arch = ''x86'' \<or> arch = ''i386'' then ''linux32'' else ''linux64'')
       else if os = ''windows'' then (if arch = ''x86'' then ''win32'' else if arch = ''x64'' then ''win64'' else ''linux64'')
       else ''linux64''
     else if version = 3 then
       if os = ''linux'' then (if arch = ''amd64'' then ''x86_64-linux'' else if arch = ''x86'' \<or> arch = ''i386'' then ''x86_32-linux''
         else ''linux64'')
       else if os = ''windows'' then (if arch = ''x64'' \<or> arch = ''x86'' then ''x86_64-windows'' else ''linux64'')
       else ''linux64''
     else ''linux64'')"

text \<open>A platform without an architecture compares a null pointer when its system is known.\<close>

definition get_fmu_binary_path :: "xpath \<Rightarrow> xml_node \<Rightarrow> string \<Rightarrow> nat \<Rightarrow> string option" where
  "get_fmu_binary_path xp doc platform version = do {
     node \<leftarrow> first_node xp doc ''/fmiModelDescription/CoSimulation'';
     model_identifier \<leftarrow> xml_prop node ''modelIdentifier'';
     let os = takeWhile (\<lambda>c. c \<noteq> CHR ''-'') platform;
     let known = os = ''linux'' \<or> os = ''windows'';
     arch \<leftarrow> (case dropWhile (\<lambda>c. c \<noteq> CHR ''-'') platform of _ # a \<Rightarrow> Some a | [] \<Rightarrow> if known then None else Some []);
     Some (''binaries/'' @ platform_dir version os arch @ ''/'' @ model_identifier @ ''.'' @
       (if os = ''windows'' then ''dll'' else ''so'')) }"

definition get_fmu_version :: "xpath \<Rightarrow> xml_node \<Rightarrow> string option option" where
  "get_fmu_version xp doc = do { node \<leftarrow> first_node xp doc ''/fmiModelDescription''; Some (xml_prop node ''fmiVersion'') }"

subsection \<open>Arrays\<close>

definition alloc_real_var :: "key_order \<Rightarrow> (string \<times> f64) list \<Rightarrow> u32 list \<times> f64 list" where
  "alloc_real_var hk m = (let keys = hk (map fst m)
     in (map atoi_u32 keys, map (\<lambda>k. case map_of m k of None \<Rightarrow> 0 | Some x \<Rightarrow> x) keys))"

definition alloc_binary_var ::
  "bool \<Rightarrow> key_order \<Rightarrow> (string \<times> binary_data) list \<Rightarrow> u32 list \<times> bytes option list \<times> u64 list \<times> binary_data option list option" where
  "alloc_binary_var c0 hk m = (let keys = hk (map fst m); n = length m
     in (map atoi_u32 keys, replicate n None, replicate n 0, if n = 0 \<and> c0 then None else Some (map (map_of m) keys)))"

definition alloc_model :: "bool \<Rightarrow> key_order \<Rightarrow> string \<Rightarrow> string \<Rightarrow> imp_maps \<Rightarrow> model_description" where
  "alloc_model c0 hk version path m =
    (let (rr, rv) = alloc_real_var hk (im_rx_real m); (tr, tv) = alloc_real_var hk (im_tx_real m);
         (br, bv, bs, bi) = alloc_binary_var c0 hk (im_rx_binary m); (cr, cv, cs, ci) = alloc_binary_var c0 hk (im_tx_binary m)
     in \<lparr>md_version = version, md_lib_path = path,
          md_real = \<lparr>vr_rx_real = rr, vr_tx_real = tr, val_rx_real = rv, val_tx_real = tv\<rparr>,
          md_binary = \<lparr>vr_rx_binary = br, vr_tx_binary = cr, val_rx_binary = bv, val_tx_binary = cv,
            val_size_rx_binary = bs, val_size_tx_binary = cs, rx_binary_info = bi, tx_binary_info = ci\<rparr>\<rparr>)"

text \<open>No description for a document that does not parse or another version.\<close>

definition atoi :: "string \<Rightarrow> int" where
  "atoi s = sint (word_of_int (strtol 10 s) :: u32)"

definition parse_model_desc ::
  "'n net_lib \<Rightarrow> strtod \<Rightarrow> xpath \<Rightarrow> bool \<Rightarrow> key_order \<Rightarrow> xml_node option \<Rightarrow> string \<Rightarrow> model_description option option" where
  "parse_model_desc N strtod xp c0 hk doc platform = (case doc of None \<Rightarrow> Some None
     | Some d \<Rightarrow> do {
         v \<leftarrow> get_fmu_version xp d;
         version \<leftarrow> v;
         if atoi version = 2 then do {
           m \<leftarrow> parse_fmi2_model_desc N strtod xp d no_maps;
           path \<leftarrow> get_fmu_binary_path xp d platform 2;
           Some (Some (alloc_model c0 hk version path m)) }
         else if atoi version = 3 then do {
           m \<leftarrow> parse_fmi3_model_desc N strtod xp d no_maps;
           path \<leftarrow> get_fmu_binary_path xp d platform 3;
           Some (Some (alloc_model c0 hk version path m)) }
         else Some None })"

end
