(* ===== verification/ImporterRun.thy ===== *)
theory ImporterRun
  imports ImporterXml
begin

section \<open>The importer (dse/importer/importer.c)\<close>

text \<open>
  The program that loads an FMU and steps it: its inputs come from the CSV file, its binary
  outputs go over the network to its binary inputs. The functions of the FMU are a parameter
  (\<open>imp_fmi2\<close>, \<open>imp_fmi3\<close>), with the arguments the importer leaves constant fixed; so are the operations
  on doubles, the system calls and what the encoder makes of a null pointer (\<open>il_encode_null\<close>).
  The console output is not modelled.
\<close>

record 'n imp_lib =
  il_net :: "'n net_lib"
  il_strtod :: strtod
  il_fadd :: "f64 \<Rightarrow> f64 \<Rightarrow> f64"
  il_encode_null :: "bytes option"

record 'i imp_fmi2 =
  f2_instantiate :: "'i option option"
  f2_set_debug_logging :: "'i \<Rightarrow> bool \<Rightarrow> string list \<Rightarrow> (int \<times> 'i) option"
  f2_exit_init :: "'i \<Rightarrow> (int \<times> 'i) option"
  f2_get_real :: "'i \<Rightarrow> u32 list \<Rightarrow> f64 list \<Rightarrow> (int \<times> 'i \<times> f64 list) option"
  f2_get_string :: "'i \<Rightarrow> u32 list \<Rightarrow> bytes option list \<Rightarrow> (int \<times> 'i \<times> bytes option list) option"
  f2_set_real :: "'i \<Rightarrow> u32 list \<Rightarrow> f64 list \<Rightarrow> (int \<times> 'i) option"
  f2_set_string :: "'i \<Rightarrow> u32 list \<Rightarrow> bytes option list \<Rightarrow> (int \<times> 'i) option"
  f2_do_step :: "'i \<Rightarrow> f64 \<Rightarrow> f64 \<Rightarrow> (int \<times> 'i) option"
  f2_free :: "'i \<Rightarrow> unit option"

text \<open>The sizes of \<open>fmi3SetBinary\<close> may be written through, those of \<open>fmi3GetBinary\<close> are results.\<close>

record 'i imp_fmi3 =
  f3_instantiate :: "'i option option"
  f3_exit_init :: "'i \<Rightarrow> (int \<times> 'i) option"
  f3_get_float64 :: "'i \<Rightarrow> u32 list \<Rightarrow> f64 list \<Rightarrow> (int \<times> 'i \<times> f64 list) option"
  f3_get_binary :: "'i \<Rightarrow> u32 list \<Rightarrow> u64 list \<Rightarrow> bytes option list \<Rightarrow> (int \<times> 'i \<times> u64 list \<times> bytes option list) option"
  f3_set_float64 :: "'i \<Rightarrow> u32 list \<Rightarrow> f64 list \<Rightarrow> (int \<times> 'i) option"
  f3_set_binary :: "'i \<Rightarrow> u32 list \<Rightarrow> u64 list \<Rightarrow> bytes option list \<Rightarrow> (int \<times> 'i \<times> u64 list) option"
  f3_do_step :: "'i \<Rightarrow> f64 \<Rightarrow> f64 \<Rightarrow> (int \<times> 'i) option"
  f3_free :: "'i \<Rightarrow> unit option"

definition IMP_EINVAL :: int where "IMP_EINVAL = 22"

definition IMP_ENOSYS :: int where "IMP_ENOSYS = 38"

record ('i, 'n) cosim =
  co_inst :: 'i
  co_desc :: model_description
  co_net :: "'n network"
  co_csv :: "csv_desc option"
  co_time :: f64

abbreviation upd_real :: "(real_arrays \<Rightarrow> real_arrays) \<Rightarrow> ('i, 'n) cosim \<Rightarrow> ('i, 'n) cosim" where
  "upd_real h s \<equiv> s\<lparr>co_desc := (co_desc s)\<lparr>md_real := h (md_real (co_desc s))\<rparr>\<rparr>"

abbreviation upd_binary :: "(binary_arrays \<Rightarrow> binary_arrays) \<Rightarrow> ('i, 'n) cosim \<Rightarrow> ('i, 'n) cosim" where
  "upd_binary h s \<equiv> s\<lparr>co_desc := (co_desc s)\<lparr>md_binary := h (md_binary (co_desc s))\<rparr>\<rparr>"

abbreviation co_real :: "('i, 'n) cosim \<Rightarrow> real_arrays" where
  "co_real s \<equiv> md_real (co_desc s)"

abbreviation co_binary :: "('i, 'n) cosim \<Rightarrow> binary_arrays" where
  "co_binary s \<equiv> md_binary (co_desc s)"

definition feed_samples :: "'n imp_lib \<Rightarrow> ('i, 'n) cosim \<Rightarrow> ('i, 'n) cosim" where
  "feed_samples E s = (case apply_samples (il_strtod E) (co_time s) (co_csv s) (val_rx_real (co_real s)) of
     (csv, vals) \<Rightarrow> upd_real (\<lambda>r. r\<lparr>val_rx_real := vals\<rparr>) (s\<lparr>co_csv := csv\<rparr>))"

subsection \<open>The loop over the binary signals\<close>

definition NETWORK :: string where "NETWORK = ''one_network''"

text \<open>One output: decoded and pushed to the network, when it has a MIME type and a value.\<close>

definition push_output :: "'m clib \<Rightarrow> 'n imp_lib \<Rightarrow> bool \<Rightarrow> ('i, 'n) cosim \<Rightarrow> nat \<Rightarrow> ('i, 'n) cosim option" where
  "push_output L E bus s i = (case tx_binary_info (co_binary s) of None \<Rightarrow> Some s
     | Some infos \<Rightarrow> do {
         info \<leftarrow> nth_opt infos i;
         case Option.bind info bd_mime_type of None \<Rightarrow> Some s
         | Some mt \<Rightarrow> do {
             v \<leftarrow> nth_opt (val_tx_binary (co_binary s)) i;
             case v of None \<Rightarrow> Some s
             | Some text \<Rightarrow> do {
                 net \<leftarrow> network_push (il_net E) bus (co_net s) NETWORK mt (ascii85_decode L text);
                 Some (upd_binary (\<lambda>b. b\<lparr>val_tx_binary := (val_tx_binary b)[i := None]\<rparr>) (s\<lparr>co_net := net\<rparr>)) } } })"

definition push_outputs :: "'m clib \<Rightarrow> 'n imp_lib \<Rightarrow> bool \<Rightarrow> ('i, 'n) cosim \<Rightarrow> ('i, 'n) cosim option" where
  "push_outputs L E bus s = foldM (push_output L E bus) s [0..<length (vr_tx_binary (co_binary s))]"

text \<open>
  A frame is injected when the first output carries frames. The first entry is read also when
  there are no outputs, as long as the array is not null.
\<close>

definition hello_message :: "nat \<Rightarrow> bytes" where
  "hello_message step = map (\<lambda>c. of_char c) (''Hello from Importer ('' @ show_nat (step + 1) @ '')'') @ [0]"

definition frame_number :: "nat \<Rightarrow> int" where
  "frame_number step = sint (word_of_nat (42 + step * 10) :: u32)"

definition inject_frame :: "'n imp_lib \<Rightarrow> nat \<Rightarrow> ('i, 'n) cosim \<Rightarrow> ('i, 'n) cosim option" where
  "inject_frame E step s = (case tx_binary_info (co_binary s) of None \<Rightarrow> Some s
     | Some infos \<Rightarrow> do {
         info \<leftarrow> nth_opt infos 0;
         case info of None \<Rightarrow> Some s
         | Some d \<Rightarrow> (case bd_mime_type d of None \<Rightarrow> Some s
             | Some mt \<Rightarrow> do {
                 ty \<leftarrow> bd_type d;
                 if ty \<noteq> ''frame'' then Some s
                 else Some (s\<lparr>co_net := network_inject_frame (il_net E) (co_net s) NETWORK mt (frame_number step) (hello_message step)\<rparr>) }) })"

text \<open>One input: what the network has, encoded.\<close>

definition pull_input :: "'m clib \<Rightarrow> 'n imp_lib \<Rightarrow> ('i, 'n) cosim \<Rightarrow> nat \<Rightarrow> ('i, 'n) cosim option" where
  "pull_input L E s i = (case rx_binary_info (co_binary s) of None \<Rightarrow> Some s
     | Some infos \<Rightarrow> do {
         info \<leftarrow> nth_opt infos i;
         d \<leftarrow> info;
         case bd_mime_type d of None \<Rightarrow> Some s
         | Some mt \<Rightarrow> (case network_pull (il_net E) (co_net s) NETWORK mt of (bs, net) \<Rightarrow> do {
             vals \<leftarrow> upd_opt (val_rx_binary (co_binary s)) i (if bs = [] then il_encode_null E else Some (ascii85_encode L bs));
             Some (upd_binary (\<lambda>b. b\<lparr>val_rx_binary := vals\<rparr>) (s\<lparr>co_net := net\<rparr>)) }) })"

definition pull_inputs :: "'m clib \<Rightarrow> 'n imp_lib \<Rightarrow> ('i, 'n) cosim \<Rightarrow> ('i, 'n) cosim option" where
  "pull_inputs L E s = foldM (pull_input L E) s [0..<length (vr_rx_binary (co_binary s))]"

definition exchange_binary :: "'m clib \<Rightarrow> 'n imp_lib \<Rightarrow> bool \<Rightarrow> nat \<Rightarrow> ('i, 'n) cosim \<Rightarrow> ('i, 'n) cosim option" where
  "exchange_binary L E bus step s = do {
     s1 \<leftarrow> push_outputs L E bus (s\<lparr>co_net := network_truncate (il_net E) (co_net s)\<rparr>);
     s2 \<leftarrow> inject_frame E step s1;
     pull_inputs L E s2 }"

definition release_inputs :: "('i, 'n) cosim \<Rightarrow> ('i, 'n) cosim" where
  "release_inputs s = upd_binary (\<lambda>b. b\<lparr>val_rx_binary := map (\<lambda>_. None) (val_rx_binary b)\<rparr>) s"

definition advance :: "'n imp_lib \<Rightarrow> f64 \<Rightarrow> ('i, 'n) cosim \<Rightarrow> ('i, 'n) cosim" where
  "advance E step_size s = feed_samples E (s\<lparr>co_time := il_fadd E (co_time s) step_size\<rparr>)"

text \<open>\<open>strdup\<close> copies what the FMU returns up to its first NUL.\<close>

definition duplicate_texts :: "bytes option list \<Rightarrow> bytes option list" where
  "duplicate_texts xs = map (map_option (takeWhile (\<lambda>b. b \<noteq> 0))) xs"

subsection \<open>FMI 2\<close>

text \<open>The status of every call is ignored (that of the step is printed).\<close>

definition fmu2_step :: "'m clib \<Rightarrow> 'n imp_lib \<Rightarrow> bool \<Rightarrow> 'i imp_fmi2 \<Rightarrow> f64 \<Rightarrow> ('i, 'n) cosim \<Rightarrow> nat \<Rightarrow> ('i, 'n) cosim option" where
  "fmu2_step L E bus F step_size s step = do {
     s1 \<leftarrow> exchange_binary L E bus step s;
     (_, i1) \<leftarrow> f2_set_string F (co_inst s1) (vr_rx_binary (co_binary s1)) (val_rx_binary (co_binary s1));
     let s2 = release_inputs s1;
     (_, i2) \<leftarrow> f2_set_real F i1 (vr_rx_real (co_real s2)) (val_rx_real (co_real s2));
     (_, i3) \<leftarrow> f2_do_step F i2 (co_time s2) step_size;
     (_, i4, reals) \<leftarrow> f2_get_real F i3 (vr_tx_real (co_real s2)) (val_tx_real (co_real s2));
     (_, i5, texts) \<leftarrow> f2_get_string F i4 (vr_tx_binary (co_binary s2)) (val_tx_binary (co_binary s2));
     Some (advance E step_size (upd_real (\<lambda>r. r\<lparr>val_tx_real := reals\<rparr>)
       (upd_binary (\<lambda>b. b\<lparr>val_tx_binary := duplicate_texts texts\<rparr>) (s2\<lparr>co_inst := i5\<rparr>)))) }"

definition start_cosim :: "'n imp_lib \<Rightarrow> 'i \<Rightarrow> model_description \<Rightarrow> csv_desc option \<Rightarrow> ('i, 'n) cosim" where
  "start_cosim E inst desc csv = feed_samples E \<lparr>co_inst = inst, co_desc = desc, co_net = no_network, co_csv = csv, co_time = 0\<rparr>"

definition run_fmu2_cosim ::
  "'m clib \<Rightarrow> 'n imp_lib \<Rightarrow> bool \<Rightarrow> (string \<Rightarrow> bool) \<Rightarrow> 'i imp_fmi2 \<Rightarrow> model_description \<Rightarrow> f64 \<Rightarrow> u32 \<Rightarrow> csv_desc option
     \<Rightarrow> (int \<times> model_description) option" where
  "run_fmu2_cosim L E bus dlsym F desc step_size steps csv =
    (if \<not> dlsym ''fmi2Instantiate'' then Some (IMP_EINVAL, desc)
     else do {
       inst \<leftarrow> f2_instantiate F;
       case inst of None \<Rightarrow> Some (IMP_EINVAL, desc)
       | Some i0 \<Rightarrow>
         if \<not> dlsym ''fmi2SetDebugLogging'' then Some (IMP_EINVAL, desc)
         else do {
           (_, i1) \<leftarrow> f2_set_debug_logging F i0 True [''All''];
           if \<not> dlsym ''fmi2ExitInitializationMode'' then Some (IMP_EINVAL, desc)
           else do {
             (_, i2) \<leftarrow> f2_exit_init F i1;
             if \<not> dlsym ''fmi2GetReal'' \<or> \<not> dlsym ''fmi2GetString'' then Some (IMP_EINVAL, desc)
             else do {
               let s0 = start_cosim E i2 desc csv;
               if \<not> dlsym ''fmi2SetReal'' \<or> \<not> dlsym ''fmi2SetString'' \<or> \<not> dlsym ''fmi2DoStep'' then Some (IMP_EINVAL, co_desc s0)
               else do {
                 s1 \<leftarrow> foldM (fmu2_step L E bus F step_size) s0 [0..<unat steps];
                 if \<not> dlsym ''fmi2FreeInstance'' then Some (IMP_EINVAL, co_desc s1)
                 else do { _ \<leftarrow> f2_free F (co_inst s1); Some (0, co_desc s1) } } } } } })"

subsection \<open>FMI 3\<close>

text \<open>The sizes given for the inputs are those of the arrays, which nothing sets.\<close>

definition fmu3_step :: "'m clib \<Rightarrow> 'n imp_lib \<Rightarrow> bool \<Rightarrow> 'i imp_fmi3 \<Rightarrow> f64 \<Rightarrow> ('i, 'n) cosim \<Rightarrow> nat \<Rightarrow> ('i, 'n) cosim option" where
  "fmu3_step L E bus F step_size s step = do {
     s1 \<leftarrow> exchange_binary L E bus step s;
     (_, i1, sizes) \<leftarrow> f3_set_binary F (co_inst s1) (vr_rx_binary (co_binary s1)) (val_size_rx_binary (co_binary s1))
        (val_rx_binary (co_binary s1));
     let s2 = release_inputs (upd_binary (\<lambda>b. b\<lparr>val_size_rx_binary := sizes\<rparr>) s1);
     (_, i2) \<leftarrow> f3_set_float64 F i1 (vr_rx_real (co_real s2)) (val_rx_real (co_real s2));
     (_, i3) \<leftarrow> f3_do_step F i2 (co_time s2) step_size;
     (_, i4, reals) \<leftarrow> f3_get_float64 F i3 (vr_tx_real (co_real s2)) (val_tx_real (co_real s2));
     (_, i5, tx_sizes, texts) \<leftarrow> f3_get_binary F i4 (vr_tx_binary (co_binary s2)) (val_size_tx_binary (co_binary s2))
        (val_tx_binary (co_binary s2));
     Some (advance E step_size (upd_real (\<lambda>r. r\<lparr>val_tx_real := reals\<rparr>)
       (upd_binary (\<lambda>b. b\<lparr>val_tx_binary := duplicate_texts texts, val_size_tx_binary := tx_sizes\<rparr>) (s2\<lparr>co_inst := i5\<rparr>)))) }"

definition run_fmu3_cosim ::
  "'m clib \<Rightarrow> 'n imp_lib \<Rightarrow> bool \<Rightarrow> (string \<Rightarrow> bool) \<Rightarrow> 'i imp_fmi3 \<Rightarrow> model_description \<Rightarrow> f64 \<Rightarrow> u32 \<Rightarrow> csv_desc option
     \<Rightarrow> (int \<times> model_description) option" where
  "run_fmu3_cosim L E bus dlsym F desc step_size steps csv =
    (if \<not> dlsym ''fmi3InstantiateCoSimulation'' then Some (IMP_EINVAL, desc)
     else do {
       inst \<leftarrow> f3_instantiate F;
       case inst of None \<Rightarrow> Some (IMP_EINVAL, desc)
       | Some i0 \<Rightarrow>
         if \<not> dlsym ''fmi3ExitInitializationMode'' then Some (IMP_EINVAL, desc)
         else do {
           (_, i2) \<leftarrow> f3_exit_init F i0;
           if \<not> dlsym ''fmi3GetFloat64'' \<or> \<not> dlsym ''fmi3GetBinary'' then Some (IMP_EINVAL, desc)
           else do {
             let s0 = start_cosim E i2 desc csv;
             if \<not> dlsym ''fmi3SetFloat64'' \<or> \<not> dlsym ''fmi3SetBinary'' \<or> \<not> dlsym ''fmi3DoStep'' then Some (IMP_EINVAL, co_desc s0)
             else do {
               s1 \<leftarrow> foldM (fmu3_step L E bus F step_size) s0 [0..<unat steps];
               if \<not> dlsym ''fmi3FreeInstance'' then Some (IMP_EINVAL, co_desc s1)
               else do { _ \<leftarrow> f3_free F (co_inst s1); Some (0, co_desc s1) } } } } })"

subsection \<open>The program\<close>

text \<open>
  The arguments as \<open>getopt_long\<close> delivers them: the options in order, each with its argument, and
  the other words. The first pass only looks for the help, the second takes the options; one it
  does not know ends the program. A long option without its optional argument leaves the platform
  null.
\<close>

record imp_args =
  ia_step_size :: f64
  ia_steps :: u32
  ia_path :: "string option"
  ia_platform :: "string option"
  ia_signal_bus :: bool
  ia_csv :: "string option"

text \<open>0.0005 seconds and ten steps.\<close>

definition default_args :: imp_args where
  "default_args = \<lparr>ia_step_size = 0x3F40624DD2F1A9FC, ia_steps = 10, ia_path = None, ia_platform = Some ''linux-amd64'',
     ia_signal_bus = False, ia_csv = None\<rparr>"

definition take_option :: "strtod \<Rightarrow> imp_args \<Rightarrow> char \<times> string option \<Rightarrow> exited + imp_args" where
  "take_option strtod a opt = (case opt of (c, arg) \<Rightarrow>
     if c = CHR ''h'' \<or> c = CHR ''v'' then Inr a
     else if c = CHR ''s'' then Inr (case arg of None \<Rightarrow> a | Some x \<Rightarrow> a\<lparr>ia_step_size := fst (strtod x)\<rparr>)
     else if c = CHR ''X'' then Inr (case arg of None \<Rightarrow> a | Some x \<Rightarrow> a\<lparr>ia_steps := atoi_u32 x\<rparr>)
     else if c = CHR ''P'' then Inr (a\<lparr>ia_platform := arg\<rparr>)
     else if c = CHR ''B'' then Inr (a\<lparr>ia_signal_bus := True\<rparr>)
     else if c = CHR ''c'' then Inr (a\<lparr>ia_csv := arg\<rparr>)
     else Inl (Exit 1))"

fun take_options :: "strtod \<Rightarrow> imp_args \<Rightarrow> (char \<times> string option) list \<Rightarrow> exited + imp_args" where
  "take_options strtod a [] = Inr a"
| "take_options strtod a (opt # opts) = (case take_option strtod a opt of Inl e \<Rightarrow> Inl e | Inr b \<Rightarrow> take_options strtod b opts)"

definition parse_arguments :: "strtod \<Rightarrow> (char \<times> string option) list \<Rightarrow> string list \<Rightarrow> exited + imp_args" where
  "parse_arguments strtod opts words =
    (if CHR ''h'' \<in> fst ` set opts then Inl (Exit 0)
     else map_sum id (\<lambda>a. case words of [] \<Rightarrow> a | w # _ \<Rightarrow> a\<lparr>ia_path := Some w\<rparr>) (take_options strtod default_args opts))"

text \<open>The file system and the loader: the working directory, the change to another (with its \<open>errno\<close>),
  the parsed model description of that directory, the CSV files and the libraries.\<close>

record 'i imp_system =
  is_cwd :: string
  is_chdir :: "string \<Rightarrow> int option"
  is_xpath :: xpath
  is_model :: "string \<Rightarrow> xml_node option"
  is_fopen :: "string \<Rightarrow> string option"
  is_dlopen :: "string \<Rightarrow> ((string \<Rightarrow> bool) \<times> 'i imp_fmi2 \<times> 'i imp_fmi3) option"

text \<open>\<open>errno || EINVAL\<close> is the truth value 1.\<close>

definition run_cosim ::
  "'m clib \<Rightarrow> 'n imp_lib \<Rightarrow> (string \<Rightarrow> bool) \<times> 'i imp_fmi2 \<times> 'i imp_fmi3 \<Rightarrow> imp_args \<Rightarrow> model_description \<Rightarrow> csv_desc option
     \<Rightarrow> int option" where
  "run_cosim L E lib a desc csv = (case lib of (dlsym, F2, F3) \<Rightarrow>
     if atoi (md_version desc) = 2 then
       map_option fst (run_fmu2_cosim L E (ia_signal_bus a) dlsym F2 desc (ia_step_size a) (ia_steps a) csv)
     else if atoi (md_version desc) = 3 then
       map_option fst (run_fmu3_cosim L E (ia_signal_bus a) dlsym F3 desc (ia_step_size a) (ia_steps a) csv)
     else Some IMP_EINVAL)"

definition open_samples :: "'n imp_lib \<Rightarrow> 'i imp_system \<Rightarrow> imp_args \<Rightarrow> model_description \<Rightarrow> exited + csv_desc option" where
  "open_samples E S a desc = (case csv_open (is_fopen S) (ia_csv a) of Inl e \<Rightarrow> Inl e
     | Inr csv \<Rightarrow> csv_index (il_strtod E) (vr_rx_real (md_real desc)) csv)"

definition importer_main ::
  "'m clib \<Rightarrow> 'n imp_lib \<Rightarrow> 'i imp_system \<Rightarrow> bool \<Rightarrow> key_order \<Rightarrow> (char \<times> string option) list \<Rightarrow> string list \<Rightarrow> int option" where
  "importer_main L E S c0 hk opts words = (case parse_arguments (il_strtod E) opts words of
      Inl (Exit n) \<Rightarrow> Some n
    | Inr a \<Rightarrow>
        (let path = (case ia_path a of None \<Rightarrow> is_cwd S | Some p \<Rightarrow> p)
         in if is_chdir S path \<noteq> None then Some 1
         else do {
           platform \<leftarrow> ia_platform a;
           md \<leftarrow> parse_model_desc (il_net E) (il_strtod E) (is_xpath S) c0 hk (is_model S path) platform;
           case md of None \<Rightarrow> Some IMP_EINVAL
           | Some desc \<Rightarrow> (case is_dlopen S (md_lib_path desc) of None \<Rightarrow> Some IMP_ENOSYS
               | Some lib \<Rightarrow> (case open_samples E S a desc of Inl (Exit n) \<Rightarrow> Some n
                   | Inr csv \<Rightarrow> run_cosim L E lib a desc csv)) }))"

end
