(* ===== verification/ImporterNet.thy ===== *)
theory ImporterNet
  imports ImporterRun
begin

section \<open>The exchange of binary signals by the importer\<close>

text \<open>
  What the network of the importer carries between two steps: an abstraction of its codecs by
  their content, the operations of the network over it, and the loops over the outputs and the
  inputs of the FMU.
\<close>

subsection \<open>What the network carries\<close>

text \<open>The stream of a codec, by its content: writing at the end appends, reading from the start
  brings all of it, truncating empties it.\<close>

definition net_ok :: "'n net_lib \<Rightarrow> ('n \<Rightarrow> bytes) \<Rightarrow> bool" where
  "net_ok N cont \<longleftrightarrow> (\<forall>mt. nb_create N mt \<noteq> None) \<and> (\<forall>n nc. cont (nb_stream N n nc) = []) \<and>
     (\<forall>nc bs. cont (nb_stream_write N (nb_seek_end N nc) bs) = cont nc @ bs) \<and>
     (\<forall>nc. fst (nb_stream_read N (nb_seek_set N nc)) = cont nc \<and> cont (snd (nb_stream_read N (nb_seek_set N nc))) = cont nc) \<and>
     (\<forall>nc. cont (nb_truncate N nc) = [])"

definition live :: "'n network \<Rightarrow> string \<Rightarrow> bool" where
  "live w name \<longleftrightarrow> (\<forall>s. find_network w name = Some s \<longrightarrow> ns_nc s \<noteq> None)"

definition carried :: "('n \<Rightarrow> bytes) \<Rightarrow> 'n network \<Rightarrow> string \<Rightarrow> bytes" where
  "carried cont w name = (case Option.bind (find_network w name) ns_nc of None \<Rightarrow> [] | Some nc \<Rightarrow> cont nc)"

lemma find_map_keep: "(\<And>x. P (h x) = P x) \<Longrightarrow> find P (map h xs) = map_option h (find P xs)"
  by (induction xs) simp_all

lemma find_snoc: "find P xs = None \<Longrightarrow> find P (xs @ ys) = find P ys"
  by (induction xs) (auto split: if_splits)

lemma find_put_codec:
  "find_network (put_codec w name nc) name = map_option (\<lambda>s. s\<lparr>ns_nc := Some nc\<rparr>) (find_network w name)"
proof -
  have e: "find_network (put_codec w name nc) name =
      map_option (\<lambda>s. if ns_name s = name then s\<lparr>ns_nc := Some nc\<rparr> else s) (find_network w name)"
    unfolding find_network_def put_codec_def by (simp add: find_map_keep)
  show ?thesis
  proof (cases "find_network w name")
    case (Some s)
    then have "ns_name s = name" by (auto simp: find_network_def find_Some_iff)
    with Some e show ?thesis by simp
  qed (use e in simp)
qed

lemma get_network_signal_run:
  assumes "net_ok N cont" "live w name"
  shows "\<exists>s w1 nc. get_network_signal N w name (Some mt) = (Some s, w1) \<and> ns_nc s = Some nc \<and>
    find_network w1 name = Some s \<and> cont nc = carried cont w name"
proof (cases "find_network w name")
  case None
  then have "find_network (w\<lparr>nw_signals := nw_signals w @ [s]\<rparr>) name = Some s" if "ns_name s = name" for s
    using that by (simp add: find_network_def find_snoc)
  moreover obtain nc where "nb_create N mt = Some nc" using assms(1) unfolding net_ok_def by blast
  moreover have "cont (nb_stream N 1024 nc) = []" for nc using assms(1) by (simp add: net_ok_def)
  ultimately show ?thesis using None by (simp add: get_network_signal_def carried_def Let_def)
next
  case (Some s)
  with assms(2) obtain nc where "ns_nc s = Some nc" by (auto simp: live_def)
  with Some show ?thesis by (simp add: get_network_signal_def carried_def)
qed

lemma put_codec_carried: "find_network w name = Some s \<Longrightarrow> carried cont (put_codec w name nc) name = cont nc \<and> live (put_codec w name nc) name"
  by (simp add: carried_def live_def find_put_codec)

lemma network_push_run:
  assumes "net_ok N cont" "live w name"
  shows "\<exists>w1. network_push N True w name mt buf = Some w1 \<and> live w1 name \<and> carried cont w1 name = carried cont w name @ buf"
proof (cases "buf = []")
  case False
  from get_network_signal_run [OF assms] obtain s w1 nc where
    g: "get_network_signal N w name (Some mt) = (Some s, w1)" "ns_nc s = Some nc" "find_network w1 name = Some s" "cont nc = carried cont w name" by blast
  have "cont (nb_stream_write N (nb_seek_end N nc) buf) = cont nc @ buf" using assms(1) by (simp add: net_ok_def)
  with put_codec_carried [OF g(3), of cont "nb_stream_write N (nb_seek_end N nc) buf"] g False show ?thesis
    by (simp add: network_push_def)
qed (use assms(2) in \<open>simp add: network_push_def\<close>)

lemma network_pull_run:
  assumes "net_ok N cont" "live w name"
  shows "\<exists>w1. network_pull N w name mt = (carried cont w name, w1) \<and> live w1 name \<and> carried cont w1 name = carried cont w name"
proof -
  from get_network_signal_run [OF assms] obtain s w1 nc where
    g: "get_network_signal N w name (Some mt) = (Some s, w1)" "ns_nc s = Some nc" "find_network w1 name = Some s" "cont nc = carried cont w name" by blast
  obtain bs nc1 where r: "nb_stream_read N (nb_seek_set N nc) = (bs, nc1)" by fastforce
  then have "bs = cont nc" "cont nc1 = cont nc" using assms(1) by (auto simp: net_ok_def dest: spec [of _ nc])
  with put_codec_carried [OF g(3), of cont nc1] g r show ?thesis by (simp add: network_pull_def)
qed

lemma network_truncate_run:
  assumes "net_ok N cont" "live w name"
  shows "live (network_truncate N w) name \<and> carried cont (network_truncate N w) name = []"
proof -
  have f: "find_network (network_truncate N w) name = map_option (\<lambda>s. s\<lparr>ns_nc := map_option (nb_truncate N) (ns_nc s)\<rparr>) (find_network w name)"
    unfolding find_network_def network_truncate_def by (simp add: find_map_keep)
  from assms f show ?thesis by (cases "find_network w name") (auto simp: live_def carried_def net_ok_def split: option.split)
qed

subsection \<open>From the outputs to the inputs\<close>

definition decoded_value :: "'m clib \<Rightarrow> bytes option \<Rightarrow> bytes" where
  "decoded_value L v = (case v of None \<Rightarrow> [] | Some text \<Rightarrow> ascii85_decode L text)"

definition infos_ready :: "binary_data option list option \<Rightarrow> nat \<Rightarrow> bool" where
  "infos_ready infos n \<longleftrightarrow> (\<exists>ds. infos = Some (map Some ds) \<and> length ds = n \<and> (\<forall>d \<in> set ds. bd_mime_type d \<noteq> None))"

text \<open>All binary variables have a MIME type, and the first output is not one of frames.\<close>

definition binary_ready :: "binary_arrays \<Rightarrow> bool" where
  "binary_ready b \<longleftrightarrow> infos_ready (tx_binary_info b) (length (vr_tx_binary b)) \<and> infos_ready (rx_binary_info b) (length (vr_rx_binary b)) \<and>
     length (val_tx_binary b) = length (vr_tx_binary b) \<and> length (val_rx_binary b) = length (vr_rx_binary b) \<and>
     (\<exists>d ds t. tx_binary_info b = Some (Some d # ds) \<and> bd_type d = Some t \<and> t \<noteq> ''frame'')"

lemma infos_ready_nth:
  assumes "infos_ready infos n" "i < n"
  shows "\<exists>xs d mt. infos = Some xs \<and> nth_opt xs i = Some (Some d) \<and> bd_mime_type d = Some mt"
proof -
  from assms(1) obtain ds where d: "infos = Some (map Some ds)" "length ds = n" "\<forall>d \<in> set ds. bd_mime_type d \<noteq> None"
    by (auto simp: infos_ready_def)
  with assms(2) obtain mt where "bd_mime_type (ds ! i) = Some mt" by fastforce
  with d assms(2) show ?thesis by (auto simp: nth_opt_def)
qed

lemma push_output_run:
  assumes "net_ok (il_net E) cont" "live (co_net s) NETWORK" "infos_ready (tx_binary_info (co_binary s)) n"
    "i < n" "length (val_tx_binary (co_binary s)) = n"
  shows "\<exists>w. push_output L E True s i = Some (upd_binary (\<lambda>b. b\<lparr>val_tx_binary := (val_tx_binary b)[i := None]\<rparr>) (s\<lparr>co_net := w\<rparr>)) \<and>
    live w NETWORK \<and> carried cont w NETWORK = carried cont (co_net s) NETWORK @ decoded_value L (val_tx_binary (co_binary s) ! i)"
proof -
  from infos_ready_nth [OF assms(3,4)] obtain xs d mt where
    i: "tx_binary_info (co_binary s) = Some xs" "nth_opt xs i = Some (Some d)" "bd_mime_type d = Some mt" by blast
  have v: "nth_opt (val_tx_binary (co_binary s)) i = Some (val_tx_binary (co_binary s) ! i)" using assms(4,5) by (simp add: nth_opt_def)
  show ?thesis
  proof (cases "val_tx_binary (co_binary s) ! i")
    case None
    then have "(val_tx_binary (co_binary s))[i := None] = val_tx_binary (co_binary s)" by (metis list_update_id)
    with i v None assms(2) show ?thesis by (intro exI [of _ "co_net s"]) (simp add: push_output_def decoded_value_def)
  next
    case (Some tx)
    from network_push_run [OF assms(1,2), of mt "ascii85_decode L tx"] i v Some show ?thesis
      by (auto simp: push_output_def decoded_value_def)
  qed
qed

lemma push_outputs_run:
  assumes "net_ok (il_net E) cont" "live (co_net s) NETWORK" "carried cont (co_net s) NETWORK = []" "binary_ready (co_binary s)"
  shows "\<exists>w. push_outputs L E True s = Some (upd_binary (\<lambda>b. b\<lparr>val_tx_binary := map (\<lambda>_. None) (val_tx_binary b)\<rparr>) (s\<lparr>co_net := w\<rparr>)) \<and>
    live w NETWORK \<and> carried cont w NETWORK = concat (map (decoded_value L) (val_tx_binary (co_binary s)))"
proof -
  let ?v = "val_tx_binary (co_binary s)"
  let ?s = "\<lambda>n w. upd_binary (\<lambda>b. b\<lparr>val_tx_binary := map (\<lambda>_. None) (take n ?v) @ drop n ?v\<rparr>) (s\<lparr>co_net := w\<rparr>)"
  have r: "infos_ready (tx_binary_info (co_binary s)) (length ?v)" "length ?v = length (vr_tx_binary (co_binary s))"
    using assms(4) by (simp_all add: binary_ready_def)
  have "n \<le> length ?v \<Longrightarrow> \<exists>w. foldM (push_output L E True) s [0..<n] = Some (?s n w) \<and> live w NETWORK \<and>
      carried cont w NETWORK = concat (map (decoded_value L) (take n ?v))" for n
  proof (induction n)
    case 0
    have "?s 0 (co_net s) = s" by simp
    with assms(2,3) show ?case by (intro exI [of _ "co_net s"]) simp
  next
    case (Suc n)
    then obtain w where w: "foldM (push_output L E True) s [0..<n] = Some (?s n w)" "live w NETWORK"
      "carried cont w NETWORK = concat (map (decoded_value L) (take n ?v))" by auto
    have n: "n < length ?v" using Suc.prems by simp
    have d: "drop n ?v = ?v ! n # drop (Suc n) ?v" using n by (simp add: Cons_nth_drop_Suc)
    have t: "take (Suc n) ?v = take n ?v @ [?v ! n]" using n by (simp add: take_Suc_conv_app_nth)
    from push_output_run [OF assms(1), of "?s n w" "length ?v" n L] w(2) r(1) n obtain w1 where
      "push_output L E True (?s n w) n = Some (upd_binary (\<lambda>b. b\<lparr>val_tx_binary := (val_tx_binary b)[n := None]\<rparr>) ((?s n w)\<lparr>co_net := w1\<rparr>))"
      "live w1 NETWORK" "carried cont w1 NETWORK = carried cont w NETWORK @ decoded_value L (?v ! n)"
      by (auto simp: nth_append)
    moreover have "(map (\<lambda>_. None) (take n ?v) @ drop n ?v)[n := None] = map (\<lambda>_. None) (take (Suc n) ?v) @ drop (Suc n) ?v"
      using n by (simp add: d t list_update_append)
    ultimately show ?case using w by (intro exI [of _ w1]) (simp add: foldM_append t)
  qed
  from this [of "length ?v"] r(2) show ?thesis by (simp add: push_outputs_def)
qed

lemma inject_nothing: "binary_ready (co_binary s) \<Longrightarrow> inject_frame E k s = Some s"
  unfolding binary_ready_def by (auto simp: inject_frame_def nth_opt_def split: option.split)

definition encoded_value :: "'m clib \<Rightarrow> 'n imp_lib \<Rightarrow> bytes \<Rightarrow> bytes option" where
  "encoded_value L E bs = (if bs = [] then il_encode_null E else Some (ascii85_encode L bs))"

lemma pull_input_run:
  assumes "net_ok (il_net E) cont" "live (co_net s) NETWORK" "infos_ready (rx_binary_info (co_binary s)) n"
    "i < n" "length (val_rx_binary (co_binary s)) = n"
  shows "\<exists>w. pull_input L E s i = Some (upd_binary (\<lambda>b. b\<lparr>val_rx_binary :=
      (val_rx_binary b)[i := encoded_value L E (carried cont (co_net s) NETWORK)]\<rparr>) (s\<lparr>co_net := w\<rparr>)) \<and>
    live w NETWORK \<and> carried cont w NETWORK = carried cont (co_net s) NETWORK"
proof -
  from infos_ready_nth [OF assms(3,4)] obtain xs d mt where
    i: "rx_binary_info (co_binary s) = Some xs" "nth_opt xs i = Some (Some d)" "bd_mime_type d = Some mt" by blast
  from network_pull_run [OF assms(1,2), of mt] obtain w where
    w: "network_pull (il_net E) (co_net s) NETWORK mt = (carried cont (co_net s) NETWORK, w)" "live w NETWORK"
      "carried cont w NETWORK = carried cont (co_net s) NETWORK" by blast
  then show ?thesis using i assms(4,5) by (intro exI [of _ w]) (simp add: pull_input_def encoded_value_def)
qed

lemma pull_inputs_run:
  assumes "net_ok (il_net E) cont" "live (co_net s) NETWORK" "binary_ready (co_binary s)"
  shows "\<exists>w. pull_inputs L E s = Some (upd_binary (\<lambda>b. b\<lparr>val_rx_binary :=
      map (\<lambda>_. encoded_value L E (carried cont (co_net s) NETWORK)) (val_rx_binary b)\<rparr>) (s\<lparr>co_net := w\<rparr>)) \<and>
    live w NETWORK \<and> carried cont w NETWORK = carried cont (co_net s) NETWORK"
proof -
  let ?v = "val_rx_binary (co_binary s)" and ?x = "encoded_value L E (carried cont (co_net s) NETWORK)"
  let ?s = "\<lambda>n w. upd_binary (\<lambda>b. b\<lparr>val_rx_binary := map (\<lambda>_. ?x) (take n ?v) @ drop n ?v\<rparr>) (s\<lparr>co_net := w\<rparr>)"
  have r: "infos_ready (rx_binary_info (co_binary s)) (length ?v)" "length ?v = length (vr_rx_binary (co_binary s))"
    using assms(3) by (simp_all add: binary_ready_def)
  have "n \<le> length ?v \<Longrightarrow> \<exists>w. foldM (pull_input L E) s [0..<n] = Some (?s n w) \<and> live w NETWORK \<and>
      carried cont w NETWORK = carried cont (co_net s) NETWORK" for n
  proof (induction n)
    case 0
    have "?s 0 (co_net s) = s" by simp
    with assms(2) show ?case by (intro exI [of _ "co_net s"]) simp
  next
    case (Suc n)
    then obtain w where w: "foldM (pull_input L E) s [0..<n] = Some (?s n w)" "live w NETWORK"
      "carried cont w NETWORK = carried cont (co_net s) NETWORK" by auto
    have n: "n < length ?v" using Suc.prems by simp
    have d: "drop n ?v = ?v ! n # drop (Suc n) ?v" using n by (simp add: Cons_nth_drop_Suc)
    have t: "take (Suc n) ?v = take n ?v @ [?v ! n]" using n by (simp add: take_Suc_conv_app_nth)
    from pull_input_run [OF assms(1), of "?s n w" "length ?v" n L] w(2,3) r(1) n obtain w1 where
      "pull_input L E (?s n w) n = Some (upd_binary (\<lambda>b. b\<lparr>val_rx_binary := (val_rx_binary b)[n := ?x]\<rparr>) ((?s n w)\<lparr>co_net := w1\<rparr>))"
      "live w1 NETWORK" "carried cont w1 NETWORK = carried cont w NETWORK"
      by auto
    moreover have "(map (\<lambda>_. ?x) (take n ?v) @ drop n ?v)[n := ?x] = map (\<lambda>_. ?x) (take (Suc n) ?v) @ drop (Suc n) ?v"
      using n by (simp add: d t list_update_append)
    ultimately show ?case using w by (intro exI [of _ w1]) (simp add: foldM_append)
  qed
  from this [of "length ?v"] r(2) show ?thesis by (simp add: pull_inputs_def)
qed


subsection \<open>A network of byte lists\<close>

text \<open>A codec is its content and its position in it.\<close>

definition demo_net :: "(bytes \<times> nat) net_lib" where
  "demo_net = \<lparr>nb_create = (\<lambda>_. Some ([], 0)), nb_stat = (\<lambda>_ _. ((None, None), -1)), nb_stream = (\<lambda>_ _. ([], 0)),
     nb_seek_set = (\<lambda>(bs, _). (bs, 0)), nb_seek_end = (\<lambda>(bs, _). (bs, length bs)),
     nb_stream_write = (\<lambda>(bs, p) xs. (take p bs @ xs, p + length xs)),
     nb_stream_read = (\<lambda>(bs, p). (drop p bs, (bs, length bs))), nb_write = (\<lambda>nc _ _. nc), nb_flush = id,
     nb_read = (\<lambda>_. None), nb_truncate = (\<lambda>_. ([], 0))\<rparr>"

lemma demo_net_ok: "net_ok demo_net fst"
  by (auto simp: net_ok_def demo_net_def)

definition demo_imp :: "(bytes \<times> nat) imp_lib" where
  "demo_imp = \<lparr>il_net = demo_net, il_strtod = (\<lambda>_. (0, False)), il_fadd = (+), il_encode_null = None\<rparr>"


definition demo_binary :: binary_data where
  "demo_binary = \<lparr>bd_start = None, bd_mime_type = Some ''application/x-automotive-bus'', bd_type = Some ''pdu''\<rparr>"

text \<open>An FMU with two outputs, of which both have a value, and one input.\<close>

definition demo_cosim :: "bytes option list \<Rightarrow> (unit, bytes \<times> nat) cosim" where
  "demo_cosim vals = \<lparr>co_inst = (), co_desc = \<lparr>md_version = ''2'', md_lib_path = ''lib'',
     md_real = \<lparr>vr_rx_real = [], vr_tx_real = [], val_rx_real = [], val_tx_real = []\<rparr>,
     md_binary = \<lparr>vr_rx_binary = [1], vr_tx_binary = [2, 3], val_rx_binary = [None], val_tx_binary = vals,
       val_size_rx_binary = [0], val_size_tx_binary = [0, 0],
       rx_binary_info = Some [Some demo_binary], tx_binary_info = Some [Some demo_binary, Some demo_binary]\<rparr>\<rparr>,
     co_net = no_network, co_csv = None, co_time = 0\<rparr>"


end
