(* ===== verification/ImporterCosim.thy ===== *)
theory ImporterCosim
  imports ImporterNet CounterRun MclFmu
begin

section \<open>The importer drives an FMU\<close>

text \<open>
  The stepping loop of the importer over an FMU without binary variables, proved once for every
  FMU whose functions satisfy the locale, and the same loop over the modelled FMI 2 functions with
  the counter behind them.
\<close>

subsection \<open>Descriptions without binary variables\<close>

definition scalar_desc :: "u32 list \<Rightarrow> u32 list \<Rightarrow> model_description \<Rightarrow> bool" where
  "scalar_desc rx tx d \<longleftrightarrow> vr_rx_real (md_real d) = rx \<and> vr_tx_real (md_real d) = tx \<and>
     length (val_rx_real (md_real d)) = length rx \<and> length (val_tx_real (md_real d)) = length tx \<and>
     vr_rx_binary (md_binary d) = [] \<and> vr_tx_binary (md_binary d) = [] \<and>
     val_rx_binary (md_binary d) = [] \<and> val_tx_binary (md_binary d) = [] \<and> tx_binary_info (md_binary d) = None"

lemma assign_fields_length: "length (assign_fields st index i ts vals) = length vals"
  by (induction st index i ts vals rule: assign_fields.induct) (auto simp: Let_def split: prod.split option.split)

lemma apply_line_length: "length (foldl (apply_line st index) vals ps) = length vals"
  by (induction ps arbitrary: vals) (simp_all add: apply_line_def assign_fields_length)

lemma apply_samples_length: "length (snd (apply_samples st t c vals)) = length vals"
proof (cases c)
  case (Some d)
  obtain e w where a: "apply_due st t d vals = (e, w)" by (cases "apply_due st t d vals")
  from apply_due_pending [OF a] have "length w = length vals" by (simp add: apply_line_length)
  with a Some show ?thesis by (simp add: apply_samples_def)
qed (simp add: apply_samples_def)

lemma feed_samples_scalar:
  "scalar_desc rx tx (co_desc (feed_samples E s)) \<longleftrightarrow> scalar_desc rx tx (co_desc s)"
  "co_inst (feed_samples E s) = co_inst s" "val_tx_real (co_real (feed_samples E s)) = val_tx_real (co_real s)"
  using apply_samples_length [of "il_strtod E" "co_time s" "co_csv s" "val_rx_real (co_real s)"]
  by (cases "apply_samples (il_strtod E) (co_time s) (co_csv s) (val_rx_real (co_real s))",
      simp add: feed_samples_def scalar_desc_def)+

lemma exchange_scalar:
  assumes "scalar_desc rx tx (co_desc s)"
  shows "exchange_binary L E bus k s = Some (s\<lparr>co_net := network_truncate (il_net E) (co_net s)\<rparr>)"
  using assms by (simp add: exchange_binary_def push_outputs_def inject_frame_def pull_inputs_def scalar_desc_def)

subsection \<open>An FMU with scalar variables\<close>

text \<open>
  The abstract state \<open>'s\<close> is what the calls of the importer leave alone but for the step, which
  advances it; \<open>out s old\<close> are the values \<open>fmi2GetReal\<close> brings for the outputs \<open>tx\<close>.
\<close>

locale scalar_fmu =
  fixes F :: "'i imp_fmi2" and holds :: "'s \<Rightarrow> 'i \<Rightarrow> bool" and adv :: "'s \<Rightarrow> 's"
    and rx :: "u32 list" and tx :: "u32 list" and out :: "'s \<Rightarrow> f64 list \<Rightarrow> f64 list"
  assumes debug_run: "holds s i \<Longrightarrow> \<exists>st j. f2_set_debug_logging F i True [''All''] = Some (st, j) \<and> holds s j"
    and exit_run: "holds s i \<Longrightarrow> \<exists>st j. f2_exit_init F i = Some (st, j) \<and> holds s j"
    and set_string_run: "holds s i \<Longrightarrow> \<exists>st j. f2_set_string F i [] [] = Some (st, j) \<and> holds s j"
    and set_real_run: "holds s i \<Longrightarrow> length xs = length rx \<Longrightarrow> \<exists>st j. f2_set_real F i rx xs = Some (st, j) \<and> holds s j"
    and step_run: "holds s i \<Longrightarrow> \<exists>st j. f2_do_step F i t h = Some (st, j) \<and> holds (adv s) j"
    and get_real_run: "holds s i \<Longrightarrow> length xs = length tx \<Longrightarrow> \<exists>st j. f2_get_real F i tx xs = Some (st, j, out s xs) \<and> holds s j"
    and get_string_run: "holds s i \<Longrightarrow> \<exists>st j. f2_get_string F i [] [] = Some (st, j, []) \<and> holds s j"
    and free_run: "holds s i \<Longrightarrow> f2_free F i = Some ()"
    and out_length: "length xs = length tx \<Longrightarrow> length (out s xs) = length tx"
begin

lemma fmu2_step_run:
  assumes "holds s (co_inst c)" "scalar_desc rx tx (co_desc c)"
  shows "\<exists>c'. fmu2_step L E bus F h c k = Some c' \<and> holds (adv s) (co_inst c') \<and> scalar_desc rx tx (co_desc c') \<and>
    val_tx_real (co_real c') = out (adv s) (val_tx_real (co_real c))"
proof -
  let ?c1 = "c\<lparr>co_net := network_truncate (il_net E) (co_net c)\<rparr>"
  have d: "vr_rx_real (co_real c) = rx" "vr_tx_real (co_real c) = tx" "length (val_rx_real (co_real c)) = length rx"
    "length (val_tx_real (co_real c)) = length tx" "vr_rx_binary (co_binary c) = []" "vr_tx_binary (co_binary c) = []"
    "val_rx_binary (co_binary c) = []" "val_tx_binary (co_binary c) = []"
    using assms(2) by (simp_all add: scalar_desc_def)
  from set_string_run [OF assms(1)] obtain st1 i1 where 1: "f2_set_string F (co_inst c) [] [] = Some (st1, i1)" "holds s i1" by blast
  from set_real_run [OF 1(2) d(3)] obtain st2 i2 where 2: "f2_set_real F i1 rx (val_rx_real (co_real c)) = Some (st2, i2)" "holds s i2" by blast
  from step_run [OF 2(2)] obtain st3 i3 where 3: "f2_do_step F i2 (co_time c) h = Some (st3, i3)" "holds (adv s) i3" by blast
  from get_real_run [OF 3(2) d(4)] obtain st4 i4 where
    4: "f2_get_real F i3 tx (val_tx_real (co_real c)) = Some (st4, i4, out (adv s) (val_tx_real (co_real c)))" "holds (adv s) i4" by blast
  from get_string_run [OF 4(2)] obtain st5 i5 where 5: "f2_get_string F i4 [] [] = Some (st5, i5, [])" "holds (adv s) i5" by blast
  let ?c2 = "upd_real (\<lambda>r. r\<lparr>val_tx_real := out (adv s) (val_tx_real (co_real c))\<rparr>)
     (upd_binary (\<lambda>b. b\<lparr>val_tx_binary := []\<rparr>) ((release_inputs ?c1)\<lparr>co_inst := i5\<rparr>))"
  have "fmu2_step L E bus F h c k = Some (advance E h ?c2)"
    using 1(1) 2(1) 3(1) 4(1) 5(1) d by (simp add: fmu2_step_def exchange_scalar [OF assms(2)] release_inputs_def duplicate_texts_def)
  moreover have "scalar_desc rx tx (co_desc ?c2)"
    using assms(2) out_length [OF d(4)] by (simp add: scalar_desc_def release_inputs_def)
  ultimately show ?thesis using 5(2) by (simp add: advance_def feed_samples_scalar)
qed

lemma fmu2_loop_run:
  assumes "holds s (co_inst c)" "scalar_desc rx tx (co_desc c)"
  shows "\<exists>c'. foldM (fmu2_step L E bus F h) c [0..<n] = Some c' \<and> holds ((adv ^^ n) s) (co_inst c') \<and> scalar_desc rx tx (co_desc c') \<and>
    (0 < n \<longrightarrow> (\<exists>old. val_tx_real (co_real c') = out ((adv ^^ n) s) old))"
proof (induction n)
  case 0
  with assms show ?case by simp
next
  case (Suc n)
  then obtain c1 where c1: "foldM (fmu2_step L E bus F h) c [0..<n] = Some c1" "holds ((adv ^^ n) s) (co_inst c1)"
    "scalar_desc rx tx (co_desc c1)" by blast
  from fmu2_step_run [OF c1(2,3)] obtain c2 where c2: "fmu2_step L E bus F h c1 n = Some c2" "holds (adv ((adv ^^ n) s)) (co_inst c2)"
    "scalar_desc rx tx (co_desc c2)" "val_tx_real (co_real c2) = out (adv ((adv ^^ n) s)) (val_tx_real (co_real c1))" by blast
  with c1(1) show ?case by (intro exI [of _ c2]) (auto simp: foldM_append)
qed

lemma run_returns:
  assumes "f2_instantiate F = Some (Some i)" "holds s i" "scalar_desc rx tx desc" "\<And>n. dlsym n"
  shows "\<exists>d. run_fmu2_cosim L E bus dlsym F desc h steps csv = Some (0, d) \<and> scalar_desc rx tx d \<and>
    (0 < steps \<longrightarrow> (\<exists>old. val_tx_real (md_real d) = out ((adv ^^ unat steps) s) old))"
proof -
  from debug_run [OF assms(2)] obtain st1 i1 where 1: "f2_set_debug_logging F i True [''All''] = Some (st1, i1)" "holds s i1" by blast
  from exit_run [OF 1(2)] obtain st2 i2 where 2: "f2_exit_init F i1 = Some (st2, i2)" "holds s i2" by blast
  let ?c = "start_cosim E i2 desc csv"
  have c: "holds s (co_inst ?c)" "scalar_desc rx tx (co_desc ?c)" using 2(2) assms(3) by (simp_all add: start_cosim_def feed_samples_scalar)
  from fmu2_loop_run [OF c, of L E bus h "unat steps"] obtain c' where
    c': "foldM (fmu2_step L E bus F h) ?c [0..<unat steps] = Some c'" "holds ((adv ^^ unat steps) s) (co_inst c')"
      "scalar_desc rx tx (co_desc c')" "0 < unat steps \<longrightarrow> (\<exists>old. val_tx_real (co_real c') = out ((adv ^^ unat steps) s) old)"
    by (elim exE conjE) (rule that)
  have "run_fmu2_cosim L E bus dlsym F desc h steps csv = Some (0, co_desc c')"
    using assms(1,4) 1(1) 2(1) c'(1) free_run [OF c'(2)] by (simp add: run_fmu2_cosim_def)
  with c'(3,4) show ?thesis by (intro exI [of _ "co_desc c'"]) (auto simp: word_less_nat_alt)
qed

end

subsection \<open>The release of an instance\<close>

lemma close_codecs_run:
  fixes f :: "('m, 'd) fmu"
  assumes "\<forall>i < k. \<forall>n. cs ! i = Some n \<longrightarrow> n < length (nc_heap f)" "k \<le> length cs"
  shows "\<exists>g. foldM (\<lambda>g i. do { p \<leftarrow> nth_opt cs i; fmu_ncodec_close NL g p }) f [0..<k] = Some g \<and>
    mem_sv g = mem_sv f \<and> length (nc_heap g) = length (nc_heap f)"
proof (rule foldM_total)
  show "mem_sv f = mem_sv f \<and> length (nc_heap f) = length (nc_heap f)" by simp
  fix u :: "('m, 'd) fmu" and i assume u: "mem_sv u = mem_sv f \<and> length (nc_heap u) = length (nc_heap f)" and i: "i \<in> set [0..<k]"
  then have "nth_opt cs i = Some (cs ! i)" using assms(2) by (simp add: nth_opt_def)
  then show "\<exists>v. (do { p \<leftarrow> nth_opt cs i; fmu_ncodec_close NL u p }) = Some v \<and>
      mem_sv v = mem_sv f \<and> length (nc_heap v) = length (nc_heap f)"
    using u assms(1) i by (cases "cs ! i") (auto simp: fmu_ncodec_close_def nth_opt_def)
qed

definition releasing :: "('m, 'd) fmu \<Rightarrow> ('m, 'd) fmu \<Rightarrow> bool" where
  "releasing f g \<longleftrightarrow> length (mem_sv g) = length (mem_sv f) \<and> length (nc_heap g) = length (nc_heap f) \<and>
     (\<forall>r < length (mem_sv f). mem_sv g ! r = mem_sv f ! r \<or> mem_sv g ! r = freed_sv (mem_sv f ! r))"

lemma remove_vector_run:
  assumes "mem_wf (mem_sv f)" "codecs_ok f" "releasing f u" "r < length (mem_sv f)"
  shows "\<exists>v. remove_vector NL u r = Some v \<and> releasing f v"
proof -
  let ?sv = "mem_sv u ! r"
  have r: "nth_opt (mem_sv u) r = Some ?sv" using assms(3,4) by (simp add: releasing_def nth_opt_def)
  have upd: "\<exists>v. upd_sv g r freed_sv = Some v \<and> releasing f v" if "mem_sv g = mem_sv u" "length (nc_heap g) = length (nc_heap f)" for g
  proof -
    have "freed_sv ?sv = freed_sv (mem_sv f ! r)" using assms(3,4) by (auto simp: releasing_def freed_sv_def)
    then show ?thesis using that r assms(3,4)
      by (intro exI [of _ "g\<lparr>mem_sv := (mem_sv g)[r := freed_sv ?sv]\<rparr>"]) (auto simp: upd_sv_def releasing_def nth_list_update)
  qed
  show ?thesis
  proof (cases "sv_ncodec ?sv = []")
    case True
    with upd [of u] r assms(3) show ?thesis by (simp add: remove_vector_def releasing_def)
  next
    case False
    with assms(3,4) have sv: "?sv = mem_sv f ! r" by (auto simp: releasing_def freed_sv_def)
    have wf: "sv_wf (mem_sv f ! r)" using assms(1,4) by (simp add: mem_wf_def)
    with False sv have l: "length (sv_ncodec ?sv) = unat (sv_count ?sv)"
      by (auto simp: sv_wf_def split: option.splits)
    have "\<forall>i < unat (sv_count ?sv). \<forall>n. sv_ncodec ?sv ! i = Some n \<longrightarrow> n < length (nc_heap u)"
      using assms(2-4) l sv by (auto simp: codecs_ok_def codec_link_def releasing_def)
    from close_codecs_run [OF this, of NL] l obtain g where
      g: "foldM (\<lambda>g i. do { p \<leftarrow> nth_opt (sv_ncodec ?sv) i; fmu_ncodec_close NL g p }) u [0..<unat (sv_count ?sv)] = Some g"
        "mem_sv g = mem_sv u" "length (nc_heap g) = length (nc_heap u)" by auto
    from g(3) assms(3) have "length (nc_heap g) = length (nc_heap f)" by (simp add: releasing_def)
    from upd [OF g(2) this] g(1) r False show ?thesis by (simp add: remove_vector_def)
  qed
qed

lemma default_remove_run:
  assumes "default_inv L f"
  shows "\<exists>g. fmu_default_signals_remove NL f = Some g"
proof -
  have m: "mem_wf (mem_sv f)" "codecs_ok f" "sv_refs f = [0..<length (mem_sv f)]"
    using assms by (simp_all add: default_inv_def fmu_wf_def)
  have "\<exists>g. foldM (remove_vector NL) f (sv_refs f) = Some g \<and> releasing f g"
  proof (rule foldM_total)
    show "releasing f f" by (simp add: releasing_def)
    fix u r assume "releasing f u" "r \<in> set (sv_refs f)"
    with remove_vector_run [OF m(1,2)] m(3) show "\<exists>v. remove_vector NL u r = Some v \<and> releasing f v" by simp
  qed
  then show ?thesis by (auto simp: fmu_default_signals_remove_def sv_refs_def split: option.splits)
qed

subsection \<open>The modelled FMI 2 functions as the importer calls them\<close>

text \<open>The step is called without its last argument, which the function ignores.\<close>

definition fmu_imports ::
  "'m clib \<Rightarrow> ('m, 'd) signal_vtable \<Rightarrow> ('m, 'd) fmu_impl \<Rightarrow> ('m, 'd) fmu option \<Rightarrow> ('m, 'd) fmu imp_fmi2" where
  "fmu_imports L H I inst = \<lparr>
     f2_instantiate = Some inst,
     f2_set_debug_logging = (\<lambda>f on cats. case fmi2SetDebugLogging f on cats of (g, st) \<Rightarrow> Some (status_no st, g)),
     f2_exit_init = (\<lambda>f. st_no (fmi2ExitInitializationMode I (Some f))),
     f2_get_real = (\<lambda>f vr xs. st_no (fmi2GetReal L (Some f) vr xs)),
     f2_get_string = (\<lambda>f vr ss. st_no (fmi2GetString L (Some f) vr ss)),
     f2_set_real = (\<lambda>f vr xs. st_no (fmi2SetReal L (Some f) vr xs)),
     f2_set_string = (\<lambda>f vr ss. st_no (fmi2SetString L H (Some f) vr ss)),
     f2_do_step = (\<lambda>f point step_size. st_no (fmi2DoStep H I (Some f) point step_size False)),
     f2_free = (\<lambda>f. map_option (\<lambda>_. ()) (fmi2FreeInstance L H I (Some f)))\<rparr>"

definition counting :: "'m clib \<Rightarrow> 'm nclib \<Rightarrow> 'm \<Rightarrow> dloc \<Rightarrow> f64 \<Rightarrow> 'm default_fmu \<Rightarrow> bool" where
  "counting L NL out p x f \<longleftrightarrow> counts L NL out p x f \<and> hm_get L out ''1'' = Some (PDouble p)"

lemma counts_frame:
  "counts L NL out p x f \<Longrightarrow> counts L NL out p x (f\<lparr>inst_log_categories := w, inst_log_enabled := on\<rparr>)"
  "counts L NL out p x f \<Longrightarrow> counts L NL out p x (f\<lparr>free_list := fl\<rparr>)"
  using cm.inv_update(5) [where L = L and NL = NL and f = f and w = w and on = on]
    cm.inv_update(3) [where L = L and NL = NL and f = f and es = "log_out f" and fl = fl]
  by (simp_all add: counts_def load.simps)

text \<open>The counter is an FMU without inputs, whose only output has the reference 1.\<close>

interpretation ci: scalar_fmu "fmu_imports L (fmu_load_signal_handlers L NL env xp parse) (counter_fmu L inc) inst"
  "counting L NL out p" inc "[]" "[1]" "\<lambda>x old. [x]"
  for L :: "'m clib" and NL env xp parse inc inst out p
proof
  fix x :: f64 and i :: "'m default_fmu" assume c: "counting L NL out p x i"
  then have cs: "counts L NL out p x i" and h: "hm_get L out ''1'' = Some (PDouble p)" by (simp_all add: counting_def)
  let ?F = "fmu_imports L (fmu_load_signal_handlers L NL env xp parse) (counter_fmu L inc) inst"
  obtain w where "fst (fmi2SetDebugLogging i True [''All'']) = i\<lparr>inst_log_categories := w, inst_log_enabled := True\<rparr>"
  proof -
    from add_categories [of "i\<lparr>inst_log_categories := 0, inst_log_enabled := True\<rparr>" "[''All'']"] obtain w where
      "foldl add_category (i\<lparr>inst_log_categories := 0, inst_log_enabled := True\<rparr>) [''All''] =
         i\<lparr>inst_log_categories := 0, inst_log_enabled := True, inst_log_categories := w\<rparr>" by blast
    with that [of w] show ?thesis by (simp add: fmi2SetDebugLogging_on)
  qed
  with counts_frame(1) [OF cs] h show "\<exists>st j. f2_set_debug_logging ?F i True [''All''] = Some (st, j) \<and> counting L NL out p x j"
    by (simp add: fmu_imports_def counting_def split_beta)
  from c show "\<exists>st j. f2_exit_init ?F i = Some (st, j) \<and> counting L NL out p x j"
    by (simp add: fmu_imports_def fmi2ExitInitializationMode_def exit_init_def counter_fmu_def counter_init_def)
  from counts_reset [OF cs, of env xp parse] h show "\<exists>st j. f2_set_string ?F i [] [] = Some (st, j) \<and> counting L NL out p x j"
    by (auto simp: fmu_imports_def fmi2SetString_def counting_def)
  from counts_step [OF cs] h show "\<exists>st j. f2_do_step ?F i t step_size = Some (st, j) \<and> counting L NL out p (inc x) j" for t step_size
    by (fastforce simp: fmu_imports_def counting_def)
  from counts_frame(2) [OF cs] h show "\<exists>st j. f2_get_string ?F i [] [] = Some (st, j, []) \<and> counting L NL out p x j"
    by (simp add: fmu_imports_def fmi2GetString_def counting_def)
  have "default_inv L i" using cs by (simp add: counts_def counter_inv_def)
  from default_remove_run [OF this, of NL] show "f2_free ?F i = Some ()"
    by (auto simp: fmu_imports_def fmi2FreeInstance_def release_instance_def counter_fmu_def counter_destroy_def
        fmu_load_signal_handlers_def call_handler_def Let_def)
  fix xs :: "f64 list"
  assume "length xs = length ([] :: u32 list)"
  with c show "\<exists>st j. f2_set_real ?F i [] xs = Some (st, j) \<and> counting L NL out p x j"
    by (simp add: fmu_imports_def fmi2SetReal_def set_reals_def)
next
  fix x :: f64 and i :: "'m default_fmu" and xs :: "f64 list"
  assume c: "counting L NL out p x i" and l: "length xs = length [1 :: u32]"
  then obtain old where "xs = [old]" by (cases xs) auto
  with counts_value [of L NL out p x i old] c show "\<exists>st j. f2_get_real (fmu_imports L (fmu_load_signal_handlers L NL env xp parse)
      (counter_fmu L inc) inst) i [1] xs = Some (st, j, [x]) \<and> counting L NL out p x j"
    by (simp add: fmu_imports_def counting_def)
qed simp


definition demo_counter_desc :: model_description where
  "demo_counter_desc = \<lparr>md_version = ''2.0'', md_lib_path = ''lib'',
     md_real = \<lparr>vr_rx_real = [], vr_tx_real = [1], val_rx_real = [], val_tx_real = [0]\<rparr>,
     md_binary = \<lparr>vr_rx_binary = [], vr_tx_binary = [], val_rx_binary = [], val_tx_binary = [],
       val_size_rx_binary = [], val_size_tx_binary = [], rx_binary_info = None, tx_binary_info = None\<rparr>\<rparr>"


subsection \<open>FMUs without binary outputs\<close>

text \<open>
  The array of the binary outputs is allocated also when there are none. When the allocation of
  zero bytes does not return null, the first entry of the empty array is read in every step.
\<close>

lemma empty_outputs_undefined:
  assumes "tx_binary_info (co_binary s) = Some []" "vr_tx_binary (co_binary s) = []"
  shows "fmu2_step L E bus F h s k = None"
  using assms by (simp add: fmu2_step_def exchange_binary_def push_outputs_def inject_frame_def nth_opt_def)

lemma alloc_no_outputs: "hk [] = [] \<Longrightarrow> tx_binary_info (md_binary (alloc_model False hk v p (m\<lparr>im_tx_binary := []\<rparr>))) = Some []"
  by (simp add: alloc_model_def alloc_binary_var_def Let_def split: prod.splits)

end
