(* ===== verification/Spec2Isabelle.thy ===== *)
theory Spec2Isabelle
  imports FmuLog LinearFmu Fmi3Session MclModel Fmi2Example ModelcRun GatewayWinRun ImporterCosim
begin

text \<open>
  A verification library for dse.fmi, the FMI toolbox of the Dynamic Simulation Environment
  (C sources under src/dse).

  \<^bold>\<open>The program.\<close> An FMU is a shared library that a simulation tool drives through the FMI 2 or
  FMI 3 functions. The directory fmu holds the part that all FMUs share: the FMI functions, which
  work on an instance with maps from value references to scalar and binary signals, and the
  default handlers that build these maps from the model description. Behind them sits a user FMU
  with four functions (create, init, step, destroy). Four are modelled: the examples counter and
  linear, the ModelC FMU (fmimodelc), which runs a whole simulation in the FMU, and the gateway
  (fmigateway), which connects the tool to a running simulation and starts and stops its
  processes (on Windows itself, elsewhere by commands). In the other direction fmimcl is a model
  of ModelC that loads an FMU and exchanges its variables with the signals of the simulation; it
  has an example FMU of its own. The importer is a small tool that steps an FMU: its inputs come
  from a CSV file, and its binary signals are connected by networks.

  \<^bold>\<open>Theories and code.\<close>
  \<^item> Prelude: checked access to lists, loops over a failing step (\<open>foldM\<close>), decimal printing,
    comparison of doubles. CLib: the contracts of the external C library (hash map, buffer append,
    ascii85), with one concrete implementation that shows they can hold. CString: the string
    functions of C.
  \<^item> FmuState (fmu.h): the record \<open>fmu\<close> is FmuInstanceData. The memory of the signals is the list
    \<open>mem_sv\<close> of signal vectors (FmuSignalVector); a pointer to a double is a \<open>dloc\<close> (a scalar of a
    vector, or a registered double), a pointer to a binary signal is its place (\<open>svi\<close>). \<open>fmu_wf\<close> is
    the invariant of an instance: vectors with arrays of one length, maps with valid places.
    FmuStream, FmuNCodec (ncodec.c): the binary signal stream, codecs and their trace. FmuLog
    (fmi2fmu.c, fmi3fmu.c): the log filter and the dump of binary signals. XmlLoader (xml.c).
    FmuVariable (fmi2variable.c, fmi3variable.c) and FmuSignal (signal.c, fmu.c): indexing and the
    default handlers. FmiAccess, Fmi2Fmu, Fmi3Fmu (fmi2fmu.c, fmi3fmu.c): the FMI functions.
    FmuModel: the contract of a user FMU. CounterFmu (counter.c), LinearFmu (linear.c).
  \<^item> Fmi2Session, Fmi3Session, CounterRun: what sequences of calls do.
  \<^item> MclParser (parser.c), MclEngine (engine.c), MclAdapter (adapter/fmi2mcl.c), MclFmu (the same
    over the modelled FMI 2 functions), MclModel (fmimcl.c, model.c), Fmi2Example (the example FMU
    examples/fmi2fmu/fmi2fmu.c, alone and behind the adapter).
  \<^item> SignalGroups: the walk over annotated signals that runtime.c and index.c share. ModelcFmu,
    ModelcRun (fmimodelc).
  \<^item> GatewayXml (fmigateway.h, parse_fmi.c), GatewayYaml (parser.c), GatewayFmu (index.c, session.c,
    session_unix.c, signal.c, fmigateway.c), GatewayRun: its sessions. GatewayWin
    (session_win32.c), GatewayWinRun: the same session over the processes of Windows.
  \<^item> ImporterCsv (csv.c), ImporterBus (signal_bus.c), ImporterXml (xml.c), ImporterRun (importer.c):
    the importer. ImporterNet: its networks over a step. ImporterCosim: the whole program over
    the modelled FMI 2 functions and the counter.

  \<^bold>\<open>Effects and errors.\<close> Operations take the instance and return it updated. An operation that can
  reach undefined behaviour (a null or dangling pointer, an access outside an array), abort by an
  assertion, or not return, has an option type, and \<open>None\<close> stands for all of these; so a theorem
  that a call yields \<open>Some\<close> says that it returns and stays inside its memory. FMI status and
  return codes are values. The calls of the FMU's logger are the list \<open>log_out\<close>; the environment, and
  the commands, processes and connection calls of the gateway, are kept in its data. A double is
  its 64 bit pattern, value references and sizes are words where their width matters (the key of
  a reference is the decimal text of a signed int, \<open>vr_key\<close>).

  \<^bold>\<open>Parameters.\<close> Code outside src is a parameter: the hash maps and ascii85 (\<open>clib\<close>, \<open>value_map\<close>),
  NCodec (\<open>nclib\<close>, \<open>net_lib\<close>), libxml2's parser and XPath, the YAML library, ModelC (\<open>mcl_api\<close>, \<open>modelc\<close>,
  \<open>gw_lib\<close>), dlopen (\<open>shared_lib\<close>, \<open>imp_system\<close>), the copies of dse.clib's marshal module (\<open>marshal_lib\<close>),
  the operations on doubles and strtod, processes and the file system, the Windows API (\<open>win_lib\<close>).
  The FMU behind the importer is the table \<open>imp_fmi2\<close> or \<open>imp_fmi3\<close>. What the code relies on is a named
  hypothesis (\<open>hashmap_ok\<close>, \<open>value_map_ok\<close>, \<open>buffer_ok\<close>, \<open>ascii85_ok\<close>, \<open>truncate_ok\<close>, \<open>out_ok\<close>, \<open>in_ok\<close>,
  \<open>modelc_ok\<close>, \<open>gw_lib_ok\<close>, \<open>net_ok\<close>, \<open>waits_end\<close>), and each has a concrete instance which the witnesses use.

  \<^bold>\<open>Interfaces.\<close> The locale \<open>signal_handlers\<close> is what the FMI functions rely on of the signal handlers
  of an FMU, \<open>fmu_model\<close> adds the user FMU; they are interpreted for the default handlers, the
  counter, the linear FMU, the ModelC FMU and the gateway, so that the theorems on FMI calls hold
  for each of them. \<open>fmi2_component\<close> is what the MCL's adapter relies on of the library it loads,
  interpreted for the FMI 2 functions of fmu and for the example FMU. \<open>scalar_fmu\<close> is what the
  importer relies on to step an FMU without binary signals, \<open>fmu_logger\<close> covers the two log
  functions, \<open>byte_stream\<close> the binary signal stream.

  \<^bold>\<open>What is shown.\<close> C1, C13, C24 and C31: no sequence of calls that keeps the caller's side of FMI
  gets stuck, for every user FMU, the ModelC FMU and the gateway. C2 to C8, C11, C12, C14: transport
  of scalar and binary values, their accumulation and reset, and the limits of the code. C9, C10:
  trace and log filters. C15, C16: the counter and the linear FMU. C17 to C23: the marshal table of
  the MCL and the refinement of its marshalling to reads and writes of FMU variables. C25, C26: the
  indexing of the ModelC FMU. C27 to C29: the example FMU behind the MCL, its typed variables and
  its texts. C30: the XML enumeration ends. C32 to C34: the order of the gateway's calls, the
  environment of its commands, the arguments of stacked models. C35 to C37: the importer runs the
  counter to its end, its networks deliver, its samples are applied when due. C38 to C40: the life
  of a Windows session, its environment blocks and its command lines.

  \<^bold>\<open>Bounds.\<close> Every loop of the code is over a list or has a measure, except five that are
  \<open>partial_function\<close>s since they need not end: the calling loop of the XML enumerator (C30 shows that
  it ends), the dump of binary signals, the reading of a codec's configuration and, in the
  importer, the same reading and the reading of a network's messages. No fuel is used.

  \<^bold>\<open>Not modelled.\<close> The release of memory beyond what a later call can see, console output, the
  messages of log_debug and log_error, allocation failure; in the importer the log call-backs it
  hands to the FMU; in the Windows session the security attributes of its log files. The example
  network.c packs PDUs of dse.ncodec, whose format is not in the repository; the remaining
  examples are models of ModelC that call its API and keep no logic of their own.
\<close>

end
